(* ===== verification/Xa_Prelude.thy ===== *)
theory Xa_Prelude
  imports Main "HOL-Library.Word" "HOL-Library.Monad_Syntax"
begin

text \<open>
  Shared vocabulary of the XenAccess development: the C integer types as words, masks and
  shifts read as \<open>div\<close> and \<open>mod\<close> on naturals, little-endian
  loads from byte buffers, and NUL-terminated strings.

  The host is the one the sources are written for, a 32-bit x86 (\<open>fpp\<close> counts
  1024 \<open>xen_pfn_t\<close> per frame, \<open>helper_destroy\<close> sizes the table in
  units of 4 bytes): \<open>unsigned long\<close>, pointers and \<open>uint32_t\<close> are
  32 bits wide, little-endian.

  Every operation that may touch memory returns an \<open>option\<close>: \<open>None\<close>
  stands for behaviour C leaves undefined (a load outside a mapping, through NULL or through
  freed memory, the use of an indeterminate value) or for a loop that never ends;
  \<open>Some r\<close> is a run that returns \<open>r\<close>.
\<close>

unbundle bit_operations_syntax

named_theorems word_split \<open>masks and shifts of machine words as div and mod on naturals\<close>
named_theorems defined_rules \<open>conditions under which an operation is defined\<close>

section \<open>Machine words\<close>

type_synonym u8 = "8 word"
type_synonym u16 = "16 word"
type_synonym u32 = "32 word"
type_synonym u64 = "64 word"

lemma push_drop_bit_word:
  fixes x :: "'a::len word"
  shows "push_bit n (drop_bit n x) = x AND NOT (mask n)"
  by (rule bit_eqI) (auto simp: bit_simps)

lemma unat_and_mask:
  fixes x :: "'a::len word"
  shows "unat (x AND mask n) = unat x mod 2 ^ n"
  by (simp only: take_bit_eq_mask [symmetric] unsigned_take_bit_eq) (simp add: take_bit_eq_mod)

lemma unat_and_not_mask:
  fixes x :: "'a::len word"
  shows "unat (x AND NOT (mask n)) = unat x div 2 ^ n * 2 ^ n"
proof -
  have "unat x div 2 ^ n * 2 ^ n \<le> unat x" by (simp add: div_times_less_eq_dividend)
  then have "unat x div 2 ^ n * 2 ^ n < 2 ^ LENGTH('a)"
    using unsigned_less [of x] by (rule le_less_trans)
  then have "unat (push_bit n (drop_bit n x)) = unat x div 2 ^ n * 2 ^ n"
    by (simp only: unsigned_push_bit_eq unat_drop_bit_eq)
      (simp add: push_bit_eq_mult drop_bit_eq_div take_bit_nat_eq_self)
  then show ?thesis by (simp add: push_drop_bit_word)
qed

lemma unat_drop_bit:
  fixes x :: "'a::len word"
  shows "unat (drop_bit n x) = unat x div 2 ^ n"
  by (simp only: unat_drop_bit_eq) (simp add: drop_bit_eq_div)

lemma unat_or_disjoint:
  fixes x y :: "'a::len word"
  assumes "x AND y = 0"
  shows "unat (x OR y) = unat x + unat y"
proof -
  have "unat x AND unat y = unat (x AND y)" by (simp add: unsigned_and_eq)
  with assms have "unat x AND unat y = 0" by simp
  then have "unat x + unat y = (unat x OR unat y)" by (rule disjunctive_add_eq_or)
  then show ?thesis by (simp add: unsigned_or_eq)
qed

lemma unat_or_masks:
  fixes x y :: "'a::len word"
  shows "unat ((x AND NOT (mask n)) OR (y AND mask n))
    = unat x div 2 ^ n * 2 ^ n + unat y mod 2 ^ n"
proof -
  have "(x AND NOT (mask n)) AND (y AND mask n) = 0"
    by (rule bit_eqI) (auto simp: bit_simps)
  then show ?thesis by (simp only: unat_or_disjoint unat_and_mask unat_and_not_mask)
qed

lemma low_masks:
  "(0xFFF :: 'a::len word) = mask 12"
  "(0x3FF :: 'a::len word) = mask 10"
  "(0x1FF :: 'a::len word) = mask 9"
  "(0x3FFFFF :: 'a::len word) = mask 22"
  "(0x1FFFFF :: 'a::len word) = mask 21"
  "(0xFFFF :: 'a::len word) = mask 16"
  by (simp_all add: mask_eq_exp_minus_1)

lemma high_masks:
  "(0xFFFFF000 :: u32) = NOT (mask 12)"
  "(0xFFC00000 :: u32) = NOT (mask 22)"
  "(0xFFE00000 :: u32) = NOT (mask 21)"
  "(0xFFFFFFE0 :: u32) = NOT (mask 5)"
  by (simp_all add: mask_eq_exp_minus_1)

lemma unat_bound32 [simp]: "unat (x :: u32) < 4294967296"
  using unsigned_less [of x] by simp

lemma unat_plus_small:
  fixes a b :: "'a::len word"
  assumes "unat a + unat b < 2 ^ LENGTH('a)"
  shows "unat (a + b) = unat a + unat b"
  using assms by (simp add: unat_word_ariths)

lemma unat_mult_small:
  fixes a b :: "'a::len word"
  assumes "unat a * unat b < 2 ^ LENGTH('a)"
  shows "unat (a * b) = unat a * unat b"
  using assms by (simp add: unat_word_ariths)

lemma bit_unat_odd: "bit (x :: 'a::len word) n \<longleftrightarrow> odd (unat x div 2 ^ n)"
proof -
  have "bit (unat x) n \<longleftrightarrow> odd (unat x div 2 ^ n)" by (rule bit_iff_odd)
  then show ?thesis by (simp add: bit_simps)
qed

lemma unat_frame: "unat ((e :: u32) AND 0xFFFFF000) = unat e div 4096 * 4096"
  by (simp add: high_masks unat_and_not_mask)

lemma unat_shifted_index:
  "unat ((drop_bit k (v :: u32) AND 0x3FF) * 4) = 4 * (unat v div 2 ^ k mod 1024)"
  "unat ((drop_bit k (v :: u32) AND 0x1FF) * 8) = 8 * (unat v div 2 ^ k mod 512)"
  by (subst unat_mult_small; simp add: low_masks unat_and_mask unat_drop_bit)+

section \<open>Little-endian loads\<close>

text \<open>\<open>rd n bs off\<close> is the load of an \<open>n\<close>-byte integer at
  \<open>bs + off\<close>; it is undefined when it leaves the buffer.\<close>

primrec le_word :: "u8 list \<Rightarrow> 'a::len word" where
  "le_word [] = 0"
| "le_word (b # bs) = push_bit 8 (le_word bs) OR ucast b"

primrec le_bytes :: "nat \<Rightarrow> 'a::len word \<Rightarrow> u8 list" where
  "le_bytes 0 w = []"
| "le_bytes (Suc n) w = ucast w # le_bytes n (drop_bit 8 w)"

lemma length_le_bytes [simp]: "length (le_bytes n w) = n"
  by (induction n arbitrary: w) simp_all

lemma le_word_le_bytes: "le_word (le_bytes n w) = take_bit (8 * n) w"
proof (induction n arbitrary: w)
  case 0
  then show ?case by simp
next
  case (Suc n)
  have "push_bit 8 (take_bit (8 * n) (drop_bit 8 w)) OR ucast (ucast w :: u8) =
      take_bit (8 * Suc n) w"
    by (rule bit_eqI) (auto simp: bit_simps not_le less_diff_conv2)
  then show ?case by (simp add: Suc.IH)
qed

lemma le_word_le_bytes_id [simp]:
  "le_word (le_bytes 4 w) = (w :: u32)"
  "le_word (le_bytes 8 d) = (d :: u64)"
  "le_word (le_bytes 2 h) = (h :: u16)"
  by (simp_all add: le_word_le_bytes take_bit_word_eq_self)

definition rd :: "nat \<Rightarrow> u8 list \<Rightarrow> nat \<Rightarrow> 'a::len word option" where
  "rd n bs off = (if off + n \<le> length bs then Some (le_word (take n (drop off bs))) else None)"

abbreviation rd8 :: "u8 list \<Rightarrow> nat \<Rightarrow> u8 option" where "rd8 \<equiv> rd 1"
abbreviation rd16 :: "u8 list \<Rightarrow> nat \<Rightarrow> u16 option" where "rd16 \<equiv> rd 2"
abbreviation rd32 :: "u8 list \<Rightarrow> nat \<Rightarrow> u32 option" where "rd32 \<equiv> rd 4"
abbreviation rd64 :: "u8 list \<Rightarrow> nat \<Rightarrow> u64 option" where "rd64 \<equiv> rd 8"

lemma rd_defined [defined_rules]: "off + n \<le> length bs \<Longrightarrow> \<exists>v. rd n bs off = Some v"
  by (simp add: rd_def)

lemma rd_None_iff: "rd n bs off = None \<longleftrightarrow> length bs < off + n"
  by (auto simp: rd_def)

lemma rd_append_exact:
  "length pre = off \<Longrightarrow> length ws = n \<Longrightarrow> rd n (pre @ ws @ post) off = Some (le_word ws)"
  by (simp add: rd_def)

section \<open>C strings\<close>

text \<open>A C string is the list of its characters before the terminating NUL, each an
  \<open>unsigned char\<close>. \<open>strncmp_eq n s t\<close> is
  \<open>strncmp(s, t, n) == 0\<close> on such strings, \<open>strndup s n\<close> the
  first \<open>n\<close> characters, \<open>strcmp_lt s t\<close> is
  \<open>strcmp(s, t) < 0\<close>: the end of a string compares as NUL, below every
  character.\<close>

definition strncmp_eq :: "nat \<Rightarrow> string \<Rightarrow> string \<Rightarrow> bool" where
  "strncmp_eq n s t \<longleftrightarrow> take n s = take n t"

definition strndup :: "string \<Rightarrow> nat \<Rightarrow> string" where
  "strndup s n = take n s"

fun strcmp_lt :: "string \<Rightarrow> string \<Rightarrow> bool" where
  "strcmp_lt s [] = False"
| "strcmp_lt [] (d # t) = True"
| "strcmp_lt (c # s) (d # t) =
     (if c = d then strcmp_lt s t else (of_char c :: nat) < of_char d)"

lemma strncmp_eq_refl [simp]: "strncmp_eq n s s"
  by (simp add: strncmp_eq_def)

lemma strncmp_eq_strndup [simp]: "strncmp_eq n (strndup s n) t = strncmp_eq n s t"
  by (simp add: strncmp_eq_def strndup_def)

text \<open>The \<open>strnlen(p, n)\<close> characters at \<open>p\<close>, where \<open>bs\<close> are the bytes
  from \<open>p\<close> to the end of the mapping.\<close>

fun strn_bytes :: "u8 list \<Rightarrow> nat \<Rightarrow> string option" where
  "strn_bytes bs 0 = Some []"
| "strn_bytes [] (Suc n) = None"
| "strn_bytes (b # bs) (Suc n) =
     (if b = 0 then Some [] else do { s \<leftarrow> strn_bytes bs n; Some (char_of (unat b) # s) })"

end
