(* ===== verification/Xa_Types.thy ===== *)
theory Xa_Types
  imports Xa_Prelude
begin

text \<open>
  The data of libxa: the constants and structs of \<open>xenaccess.h.in\<close> and
  \<open>xa_private.h\<close>, the instance every operation works on, and the world outside
  the library as a record of functions.

  The two unions of \<open>xa_instance_t\<close> become pairs of structs: \<open>os\<close> is
  \<open>linux_inst\<close> and \<open>windows_inst\<close>, \<open>m\<close> is
  \<open>m_xen\<close> and \<open>m_file\<close>; the code selects one by
  \<open>os_type\<close> and \<open>mode\<close>. A C \<open>int\<close> holding a pid or a
  structure offset is its 32-bit pattern, a flag is a \<open>bool\<close>, an open file is its
  name.
\<close>

section \<open>Constants\<close>

abbreviation (input) XA_MODE_XEN :: u32 where "XA_MODE_XEN \<equiv> 0"
abbreviation (input) XA_MODE_FILE :: u32 where "XA_MODE_FILE \<equiv> 1"
abbreviation (input) XA_FAILHARD :: u32 where "XA_FAILHARD \<equiv> 0"
abbreviation (input) XA_FAILSOFT :: u32 where "XA_FAILSOFT \<equiv> 1"
abbreviation (input) XA_OS_UNKNOWN :: u32 where "XA_OS_UNKNOWN \<equiv> 0"
abbreviation (input) XA_OS_LINUX :: u32 where "XA_OS_LINUX \<equiv> 1"
abbreviation (input) XA_OS_WINDOWS :: u32 where "XA_OS_WINDOWS \<equiv> 2"
abbreviation (input) XA_CACHE_SIZE :: int where "XA_CACHE_SIZE \<equiv> 25"
abbreviation (input) XA_PID_CACHE_SIZE :: int where "XA_PID_CACHE_SIZE \<equiv> 5"
abbreviation (input) MAX_SYM_LEN :: nat where "MAX_SYM_LEN \<equiv> 512"
abbreviation (input) fpp :: u32 where "fpp \<equiv> 1024"
abbreviation (input) PROT_READ :: u32 where "PROT_READ \<equiv> 1"

datatype xen_ver = XA_XENVER_UNKNOWN | XA_XENVER_3_0_4 | XA_XENVER_3_1_0 | XA_XENVER_3_1_1
  | XA_XENVER_3_1_2 | XA_XENVER_3_1_3 | XA_XENVER_3_1_4 | XA_XENVER_3_2_0 | XA_XENVER_3_2_1
  | XA_XENVER_3_2_2 | XA_XENVER_3_2_3 | XA_XENVER_3_3_0 | XA_XENVER_3_3_1 | XA_XENVER_3_4_0

text \<open>A function that returns \<open>XA_SUCCESS\<close> after filling its out parameter, or
  \<open>XA_FAILURE\<close> leaving it as it was.\<close>

datatype 'a xa_ret = XA_SUCCESS 'a | XA_FAILURE

text \<open>The value an out parameter has after a reader whose status is ignored, when it was
  \<open>d\<close> before.\<close>

definition out_val :: "'a \<Rightarrow> 'a xa_ret \<Rightarrow> 'a" where
  "out_val d r = (case r of XA_SUCCESS v \<Rightarrow> v | XA_FAILURE \<Rightarrow> d)"

section \<open>Cache entries\<close>

text \<open>The links and the time stamp the two kinds of cache entry share; a pointer is
  \<open>None\<close> for NULL or the address of an entry.\<close>

type_synonym ptr = "nat option"

record lru_node =
  last_used :: int
  nxt :: ptr
  prv :: ptr

record xa_cache_entry = lru_node +
  ce_symbol_name :: string
  ce_virt_address :: u32
  ce_mach_address :: u32
  ce_pid :: u32

record xa_pid_cache_entry = lru_node +
  pce_pid :: u32
  pce_pgd :: u32

text \<open>A cache of the instance: the head, tail and size fields together with the heap cells
  its entries live in. \<open>l_brk\<close> is the least address \<open>malloc\<close> has not
  handed out yet.\<close>

record 'n lru =
  l_head :: ptr
  l_tail :: ptr
  l_size :: int
  l_heap :: "nat \<rightharpoonup> 'n"
  l_brk :: nat

section \<open>The instance\<close>

record xen_src =
  domain_id :: u32
  xen_version :: xen_ver
  shared_info_frame :: u32
  xen_size :: u32
  live_pfn_to_mfn_table :: "u8 list option"
  nr_pfns :: u32

record file_src =
  fhandle :: string
  file_size :: u32

record linux_instance =
  l_tasks_offset :: u32
  l_mm_offset :: u32
  l_pid_offset :: u32
  l_pgd_offset :: u32
  l_addr_offset :: u32

record windows_instance =
  w_ntoskrnl :: u32
  w_tasks_offset :: u32
  w_pdbase_offset :: u32
  w_pid_offset :: u32
  w_peb_offset :: u32
  w_iba_offset :: u32
  w_ph_offset :: u32

record xa_instance =
  mode :: u32
  error_mode :: u32
  sysmap :: "string option"
  image_type :: "string option"
  page_offset :: u32
  page_shift :: u32
  page_size :: u32
  kpgd :: u32
  init_task :: u32
  os_type :: u32
  hvm :: bool
  pae :: bool
  pse :: bool
  inst_cr3 :: u32
  cache :: "xa_cache_entry lru"
  pid_cache :: "xa_pid_cache_entry lru"
  linux_inst :: linux_instance
  windows_inst :: windows_instance
  m_xen :: xen_src
  m_file :: file_src
  ticks :: nat

section \<open>The world outside the library\<close>

text \<open>
  What libxc, the kernel and the C library answer. \<open>xc_map_foreign_range\<close> and
  \<open>mmap_file\<close> give the bytes of one mapped page, or \<open>None\<close> when the
  call fails; \<open>xc_map_foreign_batch\<close> the bytes of a run of frames, and
  \<open>xc_batch_marks\<close> the array of frame numbers it leaves behind, the failing ones
  marked;
  \<open>vcpu_ctrlreg d n\<close> control register \<open>n\<close> of the first virtual CPU,
  \<open>None\<close> when \<open>xc_vcpu_getcontext\<close> fails;
  \<open>shinfo_max_pfn\<close> and \<open>shinfo_frame_list_list\<close> read two fields of
  Xen's \<open>shared_info_t\<close>. \<open>time_at n\<close> is what the call of
  \<open>time(NULL)\<close> number \<open>n\<close> returns; \<open>ticks\<close> counts the calls.
  \<open>xs_read\<close> and \<open>xs_directory\<close> ask the XenStore,
  \<open>fopen_text\<close> gives the contents of a text file,
  \<open>image_size\<close> the size of a memory image file.
\<close>

record xa_config_entry =
  cfg_sysmap :: string
  cfg_ostype :: string
  cfg_linux :: linux_instance
  cfg_windows :: windows_instance

record xa_env =
  xc_map_foreign_range :: "u32 \<Rightarrow> u32 \<Rightarrow> u8 list option"
  xc_map_foreign_batch :: "u32 \<Rightarrow> u32 list \<Rightarrow> u8 list option"
  xc_batch_marks :: "u32 \<Rightarrow> u32 list \<Rightarrow> u32 list"
  xc_maximum_gpfn :: "u32 \<Rightarrow> u32"
  vcpu_ctrlreg :: "u32 \<Rightarrow> nat \<Rightarrow> u32 option"
  shinfo_max_pfn :: "u8 list \<Rightarrow> u32"
  shinfo_frame_list_list :: "u8 list \<Rightarrow> u32"
  mmap_file :: "u32 \<Rightarrow> u8 list option"
  time_at :: "nat \<Rightarrow> int"
  xs_read :: "string \<Rightarrow> string option"
  xs_directory :: "string \<Rightarrow> string list"
  fopen_text :: "string \<Rightarrow> string option"
  xc_interface_open :: bool
  xc_domain_getinfo :: "u32 \<Rightarrow> bool"
  xc_version :: u32
  xc_extraversion :: string
  fopen_image :: "string \<Rightarrow> bool"
  image_size :: "string \<Rightarrow> u32 option"
  xc_interface_close :: bool

text \<open>A mapped page: its bytes and the protection it was mapped with.\<close>

record mapping =
  map_bytes :: "u8 list"
  map_prot :: u32

section \<open>The cleared instance\<close>

text \<open>What \<open>bzero\<close> and \<open>xa_init_common\<close> leave behind, and a world in
  which only the frames \<open>fr\<close> can be mapped; concrete instances are built from
  these two.\<close>

definition lru_init :: "'n lru" where
  "lru_init = \<lparr>l_head = None, l_tail = None, l_size = 0, l_heap = Map.empty, l_brk = 0\<rparr>"

definition xa_instance_zero :: xa_instance where
  "xa_instance_zero = \<lparr>mode = 0, error_mode = 0, sysmap = None, image_type = None,
     page_offset = 0, page_shift = 0, page_size = 0, kpgd = 0, init_task = 0, os_type = 0,
     hvm = False, pae = False, pse = False, inst_cr3 = 0, cache = lru_init, pid_cache = lru_init,
     linux_inst = \<lparr>l_tasks_offset = 0, l_mm_offset = 0, l_pid_offset = 0, l_pgd_offset = 0,
       l_addr_offset = 0\<rparr>,
     windows_inst = \<lparr>w_ntoskrnl = 0, w_tasks_offset = 0, w_pdbase_offset = 0, w_pid_offset = 0,
       w_peb_offset = 0, w_iba_offset = 0, w_ph_offset = 0\<rparr>,
     m_xen = \<lparr>domain_id = 0, xen_version = XA_XENVER_UNKNOWN, shared_info_frame = 0, xen_size = 0,
       live_pfn_to_mfn_table = None, nr_pfns = 0\<rparr>,
     m_file = \<lparr>fhandle = [], file_size = 0\<rparr>, ticks = 0\<rparr>"

text \<open>The same with the page size of a 32-bit x86 guest.\<close>

definition std_inst :: xa_instance where
  "std_inst = xa_instance_zero\<lparr>page_shift := 12, page_size := 4096\<rparr>"

definition frames_env :: "(u32 \<Rightarrow> u8 list option) \<Rightarrow> xa_env" where
  "frames_env fr = \<lparr>xc_map_foreign_range = (\<lambda>d f. fr f), xc_map_foreign_batch = (\<lambda>d fs. None),
     xc_batch_marks = (\<lambda>d fs. fs),
     xc_maximum_gpfn = (\<lambda>d. 0), vcpu_ctrlreg = (\<lambda>d n. Some (if n = 0 then 0x80000000 else 0)), shinfo_max_pfn = (\<lambda>b. 0),
     shinfo_frame_list_list = (\<lambda>b. 0), mmap_file = (\<lambda>a. None), time_at = int,
     xs_read = (\<lambda>p. None), xs_directory = (\<lambda>p. []), fopen_text = (\<lambda>p. None),
     xc_interface_open = True, xc_domain_getinfo = (\<lambda>d. True),
     xc_version = 0x30001, xc_extraversion = ''.0'', fopen_image = (\<lambda>f. False),
     image_size = (\<lambda>f. None), xc_interface_close = True\<rparr>"

definition no_env :: xa_env where
  "no_env = frames_env (\<lambda>f. None)"

lemma std_inst_caches [simp]: "cache std_inst = lru_init" "pid_cache std_inst = lru_init"
  "page_size std_inst = 4096" "page_shift std_inst = 12"
  by (simp_all add: std_inst_def xa_instance_zero_def)

end
