(* ===== verification/Xa_Map.thy ===== *)
theory Xa_Map
  imports Xa_Types
begin

text \<open>
  Mapping guest pages and reading from them: \<open>xa_file.c\<close>,
  \<open>xa_map_page\<close>, \<open>xa_get_bit\<close> and the \<open>mach\<close> and
  \<open>phys\<close> readers of \<open>xa_util.c\<close>, and \<open>helper_pfn_to_mfn\<close>,
  \<open>xa_mmap_mfn\<close>, \<open>xa_mmap_pfn\<close>, \<open>xa_access_pa\<close>,
  \<open>xa_access_ma\<close> of \<open>xa_memory.c\<close>.

  A returned pointer is \<open>None\<close> for NULL or a mapping together with the offset the
  code stores through its \<open>offset\<close> argument. \<open>munmap\<close> frees address
  space only and has no counterpart.
\<close>

section \<open>Mapping one page\<close>

definition map_page_of :: "u32 \<Rightarrow> u8 list \<Rightarrow> mapping" where
  "map_page_of prot bs = \<lparr>map_bytes = bs, map_prot = prot\<rparr>"

definition xa_map_file_range :: "xa_env \<Rightarrow> xa_instance \<Rightarrow> u32 \<Rightarrow> u32 \<Rightarrow> mapping option" where
  "xa_map_file_range env inst prot pfn =
     (let address = push_bit (unat (page_shift inst)) pfn
      in if file_size (m_file inst) \<le> address then None
         else map_option (map_page_of prot) (mmap_file env address))"

definition xa_map_page :: "xa_env \<Rightarrow> xa_instance \<Rightarrow> u32 \<Rightarrow> u32 \<Rightarrow> mapping option" where
  "xa_map_page env inst prot frame_num =
     (if mode inst = XA_MODE_XEN then
        map_option (map_page_of prot)
          (xc_map_foreign_range env (domain_id (m_xen inst)) frame_num)
      else if mode inst = XA_MODE_FILE then xa_map_file_range env inst prot frame_num
      else None)"

definition xa_mmap_mfn :: "xa_env \<Rightarrow> xa_instance \<Rightarrow> u32 \<Rightarrow> u32 \<Rightarrow> mapping option" where
  "xa_mmap_mfn env inst prot mfn = xa_map_page env inst prot mfn"

section \<open>Frame numbers\<close>

text \<open>The first \<open>n\<close> words of a mapped array, undefined when they leave it.\<close>

fun rd_words :: "u8 list \<Rightarrow> nat \<Rightarrow> u32 list option" where
  "rd_words bs 0 = Some []"
| "rd_words bs (Suc n) = do { w \<leftarrow> rd32 bs 0; ws \<leftarrow> rd_words (drop 4 bs) n; Some (w # ws) }"

text \<open>The lazily loaded table of a paravirtualised guest. \<open>XA_FAILURE\<close> is the
  jump to \<open>error_exit\<close>.\<close>

definition load_p2m_table :: "xa_env \<Rightarrow> xa_instance \<Rightarrow> (u8 list \<times> u32) xa_ret option" where
  "load_p2m_table env inst =
     (let dom = domain_id (m_xen inst)
      in case xa_mmap_mfn env inst PROT_READ (shared_info_frame (m_xen inst)) of
           None \<Rightarrow> Some XA_FAILURE
         | Some live_shinfo \<Rightarrow>
             (let nr = (if xen_version (m_xen inst) = XA_XENVER_3_1_0
                        then xc_maximum_gpfn env dom + 1
                        else shinfo_max_pfn env (map_bytes live_shinfo))
              in case xa_mmap_mfn env inst PROT_READ
                        (shinfo_frame_list_list env (map_bytes live_shinfo)) of
                   None \<Rightarrow> Some XA_FAILURE
                 | Some fll \<Rightarrow> do {
                     mfns1 \<leftarrow> rd_words (map_bytes fll)
                       (unat ((nr + fpp * fpp - 1) div (fpp * fpp)));
                     (case xc_map_foreign_batch env dom mfns1 of
                        None \<Rightarrow> Some XA_FAILURE
                      | Some fl \<Rightarrow> do {
                          mfns2 \<leftarrow> rd_words fl (unat ((nr + fpp - 1) div fpp));
                          (case xc_map_foreign_batch env dom mfns2 of
                             None \<Rightarrow> Some XA_FAILURE
                           | Some tbl \<Rightarrow> Some (XA_SUCCESS (tbl, nr)))})}))"

definition helper_pfn_to_mfn :: "xa_env \<Rightarrow> xa_instance \<Rightarrow> u32 \<Rightarrow> (u32 \<times> xa_instance) option" where
  "helper_pfn_to_mfn env inst pfn =
     (if hvm inst then Some (pfn, inst)
      else case live_pfn_to_mfn_table (m_xen inst) of
        Some tbl \<Rightarrow> do { mfn \<leftarrow> rd32 tbl (4 * unat pfn); Some (mfn, inst) }
      | None \<Rightarrow> do {
          r \<leftarrow> load_p2m_table env inst;
          (case r of
             XA_FAILURE \<Rightarrow> Some (-1, inst)
           | XA_SUCCESS (tbl, nr) \<Rightarrow> do {
               mfn \<leftarrow> rd32 tbl (4 * unat pfn);
               Some (mfn, inst\<lparr>m_xen := (m_xen inst)
                 \<lparr>live_pfn_to_mfn_table := Some tbl, nr_pfns := nr\<rparr>\<rparr>)})})"

definition xa_mmap_pfn ::
  "xa_env \<Rightarrow> xa_instance \<Rightarrow> u32 \<Rightarrow> u32 \<Rightarrow> (mapping option \<times> xa_instance) option" where
  "xa_mmap_pfn env inst prot pfn = do {
     (mfn, inst') \<leftarrow>
       (if mode inst = XA_MODE_XEN then helper_pfn_to_mfn env inst pfn
        else if mode inst = XA_MODE_FILE then Some (pfn, inst)
        else Some (-1, inst));
     Some (if mfn = -1 then None else xa_map_page env inst' prot mfn, inst')}"

section \<open>Access by physical and by machine address\<close>

definition xa_access_pa ::
  "xa_env \<Rightarrow> xa_instance \<Rightarrow> u32 \<Rightarrow> u32 \<Rightarrow> ((mapping \<times> u32) option \<times> xa_instance) option" where
  "xa_access_pa env inst phys_address prot =
     (let pfn = drop_bit (unat (page_shift inst)) phys_address;
          offset = (page_size inst - 1) AND phys_address
      in do { (memory, inst') \<leftarrow> xa_mmap_pfn env inst prot pfn;
              Some (map_option (\<lambda>m. (m, offset)) memory, inst') })"

definition xa_access_ma :: "xa_env \<Rightarrow> xa_instance \<Rightarrow> u32 \<Rightarrow> u32 \<Rightarrow> (mapping \<times> u32) option" where
  "xa_access_ma env inst mach_address prot =
     (let mfn = drop_bit (unat (page_shift inst)) mach_address;
          offset = (page_size inst - 1) AND mach_address
      in map_option (\<lambda>m. (m, offset)) (xa_mmap_mfn env inst prot mfn))"

section \<open>Readers\<close>

definition xa_read_long_mach :: "xa_env \<Rightarrow> xa_instance \<Rightarrow> u32 \<Rightarrow> u32 xa_ret option" where
  "xa_read_long_mach env inst maddr =
     (case xa_access_ma env inst maddr PROT_READ of
        Some (memory, offset) \<Rightarrow>
          do { v \<leftarrow> rd32 (map_bytes memory) (unat offset); Some (XA_SUCCESS v) }
      | None \<Rightarrow> Some XA_FAILURE)"

definition xa_read_long_long_mach :: "xa_env \<Rightarrow> xa_instance \<Rightarrow> u32 \<Rightarrow> u64 xa_ret option" where
  "xa_read_long_long_mach env inst maddr =
     (case xa_access_ma env inst maddr PROT_READ of
        Some (memory, offset) \<Rightarrow>
          do { v \<leftarrow> rd64 (map_bytes memory) (unat offset); Some (XA_SUCCESS v) }
      | None \<Rightarrow> Some XA_FAILURE)"

definition xa_read_long_phys ::
  "xa_env \<Rightarrow> xa_instance \<Rightarrow> u32 \<Rightarrow> (u32 xa_ret \<times> xa_instance) option" where
  "xa_read_long_phys env inst paddr = do {
     (r, inst') \<leftarrow> xa_access_pa env inst paddr PROT_READ;
     (case r of
        Some (memory, offset) \<Rightarrow>
          do { v \<leftarrow> rd32 (map_bytes memory) (unat offset); Some (XA_SUCCESS v, inst') }
      | None \<Rightarrow> Some (XA_FAILURE, inst'))}"

definition xa_read_long_long_phys ::
  "xa_env \<Rightarrow> xa_instance \<Rightarrow> u32 \<Rightarrow> (u64 xa_ret \<times> xa_instance) option" where
  "xa_read_long_long_phys env inst paddr = do {
     (r, inst') \<leftarrow> xa_access_pa env inst paddr PROT_READ;
     (case r of
        Some (memory, offset) \<Rightarrow>
          do { v \<leftarrow> rd64 (map_bytes memory) (unat offset); Some (XA_SUCCESS v, inst') }
      | None \<Rightarrow> Some (XA_FAILURE, inst'))}"

definition xa_get_bit :: "u32 \<Rightarrow> nat \<Rightarrow> bool" where
  "xa_get_bit reg n = (reg AND push_bit n 1 \<noteq> 0)"

end
