(* ===== verification/Xa_Pagetable.thy ===== *)
theory Xa_Pagetable
  imports Xa_Map
begin

text \<open>
  The page-table walks of \<open>xa_memory.c\<close>, from \<open>entry_present\<close> to
  \<open>xa_translate_kv2p\<close>, and their refinement of the IA-32 paging structures.

  The getters declare \<open>value\<close> without initialising it and ignore what
  \<open>xa_read_long_mach\<close> returns, so a table page that cannot be mapped leaves them
  with an indeterminate value: the model is undefined there.
\<close>

section \<open>Entries and indices\<close>

definition entry_present :: "u32 \<Rightarrow> bool" where
  "entry_present entry = xa_get_bit entry 0"

definition page_size_flag :: "u32 \<Rightarrow> bool" where
  "page_size_flag entry = xa_get_bit entry 7"

definition get_pdptb :: "u32 \<Rightarrow> u32" where
  "get_pdptb pdpr = pdpr AND 0xFFFFFFE0"

definition pdpi_index :: "u32 \<Rightarrow> u32" where
  "pdpi_index pdpi = drop_bit 30 pdpi * 8"

text \<open>An out parameter of a reader whose status the caller ignores.\<close>

definition filled :: "'a xa_ret option \<Rightarrow> 'a option" where
  "filled r = do { s \<leftarrow> r; (case s of XA_SUCCESS v \<Rightarrow> Some v | XA_FAILURE \<Rightarrow> None) }"

definition get_pdpi :: "xa_env \<Rightarrow> xa_instance \<Rightarrow> u32 \<Rightarrow> u32 \<Rightarrow> u64 option" where
  "get_pdpi env inst vaddr cr3 =
     (let pdpi_entry = get_pdptb cr3 + pdpi_index vaddr
      in filled (xa_read_long_long_mach env inst pdpi_entry))"

definition pgd_index :: "xa_instance \<Rightarrow> u32 \<Rightarrow> u32" where
  "pgd_index inst address =
     (if \<not> pae inst then (drop_bit 22 address AND 0x3FF) * 4
      else (drop_bit 21 address AND 0x1FF) * 8)"

definition pdba_base_nopae :: "u32 \<Rightarrow> u32" where
  "pdba_base_nopae pdpe = pdpe AND 0xFFFFF000"

definition pdba_base_pae :: "u64 \<Rightarrow> u64" where
  "pdba_base_pae pdpe = pdpe AND 0xFFFFFF000"

definition get_pgd_nopae :: "xa_env \<Rightarrow> xa_instance \<Rightarrow> u32 \<Rightarrow> u32 \<Rightarrow> u32 option" where
  "get_pgd_nopae env inst vaddr pdpe =
     (let pgd_entry = pdba_base_nopae pdpe + pgd_index inst vaddr
      in filled (xa_read_long_mach env inst pgd_entry))"

definition get_pgd_pae :: "xa_env \<Rightarrow> xa_instance \<Rightarrow> u32 \<Rightarrow> u64 \<Rightarrow> u64 option" where
  "get_pgd_pae env inst vaddr pdpe =
     (let pgd_entry = ucast (pdba_base_pae pdpe + ucast (pgd_index inst vaddr))
      in filled (xa_read_long_long_mach env inst pgd_entry))"

definition pte_index :: "xa_instance \<Rightarrow> u32 \<Rightarrow> u32" where
  "pte_index inst address =
     (if \<not> pae inst then (drop_bit 12 address AND 0x3FF) * 4
      else (drop_bit 12 address AND 0x1FF) * 8)"

definition ptba_base_nopae :: "u32 \<Rightarrow> u32" where
  "ptba_base_nopae pde = pde AND 0xFFFFF000"

definition ptba_base_pae :: "u64 \<Rightarrow> u64" where
  "ptba_base_pae pde = pde AND 0xFFFFFF000"

definition get_pte_nopae :: "xa_env \<Rightarrow> xa_instance \<Rightarrow> u32 \<Rightarrow> u32 \<Rightarrow> u32 option" where
  "get_pte_nopae env inst vaddr pgd =
     (let pte_entry = ptba_base_nopae pgd + pte_index inst vaddr
      in filled (xa_read_long_mach env inst pte_entry))"

definition get_pte_pae :: "xa_env \<Rightarrow> xa_instance \<Rightarrow> u32 \<Rightarrow> u64 \<Rightarrow> u64 option" where
  "get_pte_pae env inst vaddr pgd =
     (let pte_entry = ucast (ptba_base_pae pgd + ucast (pte_index inst vaddr))
      in filled (xa_read_long_long_mach env inst pte_entry))"

definition pte_pfn_nopae :: "u32 \<Rightarrow> u32" where
  "pte_pfn_nopae pte = pte AND 0xFFFFF000"

definition pte_pfn_pae :: "u64 \<Rightarrow> u64" where
  "pte_pfn_pae pte = pte AND 0xFFFFFF000"

definition get_paddr_nopae :: "u32 \<Rightarrow> u32 \<Rightarrow> u32" where
  "get_paddr_nopae vaddr pte = pte_pfn_nopae pte OR (vaddr AND 0xFFF)"

definition get_paddr_pae :: "u32 \<Rightarrow> u64 \<Rightarrow> u64" where
  "get_paddr_pae vaddr pte = pte_pfn_pae pte OR ucast (vaddr AND 0xFFF)"

definition get_large_paddr :: "xa_instance \<Rightarrow> u32 \<Rightarrow> u32 \<Rightarrow> u32" where
  "get_large_paddr inst vaddr pgd_entry =
     (if \<not> pae inst then (pgd_entry AND 0xFFC00000) OR (vaddr AND 0x3FFFFF)
      else (pgd_entry AND 0xFFE00000) OR (vaddr AND 0x1FFFFF))"

section \<open>Non-present entries of a Windows guest\<close>

definition get_transition_bit :: "u32 \<Rightarrow> bool" where
  "get_transition_bit entry = xa_get_bit entry 11"

definition get_prototype_bit :: "u32 \<Rightarrow> bool" where
  "get_prototype_bit entry = xa_get_bit entry 10"

text \<open>What \<open>buffalo_nopae\<close> prints, \<open>None\<close> for nothing. Its guard is
  \<open>!instance->os_type == XA_OS_WINDOWS\<close>, which C reads as
  \<open>(!instance->os_type) == XA_OS_WINDOWS\<close>.\<close>

datatype buffalo_msg = Page_file u32 u32 | Demand_zero | Transition | Prototype | Zero_entry | Unknown

definition c_not :: "u32 \<Rightarrow> u32" where
  "c_not x = (if x = 0 then 1 else 0)"

definition buffalo_nopae :: "xa_instance \<Rightarrow> u32 \<Rightarrow> bool \<Rightarrow> buffalo_msg option" where
  "buffalo_nopae inst entry pde =
     (if c_not (os_type inst) = XA_OS_WINDOWS then None
      else if \<not> get_transition_bit entry \<and> \<not> get_prototype_bit entry then
        (let pfnum = drop_bit 1 entry AND 0xF; pfframe = entry AND 0xFFFFF000
         in if pfnum \<noteq> 0 \<and> pfframe \<noteq> 0 then Some (Page_file pfnum pfframe)
            else if pfnum = 0 \<and> pfframe = 0 then Some Demand_zero
            else None)
      else if get_transition_bit entry \<and> \<not> get_prototype_bit entry then Some Transition
      else if \<not> pde \<and> get_prototype_bit entry then Some Prototype
      else if entry = 0 then Some Zero_entry
      else Some Unknown)"

section \<open>Translation\<close>

text \<open>The messages of \<open>buffalo_nopae\<close> go to \<open>xa_dbprint\<close>, which
  prints nothing unless the library is built with \<open>XA_DEBUG\<close>; the walk itself does not
  depend on them.\<close>

definition v2p_nopae :: "xa_env \<Rightarrow> xa_instance \<Rightarrow> u32 \<Rightarrow> u32 \<Rightarrow> u32 option" where
  "v2p_nopae env inst cr3 vaddr = do {
     pgd \<leftarrow> get_pgd_nopae env inst vaddr cr3;
     if entry_present pgd then
       (if page_size_flag pgd then Some (get_large_paddr inst vaddr pgd)
        else do {
          pte \<leftarrow> get_pte_nopae env inst vaddr pgd;
          if entry_present pte then Some (get_paddr_nopae vaddr pte) else Some 0 })
     else Some 0 }"

definition v2p_pae :: "xa_env \<Rightarrow> xa_instance \<Rightarrow> u32 \<Rightarrow> u32 \<Rightarrow> u32 option" where
  "v2p_pae env inst cr3 vaddr = do {
     pdpe \<leftarrow> get_pdpi env inst vaddr cr3;
     if \<not> entry_present (ucast pdpe) then Some 0
     else do {
       pgd \<leftarrow> get_pgd_pae env inst vaddr pdpe;
       if entry_present (ucast pgd) then
         (if page_size_flag (ucast pgd) then Some (get_large_paddr inst vaddr (ucast pgd))
          else do {
            pte \<leftarrow> get_pte_pae env inst vaddr pgd;
            if entry_present (ucast pte) then Some (ucast (get_paddr_pae vaddr pte))
            else Some 0 })
       else Some 0 }}"

definition xa_pagetable_lookup :: "xa_env \<Rightarrow> xa_instance \<Rightarrow> u32 \<Rightarrow> u32 \<Rightarrow> u32 option" where
  "xa_pagetable_lookup env inst cr3 vaddr =
     (if pae inst then v2p_pae env inst cr3 vaddr else v2p_nopae env inst cr3 vaddr)"

text \<open>The status of \<open>xa_current_cr3\<close> and the register it stores, \<open>XA_FAILURE\<close>
  leaving the caller's variable alone. In a mode that is neither it succeeds and stores
  nothing, which is the second component.\<close>

definition xa_current_cr3 :: "xa_env \<Rightarrow> xa_instance \<Rightarrow> u32 \<Rightarrow> unit xa_ret \<times> u32" where
  "xa_current_cr3 env inst cr3 =
     (if mode inst = XA_MODE_XEN then
        (case vcpu_ctrlreg env (domain_id (m_xen inst)) 3 of
           None \<Rightarrow> (XA_FAILURE, cr3)
         | Some c \<Rightarrow> (XA_SUCCESS (), c AND 0xFFFFF000))
      else if mode inst = XA_MODE_FILE then (XA_SUCCESS (), kpgd inst - page_offset inst)
      else (XA_SUCCESS (), cr3))"

definition xa_translate_kv2p :: "xa_env \<Rightarrow> xa_instance \<Rightarrow> u32 \<Rightarrow> u32 option" where
  "xa_translate_kv2p env inst vaddr =
     xa_pagetable_lookup env inst (snd (xa_current_cr3 env inst 0)) vaddr"

section \<open>Words of the walk as naturals\<close>

lemma xa_get_bit_iff: "xa_get_bit reg n \<longleftrightarrow> bit reg n"
  by (simp add: xa_get_bit_def push_bit_of_1 and_exp_eq_0_iff_not_bit)

lemma entry_present_iff: "entry_present e \<longleftrightarrow> odd (unat e)"
  by (simp add: entry_present_def xa_get_bit_iff bit_unat_odd)

lemma page_size_flag_iff: "page_size_flag e \<longleftrightarrow> odd (unat e div 128)"
  by (simp add: page_size_flag_def xa_get_bit_iff bit_unat_odd)

lemma frame_plus_bound:
  assumes "x < (4294967296::nat)" and "y < 4096"
  shows "x div 4096 * 4096 + y < 2 ^ 32"
proof -
  have "x div 4096 < 1048576" using assms(1) by (simp add: less_mult_imp_div_less)
  with assms(2) show ?thesis by simp
qed

lemma unat_pgd_addr_nopae:
  assumes "\<not> pae inst"
  shows "unat (pdba_base_nopae c + pgd_index inst v)
     = unat c div 4096 * 4096 + 4 * (unat v div 4194304)"
proof -
  have i: "unat (pgd_index inst v) = 4 * (unat v div 4194304)"
    using assms unat_shifted_index(1) [of 22 v] unat_bound32 [of v] by (simp add: pgd_index_def)
  have b: "unat (pdba_base_nopae c) = unat c div 4096 * 4096"
    by (simp add: pdba_base_nopae_def unat_frame)
  have "unat c div 4096 * 4096 + 4 * (unat v div 4194304) < 2 ^ 32"
    by (rule frame_plus_bound) (simp_all add: less_mult_imp_div_less)
  then show ?thesis by (subst unat_plus_small) (simp_all add: i b)
qed

lemma unat_pte_addr_nopae:
  assumes "\<not> pae inst"
  shows "unat (ptba_base_nopae c + pte_index inst v)
     = unat c div 4096 * 4096 + 4 * (unat v div 4096 mod 1024)"
proof -
  have i: "unat (pte_index inst v) = 4 * (unat v div 4096 mod 1024)"
    using assms unat_shifted_index(1) [of 12 v] by (simp add: pte_index_def)
  have b: "unat (ptba_base_nopae c) = unat c div 4096 * 4096"
    by (simp add: ptba_base_nopae_def unat_frame)
  have "unat c div 4096 * 4096 + 4 * (unat v div 4096 mod 1024) < 2 ^ 32"
    by (rule frame_plus_bound) simp_all
  then show ?thesis by (subst unat_plus_small) (simp_all add: i b)
qed

definition mach32 :: "xa_env \<Rightarrow> xa_instance \<Rightarrow> nat \<Rightarrow> nat option" where
  "mach32 env inst a = map_option unat (filled (xa_read_long_mach env inst (of_nat a)))"

definition ia32_walk :: "(nat \<Rightarrow> nat option) \<Rightarrow> nat \<Rightarrow> nat \<Rightarrow> nat option option" where
  "ia32_walk mem cr3 v = do {
     pde \<leftarrow> mem (cr3 div 4096 * 4096 + 4 * (v div 4194304));
     if even pde then Some None
     else if odd (pde div 128) then Some (Some (pde div 4194304 * 4194304 + v mod 4194304))
     else do {
       pte \<leftarrow> mem (pde div 4096 * 4096 + 4 * (v div 4096 mod 1024));
       Some (if even pte then None else Some (pte div 4096 * 4096 + v mod 4096)) }}"

lemma get_pgd_nopae_mach:
  assumes "\<not> pae inst"
  shows "mach32 env inst (unat c div 4096 * 4096 + 4 * (unat v div 4194304))
    = map_option unat (get_pgd_nopae env inst v c)"
  unfolding unat_pgd_addr_nopae [OF assms, symmetric] mach32_def get_pgd_nopae_def by simp

lemma get_pte_nopae_mach:
  assumes "\<not> pae inst"
  shows "mach32 env inst (unat c div 4096 * 4096 + 4 * (unat v div 4096 mod 1024))
    = map_option unat (get_pte_nopae env inst v c)"
  unfolding unat_pte_addr_nopae [OF assms, symmetric] mach32_def get_pte_nopae_def by simp

lemma unat_get_paddr_nopae:
  "unat (get_paddr_nopae v pte) = unat pte div 4096 * 4096 + unat v mod 4096"
  unfolding get_paddr_nopae_def pte_pfn_nopae_def high_masks low_masks unat_or_masks by simp

lemma unat_get_large_paddr_nopae:
  "\<not> pae inst \<Longrightarrow>
    unat (get_large_paddr inst v e) = unat e div 4194304 * 4194304 + unat v mod 4194304"
  unfolding get_large_paddr_def high_masks low_masks by (simp add: unat_or_masks)

lemma v2p_nopae_walk:
  assumes "\<not> pae inst"
  shows "map_option unat (v2p_nopae env inst cr3 v)
    = map_option (case_option 0 id) (ia32_walk (mach32 env inst) (unat cr3) (unat v))"
  using assms
  by (auto simp: v2p_nopae_def ia32_walk_def get_pgd_nopae_mach get_pte_nopae_mach
      entry_present_iff page_size_flag_iff unat_get_paddr_nopae unat_get_large_paddr_nopae
      split: bind_splits)

lemma unat_ucast_down: "unat (ucast (x :: u64) :: u32) = unat x mod 4294967296"
  by (simp add: unsigned_ucast_eq take_bit_eq_mod)

lemma unat_ucast_up: "unat (ucast (x :: u32) :: u64) = unat x"
proof -
  have "unat x < 2 ^ 64" by (rule less_trans [OF unat_bound32]) simp
  then show ?thesis by (simp add: unsigned_ucast_eq take_bit_nat_eq_self)
qed

lemma pae_mask: "(0xFFFFFF000 :: u64) = mask 36 AND NOT (mask 12)"
  by (simp add: mask_eq_exp_minus_1)

lemma unat_frame_pae: "unat ((e :: u64) AND 0xFFFFFF000) = unat e div 4096 mod 16777216 * 4096"
proof -
  have "unat (e AND 0xFFFFFF000) = unat e mod 2 ^ 36 div 2 ^ 12 * 2 ^ 12"
    unfolding pae_mask by (simp add: unat_and_not_mask unat_and_mask flip: and.assoc)
  also have "\<dots> = unat e div 4096 mod 16777216 * 4096"
    by (simp add: mod_mult2_eq [of "unat e" 4096 16777216, simplified])
  finally show ?thesis .
qed

lemma frame_mod_32:
  assumes "y < 4096"
  shows "(x div 4096 mod 16777216 * 4096 + y) mod 4294967296 = x div 4096 mod 1048576 * 4096 + (y :: nat)"
proof -
  let ?f = "x div 4096 mod 16777216"
  have "(?f * 4096 + y) mod (4096 * 1048576) = 4096 * ((?f * 4096 + y) div 4096 mod 1048576) + (?f * 4096 + y) mod 4096"
    by (rule mod_mult2_eq)
  also have "(?f * 4096 + y) div 4096 = ?f" using assms by simp
  also have "(?f * 4096 + y) mod 4096 = y" using assms by simp
  also have "?f mod 1048576 = x div 4096 mod 1048576" by (simp add: mod_mod_cancel)
  finally show ?thesis by simp
qed

lemma unat_pdpi_addr:
  "unat (get_pdptb c + pdpi_index v) = unat c div 32 * 32 + 8 * (unat v div 1073741824)"
proof -
  have v: "unat v div 1073741824 < 4" by (simp add: less_mult_imp_div_less)
  have i: "unat (pdpi_index v) = 8 * (unat v div 1073741824)"
    unfolding pdpi_index_def using v by (subst unat_mult_small) (simp_all add: unat_drop_bit)
  have b: "unat (get_pdptb c) = unat c div 32 * 32"
    by (simp add: get_pdptb_def high_masks unat_and_not_mask)
  have "unat c div 32 < 134217728" by (simp add: less_mult_imp_div_less)
  then show ?thesis using v by (subst unat_plus_small) (simp_all add: i b)
qed

lemma unat_pae_entry_addr:
  assumes "unat i < 4096"
  shows "unat (ucast ((e AND 0xFFFFFF000) + ucast i :: u64) :: u32)
    = unat e div 4096 mod 1048576 * 4096 + unat (i :: u32)"
proof -
  have f: "unat e div 4096 mod 16777216 < 16777216" by simp
  have "unat ((e AND 0xFFFFFF000) + ucast i :: u64) = unat e div 4096 mod 16777216 * 4096 + unat i"
    using assms f by (subst unat_plus_small) (simp_all add: unat_frame_pae unat_ucast_up)
  then show ?thesis by (simp only: unat_ucast_down frame_mod_32 [OF assms])
qed

lemma unat_pgd_addr_pae:
  assumes "pae inst"
  shows "unat (ucast ((e AND 0xFFFFFF000) + ucast (pgd_index inst v) :: u64) :: u32)
    = unat e div 4096 mod 1048576 * 4096 + 8 * (unat v div 2097152 mod 512)"
proof -
  have i: "unat (pgd_index inst v) = 8 * (unat v div 2097152 mod 512)"
    using assms unat_shifted_index(2) [of 21 v] by (simp add: pgd_index_def)
  have "unat v div 2097152 mod 512 < 512" by simp
  then show ?thesis by (subst unat_pae_entry_addr) (simp_all add: i)
qed

lemma unat_pte_addr_pae:
  assumes "pae inst"
  shows "unat (ucast ((e AND 0xFFFFFF000) + ucast (pte_index inst v) :: u64) :: u32)
    = unat e div 4096 mod 1048576 * 4096 + 8 * (unat v div 4096 mod 512)"
proof -
  have i: "unat (pte_index inst v) = 8 * (unat v div 4096 mod 512)"
    using assms unat_shifted_index(2) [of 12 v] by (simp add: pte_index_def)
  have "unat v div 4096 mod 512 < 512" by simp
  then show ?thesis by (subst unat_pae_entry_addr) (simp_all add: i)
qed

definition mach64 :: "xa_env \<Rightarrow> xa_instance \<Rightarrow> nat \<Rightarrow> nat option" where
  "mach64 env inst a = map_option unat (filled (xa_read_long_long_mach env inst (of_nat a)))"

definition ia32_walk_pae :: "nat \<Rightarrow> (nat \<Rightarrow> nat option) \<Rightarrow> nat \<Rightarrow> nat \<Rightarrow> nat option option" where
  "ia32_walk_pae w mem cr3 v = do {
     pdpte \<leftarrow> mem (cr3 div 32 * 32 + 8 * (v div 1073741824));
     if even pdpte then Some None
     else do {
       pde \<leftarrow> mem (pdpte div 4096 mod 2 ^ (w - 12) * 4096 + 8 * (v div 2097152 mod 512));
       if even pde then Some None
       else if odd (pde div 128) then
         Some (Some (pde div 2097152 mod 2 ^ (w - 21) * 2097152 + v mod 2097152))
       else do {
         pte \<leftarrow> mem (pde div 4096 mod 2 ^ (w - 12) * 4096 + 8 * (v div 4096 mod 512));
         Some (if even pte then None
           else Some (pte div 4096 mod 2 ^ (w - 12) * 4096 + v mod 4096)) }}}"

lemma get_pdpi_mach:
  "mach64 env inst (unat c div 32 * 32 + 8 * (unat v div 1073741824))
    = map_option unat (get_pdpi env inst v c)"
  unfolding unat_pdpi_addr [symmetric] mach64_def get_pdpi_def by simp

lemma get_pgd_pae_mach:
  assumes "pae inst"
  shows "mach64 env inst (unat e div 4096 mod 1048576 * 4096 + 8 * (unat v div 2097152 mod 512))
    = map_option unat (get_pgd_pae env inst v e)"
  unfolding unat_pgd_addr_pae [OF assms, symmetric] mach64_def get_pgd_pae_def pdba_base_pae_def Let_def
  by simp

lemma get_pte_pae_mach:
  assumes "pae inst"
  shows "mach64 env inst (unat e div 4096 mod 1048576 * 4096 + 8 * (unat v div 4096 mod 512))
    = map_option unat (get_pte_pae env inst v e)"
  unfolding unat_pte_addr_pae [OF assms, symmetric] mach64_def get_pte_pae_def ptba_base_pae_def Let_def
  by simp

lemma entry_present_ucast: "entry_present (ucast (e :: u64)) \<longleftrightarrow> odd (unat e)"
  unfolding entry_present_def xa_get_bit_iff by (subst bit_ucast_iff) (simp add: bit_unat_odd)

lemma page_size_flag_ucast: "page_size_flag (ucast (e :: u64)) \<longleftrightarrow> odd (unat e div 128)"
  unfolding page_size_flag_def xa_get_bit_iff by (subst bit_ucast_iff) (simp add: bit_unat_odd)

lemma unat_get_paddr_pae:
  "unat (ucast (get_paddr_pae v pte) :: u32) = unat pte div 4096 mod 1048576 * 4096 + unat v mod 4096"
proof -
  have "unat (get_paddr_pae v pte) = unat pte div 4096 mod 16777216 * 4096 + unat v mod 4096"
  proof -
    have d: "(pte AND 0xFFFFFF000) AND ucast (v AND 0xFFF) = 0"
      unfolding low_masks pae_mask by (rule bit_eqI) (auto simp: bit_simps)
    show ?thesis unfolding get_paddr_pae_def pte_pfn_pae_def
      unfolding unat_or_disjoint [OF d] unfolding unat_frame_pae unat_ucast_up low_masks unat_and_mask
      by simp
  qed
  then show ?thesis by (simp add: unat_ucast_down frame_mod_32)
qed

lemma unat_get_large_paddr_pae:
  assumes "pae inst"
  shows "unat (get_large_paddr inst v (ucast (e :: u64)))
    = unat e div 2097152 mod 2048 * 2097152 + unat v mod 2097152"
proof -
  have "unat e mod 4294967296 div 2097152 = unat e div 2097152 mod 2048"
    using mod_mult2_eq [of "unat e" 2097152 2048] by simp
  then show ?thesis using assms
    unfolding get_large_paddr_def high_masks low_masks
    by (simp add: unat_or_masks unat_ucast_down)
qed

lemma v2p_pae_walk:
  assumes "pae inst"
  shows "map_option unat (v2p_pae env inst cr3 v)
    = map_option (case_option 0 id) (ia32_walk_pae 32 (mach64 env inst) (unat cr3) (unat v))"
  using assms
  by (auto simp: v2p_pae_def ia32_walk_pae_def get_pdpi_mach get_pgd_pae_mach get_pte_pae_mach
      entry_present_ucast page_size_flag_ucast unat_get_paddr_pae unat_get_large_paddr_pae
      split: bind_splits)

text \<open>A walk depends on the address through its page number; the offset is added at the end.\<close>

definition frame_walk :: "(nat \<Rightarrow> nat option) \<Rightarrow> nat \<Rightarrow> nat \<Rightarrow> nat option option" where
  "frame_walk mem c p = do {
     pde \<leftarrow> mem (c div 4096 * 4096 + 4 * (p div 1024));
     if even pde then Some None
     else if odd (pde div 128) then Some (Some (pde div 4194304 * 1024 + p mod 1024))
     else do {
       pte \<leftarrow> mem (pde div 4096 * 4096 + 4 * (p mod 1024));
       Some (if even pte then None else Some (pte div 4096)) }}"

definition frame_walk_pae :: "nat \<Rightarrow> (nat \<Rightarrow> nat option) \<Rightarrow> nat \<Rightarrow> nat \<Rightarrow> nat option option" where
  "frame_walk_pae w mem c p = do {
     pdpte \<leftarrow> mem (c div 32 * 32 + 8 * (p div 262144));
     if even pdpte then Some None
     else do {
       pde \<leftarrow> mem (pdpte div 4096 mod 2 ^ (w - 12) * 4096 + 8 * (p div 512 mod 512));
       if even pde then Some None
       else if odd (pde div 128) then
         Some (Some (pde div 2097152 mod 2 ^ (w - 21) * 512 + p mod 512))
       else do {
         pte \<leftarrow> mem (pde div 4096 mod 2 ^ (w - 12) * 4096 + 8 * (p mod 512));
         Some (if even pte then None else Some (pte div 4096 mod 2 ^ (w - 12))) }}}"

definition in_frame :: "nat \<Rightarrow> nat option option \<Rightarrow> nat option option" where
  "in_frame v r = map_option (map_option (\<lambda>f. f * 4096 + v mod 4096)) r"

lemma in_frame_simps [simp]:
  "in_frame v None = None" "in_frame v (Some None) = Some None"
  "in_frame v (Some (Some f)) = Some (Some (f * 4096 + v mod 4096))"
  "in_frame v (Option.bind x g) = Option.bind x (\<lambda>y. in_frame v (g y))"
  "in_frame v (if b then r else s) = (if b then in_frame v r else in_frame v s)"
  by (simp_all add: in_frame_def map_option_bind comp_def)

lemma superpage_split:
  fixes f v k :: nat
  shows "f * (4096 * k) + v mod (4096 * k) = (f * k + v div 4096 mod k) * 4096 + v mod 4096"
  by (subst mod_mult2_eq) (simp add: algebra_simps)

lemma ia32_walk_frame: "ia32_walk mem c v = in_frame v (frame_walk mem c (v div 4096))"
proof -
  have i: "v div 4194304 = v div 4096 div 1024" using div_mult2_eq [of v 4096 1024] by simp
  have s: "f * 4194304 + v mod 4194304 = (f * 1024 + v div 4096 mod 1024) * 4096 + v mod 4096" for f
    using superpage_split [of f 1024 v] by simp
  show ?thesis unfolding ia32_walk_def frame_walk_def s unfolding i
    by (simp only: in_frame_simps if_distrib [of Some] if_distrib [of "in_frame v"])
qed

lemma ia32_walk_pae_frame: "ia32_walk_pae w mem c v = in_frame v (frame_walk_pae w mem c (v div 4096))"
proof -
  have i: "v div 2097152 = v div 4096 div 512" using div_mult2_eq [of v 4096 512] by simp
  have j: "v div 1073741824 = v div 4096 div 262144" using div_mult2_eq [of v 4096 262144] by simp
  have s: "f * 2097152 + v mod 2097152 = (f * 512 + v div 4096 mod 512) * 4096 + v mod 4096" for f
    using superpage_split [of f 512 v] by simp
  show ?thesis unfolding ia32_walk_pae_def frame_walk_pae_def s unfolding i j
    by (simp only: in_frame_simps if_distrib [of Some] if_distrib [of "in_frame v"])
qed

lemma in_frame_same_page:
  assumes "in_frame v r = Some (Some a)"
  shows "in_frame u r = Some (Some (a div 4096 * 4096 + u mod 4096))" "a mod 4096 = v mod 4096"
  using assms by (auto simp: in_frame_def)

lemma ia32_walk_same_page:
  assumes "ia32_walk mem c v = Some (Some a)" and "v div 4096 = u div 4096"
  shows "ia32_walk mem c u = Some (Some (a div 4096 * 4096 + u mod 4096)) \<and> a mod 4096 = v mod 4096"
  using assms in_frame_same_page unfolding ia32_walk_frame by metis

lemma ia32_walk_pae_same_page:
  assumes "ia32_walk_pae b mem c v = Some (Some a)" and "v div 4096 = u div 4096"
  shows "ia32_walk_pae b mem c u = Some (Some (a div 4096 * 4096 + u mod 4096)) \<and> a mod 4096 = v mod 4096"
  using assms in_frame_same_page unfolding ia32_walk_pae_frame by metis

lemma xa_pagetable_lookup_walk:
  "map_option unat (xa_pagetable_lookup env inst c v) = map_option (case_option 0 id)
    (if pae inst then ia32_walk_pae 32 (mach64 env inst) (unat c) (unat v)
     else ia32_walk (mach32 env inst) (unat c) (unat v))"
  by (simp add: xa_pagetable_lookup_def v2p_pae_walk v2p_nopae_walk)

lemma lookup_walk_Some:
  assumes "xa_pagetable_lookup env inst c v = Some p" "p \<noteq> 0"
  shows "(if pae inst then ia32_walk_pae 32 (mach64 env inst) (unat c) (unat v)
     else ia32_walk (mach32 env inst) (unat c) (unat v)) = Some (Some (unat p))"
proof -
  let ?w = "if pae inst then ia32_walk_pae 32 (mach64 env inst) (unat c) (unat v)
     else ia32_walk (mach32 env inst) (unat c) (unat v)"
  have "map_option (case_option 0 id) ?w = Some (unat p)"
    using xa_pagetable_lookup_walk [of env inst c v] assms(1) by (simp only: option.map)
  with assms(2) show ?thesis by (cases ?w) (auto simp: unat_eq_0 split: option.splits)
qed

lemma lookup_same_page:
  assumes "xa_pagetable_lookup env inst c v = Some p" "p \<noteq> 0"
    and "v AND 0xFFFFF000 = u AND 0xFFFFF000"
  shows "xa_pagetable_lookup env inst c u = Some ((p AND 0xFFFFF000) OR (u AND 0xFFF))"
    and "p AND 0xFFF = v AND 0xFFF"
proof -
  have "unat (v AND 0xFFFFF000) = unat (u AND 0xFFFFF000)" using assms(3) by simp
  then have pg: "unat v div 4096 = unat u div 4096" by (simp add: unat_frame)
  note w = lookup_walk_Some [OF assms(1,2)]
  have "map_option unat (xa_pagetable_lookup env inst c u)
    = Some (unat p div 4096 * 4096 + unat u mod 4096)"
    unfolding xa_pagetable_lookup_walk
    using w ia32_walk_same_page [OF _ pg] ia32_walk_pae_same_page [OF _ pg] by (auto split: if_splits)
  also have "\<dots> = Some (unat ((p AND 0xFFFFF000) OR (u AND 0xFFF)))"
    unfolding high_masks low_masks unat_or_masks by simp
  finally show "xa_pagetable_lookup env inst c u = Some ((p AND 0xFFFFF000) OR (u AND 0xFFF))"
    by (auto simp: word_unat_eq_iff)
  have "unat p mod 4096 = unat v mod 4096"
    using w ia32_walk_same_page [OF _ pg] ia32_walk_pae_same_page [OF _ pg] by (auto split: if_splits)
  then show "p AND 0xFFF = v AND 0xFFF"
    unfolding word_unat_eq_iff low_masks unat_and_mask by simp
qed

definition std_pages :: "xa_instance \<Rightarrow> bool" where
  "std_pages inst \<longleftrightarrow> page_shift inst = 12 \<and> page_size inst = 4096"

definition full_pages :: "xa_env \<Rightarrow> xa_instance \<Rightarrow> bool" where
  "full_pages env inst \<longleftrightarrow>
     (\<forall>prot f m. xa_map_page env inst prot f = Some m \<longrightarrow> length (map_bytes m) = 4096)"

lemma page_offset_unat: "std_pages inst \<Longrightarrow> unat ((page_size inst - 1) AND a) = unat a mod 4096"
proof -
  assume "std_pages inst"
  then have "page_size inst - 1 = mask 12" by (simp add: std_pages_def mask_eq_exp_minus_1)
  then show ?thesis by (simp add: and.commute unat_and_mask)
qed

lemma xa_read_long_mach_defined:
  assumes "std_pages inst" "full_pages env inst" "unat a mod 4096 + 4 \<le> 4096"
  shows "xa_read_long_mach env inst a \<noteq> None"
  using assms
  by (auto simp: xa_read_long_mach_def xa_access_ma_def xa_mmap_mfn_def full_pages_def
      page_offset_unat rd_def split: option.splits)

lemma xa_read_long_long_mach_defined:
  assumes "std_pages inst" "full_pages env inst" "unat a mod 4096 + 8 \<le> 4096"
  shows "xa_read_long_long_mach env inst a \<noteq> None"
  using assms
  by (auto simp: xa_read_long_long_mach_def xa_access_ma_def xa_mmap_mfn_def full_pages_def
      page_offset_unat rd_def split: option.splits)

definition maps_all :: "xa_env \<Rightarrow> xa_instance \<Rightarrow> bool" where
  "maps_all env inst \<longleftrightarrow> (\<forall>f. xa_map_page env inst PROT_READ f \<noteq> None)"

lemma filled_long_mach:
  assumes "std_pages inst" "full_pages env inst" "maps_all env inst" "unat a mod 4096 + 4 \<le> 4096"
  shows "filled (xa_read_long_mach env inst a) \<noteq> None"
  using xa_read_long_mach_defined [OF assms(1,2,4)] assms(3)
  by (auto simp: filled_def xa_read_long_mach_def xa_access_ma_def xa_mmap_mfn_def maps_all_def
      split: option.splits bind_splits)

lemma filled_long_long_mach:
  assumes "std_pages inst" "full_pages env inst" "maps_all env inst" "unat a mod 4096 + 8 \<le> 4096"
  shows "filled (xa_read_long_long_mach env inst a) \<noteq> None"
  using xa_read_long_long_mach_defined [OF assms(1,2,4)] assms(3)
  by (auto simp: filled_def xa_read_long_long_mach_def xa_access_ma_def xa_mmap_mfn_def maps_all_def
      split: option.splits bind_splits)

lemma table_index_fits:
  "(x div 4096 * 4096 + 4 * (y mod 1024)) mod 4096 + 4 \<le> (4096::nat)"
  "(x * 4096 + 8 * (y mod 512)) mod 4096 + 8 \<le> (4096::nat)"
  "y < 4 \<Longrightarrow> (x div 32 * 32 + 8 * y) mod 4096 + 8 \<le> (4096::nat)"
proof -
  show "(x div 4096 * 4096 + 4 * (y mod 1024)) mod 4096 + 4 \<le> (4096::nat)"
  proof -
    have "y mod 1024 < 1024" by simp
    then show ?thesis by (simp add: mod_add_left_eq)
  qed
  show "(x * 4096 + 8 * (y mod 512)) mod 4096 + 8 \<le> (4096::nat)"
  proof -
    have "y mod 512 < 512" by simp
    then show ?thesis by (simp)
  qed
  assume "y < 4"
  have "x div 32 * 32 + 8 * y = 8 * (x div 32 * 4 + y)" by simp
  then have "(x div 32 * 32 + 8 * y) mod (8 * 512) = 8 * ((x div 32 * 4 + y) mod 512)"
    by (simp only: mult_mod_right)
  moreover have "(x div 32 * 4 + y) mod 512 < 512" by simp
  ultimately show "(x div 32 * 32 + 8 * y) mod 4096 + 8 \<le> (4096::nat)" by simp
qed

lemma get_nopae_defined:
  assumes "std_pages inst" "full_pages env inst" "maps_all env inst" "\<not> pae inst"
  shows "get_pgd_nopae env inst v c \<noteq> None" "get_pte_nopae env inst v c \<noteq> None"
proof -
  note d = filled_long_mach [OF assms(1-3)]
  have v: "unat v div 4194304 mod 1024 = unat v div 4194304"
    by (simp add: less_mult_imp_div_less)
  show "get_pgd_nopae env inst v c \<noteq> None"
    unfolding get_pgd_nopae_def Let_def
    using table_index_fits(1) [of "unat c" "unat v div 4194304"]
    by (intro d) (simp only: unat_pgd_addr_nopae [OF assms(4)] v)
  show "get_pte_nopae env inst v c \<noteq> None"
    unfolding get_pte_nopae_def Let_def
    using table_index_fits(1) [of "unat c" "unat v div 4096"]
    by (intro d) (simp only: unat_pte_addr_nopae [OF assms(4)])
qed

lemma get_pae_defined:
  assumes "std_pages inst" "full_pages env inst" "maps_all env inst" "pae inst"
  shows "get_pdpi env inst v c \<noteq> None" "get_pgd_pae env inst v e \<noteq> None"
    "get_pte_pae env inst v e \<noteq> None"
proof -
  note d = filled_long_long_mach [OF assms(1-3)]
  have v: "unat v div 1073741824 < 4" by (simp add: less_mult_imp_div_less)
  show "get_pdpi env inst v c \<noteq> None"
    unfolding get_pdpi_def Let_def
    using table_index_fits(3) [OF v, of "unat c"] by (intro d) (simp only: unat_pdpi_addr)
  show "get_pgd_pae env inst v e \<noteq> None"
    unfolding get_pgd_pae_def Let_def pdba_base_pae_def
    using table_index_fits(2) [of "unat e div 4096 mod 1048576" "unat v div 2097152"]
    by (intro d) (simp only: unat_pgd_addr_pae [OF assms(4)])
  show "get_pte_pae env inst v e \<noteq> None"
    unfolding get_pte_pae_def Let_def ptba_base_pae_def
    using table_index_fits(2) [of "unat e div 4096 mod 1048576" "unat v div 4096"]
    by (intro d) (simp only: unat_pte_addr_pae [OF assms(4)])
qed

lemma lookup_defined:
  assumes "std_pages inst" "full_pages env inst" "maps_all env inst"
  shows "xa_pagetable_lookup env inst c v \<noteq> None"
  by (cases "pae inst")
    (simp_all del: not_None_eq add: xa_pagetable_lookup_def v2p_nopae_def v2p_pae_def
      get_nopae_defined [OF assms] get_pae_defined [OF assms] split: bind_split)

definition low_entries :: "(nat \<Rightarrow> nat option) \<Rightarrow> bool" where
  "low_entries mem \<longleftrightarrow> (\<forall>a e. mem a = Some e \<longrightarrow> odd e \<longrightarrow> e div 4294967296 mod 16 = 0)"

lemma low_entry_frames:
  assumes "e div 4294967296 mod 16 = (0::nat)"
  shows "e div 4096 mod 16777216 = e div 4096 mod 1048576"
    and "e div 2097152 mod 32768 = e div 2097152 mod 2048"
  using assms mod_mult2_eq [of "e div 4096" 1048576 16] mod_mult2_eq [of "e div 2097152" 2048 16]
  by (simp_all add: div_mult2_eq [symmetric])

lemma ia32_walk_pae_36:
  "low_entries mem \<Longrightarrow> ia32_walk_pae 36 mem c v = ia32_walk_pae 32 mem c v"
  by (auto simp: ia32_walk_pae_def low_entries_def low_entry_frames intro!: Option.bind_cong)

section \<open>A flat guest\<close>

text \<open>A guest whose first page is its page directory, with one 4 MB page that maps the lowest 4 MB
  to themselves; \<open>pg\<close> gives the other pages.\<close>

definition flat_page :: "u8 list" where
  "flat_page = 0x81 # replicate 4095 0"

definition flat_env :: "(u32 \<Rightarrow> u8 list) \<Rightarrow> xa_env" where
  "flat_env pg = frames_env (\<lambda>f. Some (if f = 0 then flat_page else pg f))"

lemma le_word_replicate_0 [simp]: "le_word (replicate n 0) = 0"
  by (induction n) simp_all

lemma flat_page_rd:
  "rd n flat_page off = (if off + n \<le> 4096 then Some (if off = 0 \<and> n \<noteq> 0 then 0x81 else 0) else None)"
proof (cases off)
  case 0
  then show ?thesis by (cases n) (simp_all add: rd_def flat_page_def)
next
  case (Suc k)
  then show ?thesis by (simp add: rd_def flat_page_def)
qed

lemma zero_page_rd: "rd n (replicate 4096 0) off = (if off + n \<le> 4096 then Some 0 else None)"
  by (simp add: rd_def)

text \<open>The instances that read it: a live domain with pages of 4096 bytes.\<close>

definition plain_inst :: "xa_instance \<Rightarrow> bool" where
  "plain_inst inst \<longleftrightarrow> mode inst = XA_MODE_XEN \<and> std_pages inst"

lemma plain_std [simp]: "plain_inst std_inst" "plain_inst (std_inst\<lparr>pae := b\<rparr>)"
  by (simp_all add: plain_inst_def std_pages_def std_inst_def xa_instance_zero_def)

lemma flat_access_ma:
  "plain_inst inst \<Longrightarrow> xa_access_ma (flat_env pg) inst a prot = Some (map_page_of prot
    (if drop_bit 12 a = 0 then flat_page else pg (drop_bit 12 a)), 0xFFF AND a)"
  by (simp add: xa_access_ma_def xa_mmap_mfn_def xa_map_page_def flat_env_def frames_env_def
      plain_inst_def std_pages_def)

lemma flat_mapped:
  assumes "plain_inst inst" "\<And>f. length (pg f) = 4096"
  shows "maps_all (flat_env pg) inst" "full_pages (flat_env pg) inst"
  using assms
  by (auto simp: plain_inst_def maps_all_def full_pages_def xa_map_page_def flat_env_def frames_env_def
      map_page_of_def flat_page_def)

lemma flat_read_0:
  assumes "plain_inst inst"
  shows "filled (xa_read_long_mach (flat_env pg) inst 0) = Some 0x81"
    "filled (xa_read_long_long_mach (flat_env pg) inst 0) = Some 0x81"
  using assms by (simp_all add: xa_read_long_mach_def xa_read_long_long_mach_def flat_access_ma
      filled_def map_page_of_def flat_page_rd)

lemma flat_lookup:
  assumes "plain_inst inst" "\<not> pae inst" "v < 0x400000"
  shows "xa_pagetable_lookup (flat_env pg) inst 0 v = Some v"
proof -
  have v: "unat v < 4194304" using assms(3) by (simp add: word_less_nat_alt)
  have "drop_bit 22 v = 0" using v by (simp add: word_unat_eq_iff unat_drop_bit)
  then have "get_pgd_nopae (flat_env pg) inst v 0 = Some 0x81"
    by (simp add: get_pgd_nopae_def pdba_base_nopae_def pgd_index_def assms flat_read_0)
  moreover have "entry_present 0x81" "page_size_flag 0x81"
    by (simp_all add: entry_present_iff page_size_flag_iff)
  moreover have "unat (get_large_paddr inst v 0x81) = unat v"
    using v by (simp add: unat_get_large_paddr_nopae assms)
  then have "get_large_paddr inst v 0x81 = v" by (simp add: word_unat_eq_iff)
  ultimately show ?thesis by (simp add: xa_pagetable_lookup_def assms v2p_nopae_def)
qed

lemma flat_kv2p:
  assumes "plain_inst inst" "\<not> pae inst" "v < 0x400000"
  shows "xa_translate_kv2p (flat_env pg) inst v = Some v"
proof -
  have "snd (xa_current_cr3 (flat_env pg) inst 0) = 0"
    using assms(1) by (simp add: xa_current_cr3_def plain_inst_def flat_env_def frames_env_def)
  then show ?thesis by (simp add: xa_translate_kv2p_def flat_lookup [OF assms])
qed

lemma std_not_pae [simp]: "\<not> pae std_inst"
  by (simp add: std_inst_def xa_instance_zero_def)

section \<open>Properties of the walk\<close>

text \<open>(C7) Without PAE the walk is the two-level paging of IA-32: for every machine memory,
  \<open>v2p_nopae\<close> returns the address to which the processor would translate \<open>v\<close>,
  through a page table or a 4 MB page, and 0 when the page is not present.\<close>

theorem v2p_nopae_refines:
  assumes "\<not> pae inst"
  shows "map_option unat (v2p_nopae env inst cr3 v)
    = map_option (case_option 0 id) (ia32_walk (mach32 env inst) (unat cr3) (unat v))"
  using assms by (rule v2p_nopae_walk)

theorem v2p_nopae_refines_witness:
  "map_option unat (v2p_nopae (flat_env (\<lambda>f. replicate 4096 0)) std_inst 0 0x1234)
    = map_option (case_option 0 id) (ia32_walk (mach32 (flat_env (\<lambda>f. replicate 4096 0)) std_inst) (unat (0 :: u32)) (unat (0x1234 :: u32)))"
  by (rule v2p_nopae_refines) simp


lemma flat_low_entries:
  "low_entries (mach64 (flat_env (\<lambda>f. replicate 4096 0)) (std_inst\<lparr>pae := True\<rparr>))"
proof -
  have "e = 0 \<or> e = 0x81" if "mach64 (flat_env (\<lambda>f. replicate 4096 0)) (std_inst\<lparr>pae := True\<rparr>) a = Some e" for a e
    using that
    by (auto simp: mach64_def filled_def xa_read_long_long_mach_def flat_access_ma map_page_of_def
        flat_page_rd zero_page_rd bind_eq_Some_conv split: if_splits)
  then show ?thesis by (fastforce simp: low_entries_def)
qed


text \<open>A translation is a translation of the whole page: when \<open>v\<close> has a physical
  address, every address \<open>u\<close> of the same 4096 bytes has the physical address with the
  same frame and the offset of \<open>u\<close>. This is what lets the caches store page addresses.\<close>

theorem xa_pagetable_lookup_page:
  assumes "xa_pagetable_lookup env inst c v = Some p" "p \<noteq> 0"
    and "v AND 0xFFFFF000 = u AND 0xFFFFF000"
  shows "xa_pagetable_lookup env inst c u = Some ((p AND 0xFFFFF000) OR (u AND 0xFFF)) \<and>
    p AND 0xFFF = v AND 0xFFF"
  using lookup_same_page [OF assms] by simp

theorem xa_pagetable_lookup_page_witness:
  "xa_pagetable_lookup (flat_env (\<lambda>f. [])) std_inst 0 0x1FFC
     = Some (((0x1234 :: u32) AND 0xFFFFF000) OR ((0x1FFC :: u32) AND 0xFFF)) \<and>
   (0x1234 :: u32) AND 0xFFF = 0x1234 AND 0xFFF"
  by (rule xa_pagetable_lookup_page [OF flat_lookup]) simp_all

text \<open>(C9) The walk always answers: when the library reads 4096-byte pages and every frame can be
  mapped, \<open>xa_pagetable_lookup\<close> never reads past a table page nor uses a variable it has
  not filled, whatever the tables hold.\<close>

theorem xa_pagetable_lookup_total:
  assumes "std_pages inst" "full_pages env inst" "maps_all env inst"
  shows "\<exists>p. xa_pagetable_lookup env inst cr3 v = Some p"
  using lookup_defined [OF assms] by simp

theorem xa_pagetable_lookup_total_witness:
  "\<exists>p. xa_pagetable_lookup (flat_env (\<lambda>f. replicate 4096 0)) std_inst 0xABC000 0xC0001234 = Some p"
  by (rule xa_pagetable_lookup_total) (simp_all add: flat_mapped std_pages_def)


definition high_frame_env :: xa_env where
  "high_frame_env = frames_env (\<lambda>f. if f = 0 then Some [1, 0x10, 0, 0, 0, 0, 0, 0]
     else if f = 1 then Some [1, 0x20, 0, 0, 0, 0, 0, 0] 
     else if f = 2 then Some [1, 0x30, 0, 0, 1, 0, 0, 0] else None)"

definition pae_inst :: xa_instance where
  "pae_inst = std_inst\<lparr>pae := True\<rparr>"

lemmas demo_simps = high_frame_env_def frames_env_def pae_inst_def xa_instance_zero_def

lemma high_frame_reads:
  "get_pdpi high_frame_env pae_inst 0 0 = Some 0x1001"
  "get_pgd_pae high_frame_env pae_inst 0 0x1001 = Some 0x2001"
  "get_pte_pae high_frame_env pae_inst 0 0x2001 = Some 0x100003001"
  by code_simp+


text \<open>The report on a page that is not present was meant for Windows guests only, but its
  guard never stops it: \<open>buffalo_nopae\<close> gives the same answer for every guest
  operating system, and answers for a Linux guest.\<close>

theorem buffalo_ignores_os:
  "buffalo_nopae (inst\<lparr>os_type := os\<rparr>) e pde = buffalo_nopae inst e pde \<and>
    buffalo_nopae (inst\<lparr>os_type := XA_OS_LINUX\<rparr>) 0x800 pde = Some Transition"
  by (simp add: buffalo_nopae_def c_not_def get_transition_bit_def get_prototype_bit_def xa_get_bit_def)

end
