(* ===== verification/Xa_Lru.thy ===== *)
theory Xa_Lru
  imports Xa_Types
begin

text \<open>
  The doubly linked lists behind the two caches of \<open>xa_cache.c\<close>: searching,
  finding the least recently used entry, unlinking, freeing and appending, on a heap of
  entries, exactly as \<open>xa_update_cache\<close> and \<open>xa_update_pid_cache\<close>
  spell them out twice. An access through NULL or to a cell that has been freed is
  undefined. The second half shows that on a well-formed list every operation is defined
  and acts on the sequence of entries as expected.
\<close>

section \<open>Operations on the heap\<close>

text \<open>\<open>while (current != NULL) { if (...) break; current = current->next; }\<close>\<close>

partial_function (option) lru_find ::
  "('a lru_node_scheme \<Rightarrow> bool) \<Rightarrow> (nat \<rightharpoonup> 'a lru_node_scheme) \<Rightarrow> ptr \<Rightarrow> ptr option" where
  "lru_find P h current =
     (case current of
        None \<Rightarrow> Some None
      | Some a \<Rightarrow> do { n \<leftarrow> h a; if P n then Some (Some a) else lru_find P h (nxt n) })"

declare lru_find.simps [code]

partial_function (option) lru_oldest ::
  "(nat \<rightharpoonup> 'a lru_node_scheme) \<Rightarrow> nat \<Rightarrow> ptr \<Rightarrow> nat option" where
  "lru_oldest h oldest current =
     (case current of
        None \<Rightarrow> Some oldest
      | Some c \<Rightarrow> do {
          n \<leftarrow> h c; m \<leftarrow> h oldest;
          lru_oldest h (if last_used n < last_used m then c else oldest) (nxt n) })"

declare lru_oldest.simps [code]

definition lru_unlink :: "'a lru_node_scheme lru \<Rightarrow> nat \<Rightarrow> 'a lru_node_scheme lru option" where
  "lru_unlink l oldest = do {
     n \<leftarrow> l_heap l oldest;
     (case (nxt n, prv n) of
        (None, None) \<Rightarrow> Some (l\<lparr>l_head := None, l_tail := None\<rparr>)
      | (None, Some p) \<Rightarrow> do {
          pn \<leftarrow> l_heap l p;
          Some (l\<lparr>l_tail := Some p, l_heap := (l_heap l)(p \<mapsto> pn\<lparr>nxt := None\<rparr>)\<rparr>) }
      | (Some x, None) \<Rightarrow> do {
          xn \<leftarrow> l_heap l x;
          Some (l\<lparr>l_head := Some x, l_heap := (l_heap l)(x \<mapsto> xn\<lparr>prv := None\<rparr>)\<rparr>) }
      | (Some x, Some p) \<Rightarrow> do {
          pn \<leftarrow> l_heap l p;
          let h1 = (l_heap l)(p \<mapsto> pn\<lparr>nxt := Some x\<rparr>);
          xn \<leftarrow> h1 x;
          Some (l\<lparr>l_heap := h1(x \<mapsto> xn\<lparr>prv := Some p\<rparr>)\<rparr>) }) }"

definition lru_free :: "'a lru_node_scheme lru \<Rightarrow> nat \<Rightarrow> 'a lru_node_scheme lru" where
  "lru_free l a = l\<lparr>l_heap := (l_heap l)(a := None)\<rparr>"

definition lru_drop :: "'a lru_node_scheme lru \<Rightarrow> nat \<Rightarrow> 'a lru_node_scheme lru option" where
  "lru_drop l a = do {
     l1 \<leftarrow> lru_unlink l a;
     let l2 = lru_free l1 a;
     Some (l2\<lparr>l_size := l_size l2 - 1\<rparr>) }"

definition lru_remove_oldest :: "'a lru_node_scheme lru \<Rightarrow> 'a lru_node_scheme lru option" where
  "lru_remove_oldest l = do {
     h \<leftarrow> l_head l;
     oldest \<leftarrow> lru_oldest (l_heap l) h (l_head l);
     lru_drop l oldest }"

definition lru_append ::
  "'a lru_node_scheme lru \<Rightarrow> 'a lru_node_scheme \<Rightarrow> 'a lru_node_scheme lru option" where
  "lru_append l new_entry = (let a = l_brk l in do {
     h1 \<leftarrow> (case l_tail l of
              None \<Rightarrow> Some (l_heap l)
            | Some t \<Rightarrow> do { tn \<leftarrow> l_heap l t; Some ((l_heap l)(t \<mapsto> tn\<lparr>nxt := Some a\<rparr>)) });
     Some (l\<lparr>l_heap := h1(a \<mapsto> new_entry\<lparr>prv := l_tail l, nxt := None\<rparr>),
             l_tail := Some a,
             l_head := (if l_head l = None then Some a else l_head l),
             l_size := l_size l + 1,
             l_brk := Suc a\<rparr>) })"

definition lru_set :: "'a lru_node_scheme lru \<Rightarrow> nat \<Rightarrow> 'a lru_node_scheme \<Rightarrow> 'a lru_node_scheme lru"
  where "lru_set l a n = l\<lparr>l_heap := (l_heap l)(a \<mapsto> n)\<rparr>"

text \<open>Make room when the list is full, then append: the second half of the two update
  functions.\<close>

definition lru_insert ::
  "int \<Rightarrow> 'a lru_node_scheme lru \<Rightarrow> 'a lru_node_scheme \<Rightarrow> 'a lru_node_scheme lru option" where
  "lru_insert cap l new_entry = do {
     l1 \<leftarrow> (if cap \<le> l_size l then lru_remove_oldest l else Some l);
     lru_append l1 new_entry }"

text \<open>The search from the head of the list.\<close>

definition lru_search :: "('a lru_node_scheme \<Rightarrow> bool) \<Rightarrow> 'a lru_node_scheme lru \<Rightarrow> ptr option" where
  "lru_search P l = lru_find P (l_heap l) (l_head l)"

definition lru_get :: "'a lru_node_scheme lru \<Rightarrow> nat \<Rightarrow> 'a lru_node_scheme option" where
  "lru_get l a = l_heap l a"

text \<open>\<open>xa_destroy_cache\<close>: free every entry, reading \<open>next\<close> first.\<close>

partial_function (option) lru_free_all ::
  "(nat \<rightharpoonup> 'a lru_node_scheme) \<Rightarrow> ptr \<Rightarrow> (nat \<rightharpoonup> 'a lru_node_scheme) option" where
  "lru_free_all h current =
     (case current of
        None \<Rightarrow> Some h
      | Some a \<Rightarrow> do { n \<leftarrow> h a; lru_free_all (h(a := None)) (nxt n) })"

declare lru_free_all.simps [code]

section \<open>Well-formed lists\<close>

text \<open>\<open>dseg h p x as y q\<close>: from \<open>x\<close> the \<open>next\<close> links visit the
  cells \<open>as\<close> and lead to \<open>y\<close>; the \<open>prev\<close> link of the first
  cell is \<open>p\<close> and \<open>q\<close> is the last cell.\<close>

fun dseg :: "(nat \<rightharpoonup> 'a lru_node_scheme) \<Rightarrow> ptr \<Rightarrow> ptr \<Rightarrow> nat list \<Rightarrow> ptr \<Rightarrow> ptr \<Rightarrow> bool" where
  "dseg h p x [] y q \<longleftrightarrow> x = y \<and> p = q"
| "dseg h p x (a # as) y q \<longleftrightarrow>
     x = Some a \<and> (\<exists>n. h a = Some n \<and> prv n = p \<and> dseg h (Some a) (nxt n) as y q)"

definition lru_ok :: "'a lru_node_scheme lru \<Rightarrow> nat list \<Rightarrow> bool" where
  "lru_ok l as \<longleftrightarrow> dseg (l_heap l) None (l_head l) as None (l_tail l) \<and> distinct as \<and>
     dom (l_heap l) = set as \<and> l_size l = int (length as) \<and> (\<forall>a\<in>set as. a < l_brk l)"

text \<open>The entry without its links.\<close>

definition strip :: "'a lru_node_scheme \<Rightarrow> 'a lru_node_scheme" where
  "strip n = n\<lparr>nxt := None, prv := None\<rparr>"

definition contents :: "(nat \<rightharpoonup> 'a lru_node_scheme) \<Rightarrow> nat list \<Rightarrow> 'a lru_node_scheme list" where
  "contents h as = map (\<lambda>a. strip (the (h a))) as"

text \<open>The list represents the sequence \<open>xs\<close> of entries: its cells are linked both
  ways, distinct, allocated, counted by the size field, and nothing else is allocated.\<close>

definition lru_rep :: "'a lru_node_scheme lru \<Rightarrow> 'a lru_node_scheme list \<Rightarrow> bool" where
  "lru_rep l xs \<longleftrightarrow> (\<exists>as. lru_ok l as \<and> xs = contents (l_heap l) as)"

lemma strip_simps [simp]:
  "strip (strip n) = strip n" "strip (n\<lparr>nxt := x\<rparr>) = strip n" "strip (n\<lparr>prv := y\<rparr>) = strip n"
  "last_used (strip n) = last_used n"
  "strip (n\<lparr>last_used := t\<rparr>) = (strip n)\<lparr>last_used := t\<rparr>"
  by (simp_all add: strip_def)

lemma dseg_append:
  "dseg h p x (as @ bs) y q \<longleftrightarrow> (\<exists>m r. dseg h p x as m r \<and> dseg h r m bs y q)"
  by (induction as arbitrary: p x) auto

lemma dseg_fun_upd [simp]: "a \<notin> set as \<Longrightarrow> dseg (h(a := v)) p x as y q = dseg h p x as y q"
  by (induction as arbitrary: p x) auto

lemma dseg_in_dom: "dseg h p x as y q \<Longrightarrow> set as \<subseteq> dom h"
  by (induction as arbitrary: p x) auto

lemma dseg_same_links:
  "h a = Some n \<Longrightarrow> nxt n' = nxt n \<Longrightarrow> prv n' = prv n \<Longrightarrow>
    dseg (h(a \<mapsto> n')) p x as y q = dseg h p x as y q"
  by (induction as arbitrary: p x) auto

lemma dseg_last:
  "dseg h p x as y q \<Longrightarrow> q = (if as = [] then p else Some (last as))"
  by (induction as arbitrary: p x) auto

lemma dseg_first:
  "dseg h p x as y q \<Longrightarrow> x = (if as = [] then y else Some (hd as))"
  by (cases as) auto

lemma contents_simps [simp]:
  "contents h [] = []"
  "contents h (a # as) = strip (the (h a)) # contents h as"
  "contents h (as @ bs) = contents h as @ contents h bs"
  "length (contents h as) = length as"
  by (simp_all add: contents_def)

lemma contents_cong: "(\<And>a. a \<in> set as \<Longrightarrow> strip (the (h' a)) = strip (the (h a))) \<Longrightarrow>
    contents h' as = contents h as"
  by (simp add: contents_def)

section \<open>The same operations on sequences\<close>

text \<open>What the operations mean for the sequence of entries: change the first match, remove the
  first entry with the least time stamp.\<close>

fun upd_first :: "('a \<Rightarrow> bool) \<Rightarrow> ('a \<Rightarrow> 'a) \<Rightarrow> 'a list \<Rightarrow> 'a list" where
  "upd_first P f [] = []"
| "upd_first P f (x # xs) = (if P x then f x # xs else x # upd_first P f xs)"

fun drop_first :: "('a \<Rightarrow> bool) \<Rightarrow> 'a list \<Rightarrow> 'a list" where
  "drop_first P [] = []"
| "drop_first P (x # xs) = (if P x then xs else x # drop_first P xs)"

definition oldest_use :: "'a lru_node_scheme list \<Rightarrow> int" where
  "oldest_use xs = Min (set (map last_used xs))"

definition drop_oldest :: "'a lru_node_scheme list \<Rightarrow> 'a lru_node_scheme list" where
  "drop_oldest xs = drop_first (\<lambda>x. last_used x = oldest_use xs) xs"

text \<open>A test and an update that do not look at the links and do not change them.\<close>

definition blind :: "('a lru_node_scheme \<Rightarrow> bool) \<Rightarrow> bool" where
  "blind P \<longleftrightarrow> (\<forall>n. P (strip n) = P n)"

definition keeps_links :: "('a lru_node_scheme \<Rightarrow> 'a lru_node_scheme) \<Rightarrow> bool" where
  "keeps_links f \<longleftrightarrow> (\<forall>n. strip (f n) = f (strip n) \<and> nxt (f n) = nxt n \<and> prv (f n) = prv n)"

text \<open>The address the loop looking for the oldest entry ends with.\<close>

fun arg_min_first :: "('a \<Rightarrow> int) \<Rightarrow> 'a \<Rightarrow> 'a list \<Rightarrow> 'a" where
  "arg_min_first k r [] = r"
| "arg_min_first k r (a # as) = arg_min_first k (if k a < k r then a else r) as"

section \<open>The operations implement them\<close>

lemma lru_find_dseg:
  "dseg h p x as None q \<Longrightarrow> lru_find P h x = Some (List.find (\<lambda>a. P (the (h a))) as)"
proof (induction as arbitrary: p x)
  case Nil
  then show ?case by (simp add: lru_find.simps)
next
  case (Cons a as)
  then obtain n where n: "x = Some a" "h a = Some n" "dseg h (Some a) (nxt n) as None q" by auto
  from Cons.IH [OF n(3)] show ?case
    unfolding n(1) by (subst lru_find.simps) (simp add: n(2))
qed

lemma arg_min_first_cases:
  "(\<exists>bs cs. as = bs @ arg_min_first k r as # cs \<and> k (arg_min_first k r as) < k r \<and>
      (\<forall>b\<in>set bs. k (arg_min_first k r as) < k b) \<and> (\<forall>c\<in>set cs. k (arg_min_first k r as) \<le> k c))
   \<or> arg_min_first k r as = r \<and> (\<forall>a\<in>set as. k r \<le> k a)"
proof (induction as arbitrary: r)
  case Nil
  then show ?case by simp
next
  case (Cons a as)
  let ?r = "if k a < k r then a else r"
  let ?m = "arg_min_first k ?r as"
  have m: "arg_min_first k r (a # as) = ?m" by simp
  from Cons.IH [of ?r] show ?case
  proof
    assume "\<exists>bs cs. as = bs @ ?m # cs \<and> k ?m < k ?r \<and>
      (\<forall>b\<in>set bs. k ?m < k b) \<and> (\<forall>c\<in>set cs. k ?m \<le> k c)"
    then obtain bs cs where s: "as = bs @ ?m # cs" "k ?m < k ?r"
      "\<forall>b\<in>set bs. k ?m < k b" "\<forall>c\<in>set cs. k ?m \<le> k c" by blast
    have "k ?m < k a" "k ?m < k r" using s(2) by (auto split: if_splits)
    then show ?thesis unfolding m
      using s by (intro disjI1 exI [of _ "a # bs"] exI [of _ cs]) simp
  next
    assume s: "?m = ?r \<and> (\<forall>x\<in>set as. k ?r \<le> k x)"
    show ?thesis unfolding m
    proof (cases "k a < k r")
      case True
      then show "(\<exists>bs cs. a # as = bs @ ?m # cs \<and> k ?m < k r \<and>
          (\<forall>b\<in>set bs. k ?m < k b) \<and> (\<forall>c\<in>set cs. k ?m \<le> k c))
        \<or> ?m = r \<and> (\<forall>x\<in>set (a # as). k r \<le> k x)"
        using s by (intro disjI1 exI [of _ "[]"] exI [of _ as]) simp
    next
      case False
      with s show "(\<exists>bs cs. a # as = bs @ ?m # cs \<and> k ?m < k r \<and>
          (\<forall>b\<in>set bs. k ?m < k b) \<and> (\<forall>c\<in>set cs. k ?m \<le> k c))
        \<or> ?m = r \<and> (\<forall>x\<in>set (a # as). k r \<le> k x)"
        by (intro disjI2) simp
    qed
  qed
qed

lemma arg_min_first_split:
  assumes "as \<noteq> []"
  obtains bs cs where "as = bs @ arg_min_first k (hd as) as # cs"
    "\<forall>b\<in>set bs. k (arg_min_first k (hd as) as) < k b"
    "\<forall>c\<in>set cs. k (arg_min_first k (hd as) as) \<le> k c"
  using arg_min_first_cases [of as k "hd as"]
proof
  assume "arg_min_first k (hd as) as = hd as \<and> (\<forall>a\<in>set as. k (hd as) \<le> k a)"
  with that [of "[]" "tl as"] assms show thesis by (cases as) auto
qed (use that in blast)

lemma lru_oldest_dseg:
  assumes "dseg h p x as None q" and "h r \<noteq> None"
  shows "lru_oldest h r x = Some (arg_min_first (\<lambda>a. last_used (the (h a))) r as)"
  using assms
proof (induction as arbitrary: p x r)
  case Nil
  then show ?case by (simp add: lru_oldest.simps)
next
  case (Cons a as)
  then obtain n where n: "x = Some a" "h a = Some n" "dseg h (Some a) (nxt n) as None q" by auto
  from Cons.prems(2) obtain m where m: "h r = Some m" by auto
  have "h (if last_used n < last_used m then a else r) \<noteq> None" using n m by simp
  from Cons.IH [OF n(3) this] show ?case
    unfolding n(1) by (subst lru_oldest.simps) (simp add: n(2) m)
qed


lemma lru_drop_ok:
  assumes ok: "lru_ok l (bs @ a # cs)"
  shows "\<exists>l'. lru_drop l a = Some l' \<and> lru_ok l' (bs @ cs) \<and>
    contents (l_heap l') (bs @ cs) = contents (l_heap l) (bs @ cs)"
proof (cases bs rule: rev_cases)
  case Nil
  show ?thesis
  proof (cases cs)
    case cs: Nil
    then show ?thesis using ok Nil
      by (auto simp: lru_ok_def lru_drop_def lru_unlink_def lru_free_def
          simp del: dom_eq_empty_conv)
  next
    case (Cons c cs')
    then show ?thesis using ok Nil
      by (auto simp: lru_ok_def lru_drop_def lru_unlink_def lru_free_def contents_def)
  qed
next
  case bs: (snoc bs' b)
  show ?thesis
  proof (cases cs)
    case cs: Nil
    then show ?thesis using ok bs
      by (auto simp: lru_ok_def lru_drop_def lru_unlink_def lru_free_def contents_def dseg_append)
  next
    case (Cons c cs')
    then show ?thesis using ok bs
      by (auto simp: lru_ok_def lru_drop_def lru_unlink_def lru_free_def contents_def dseg_append)
  qed
qed


lemma lru_append_ok:
  assumes ok: "lru_ok l as"
  shows "\<exists>l'. lru_append l n = Some l' \<and> lru_ok l' (as @ [l_brk l]) \<and>
    contents (l_heap l') (as @ [l_brk l]) = contents (l_heap l) as @ [strip n]"
proof (cases as rule: rev_cases)
  case Nil
  with ok have "l_tail l = None" "l_head l = None" "l_heap l = Map.empty" "l_size l = 0"
    by (auto simp: lru_ok_def)
  then show ?thesis using Nil by (auto simp: lru_ok_def lru_append_def Let_def)
next
  case (snoc bs t)
  with ok obtain r tn where t: "l_tail l = Some t" "l_heap l t = Some tn"
    and d: "dseg (l_heap l) None (l_head l) bs (Some t) r" "prv tn = r" "nxt tn = None"
    by (auto simp: lru_ok_def dseg_append)
  have "l_brk l \<notin> set (bs @ [t])" using ok snoc by (auto simp: lru_ok_def)
  moreover have "l_head l \<noteq> None" using d(1) by (cases bs) auto
  ultimately show ?thesis
    using ok t d snoc by (auto simp: lru_ok_def lru_append_def Let_def dseg_append contents_def)
qed

lemma lru_set_ok:
  assumes ok: "lru_ok l as" and h: "l_heap l a = Some n" "nxt n' = nxt n" "prv n' = prv n"
  shows "lru_ok (lru_set l a n') as"
    and "contents (l_heap (lru_set l a n')) as
      = map (\<lambda>b. if b = a then strip n' else strip (the (l_heap l b))) as"
proof -
  have "a \<in> set as" using ok h(1) by (auto simp: lru_ok_def)
  then show "lru_ok (lru_set l a n') as"
    using ok by (auto simp: lru_ok_def lru_set_def dseg_same_links [of "l_heap l" a n n', OF h])
  show "contents (l_heap (lru_set l a n')) as
      = map (\<lambda>b. if b = a then strip n' else strip (the (l_heap l b))) as"
    by (simp add: contents_def lru_set_def)
qed

lemma lru_free_all_ok:
  "dseg h p x as None q \<Longrightarrow> distinct as \<Longrightarrow>
    lru_free_all h x = Some (\<lambda>a. if a \<in> set as then None else h a)"
proof (induction as arbitrary: h p x)
  case Nil
  then show ?case by (simp add: lru_free_all.simps)
next
  case (Cons a as)
  then obtain n where n: "x = Some a" "h a = Some n" "dseg h (Some a) (nxt n) as None q" by auto
  have "lru_free_all (h(a := None)) (nxt n) = Some (\<lambda>b. if b \<in> set as then None else (h(a := None)) b)"
    using n(3) Cons.prems(2) by (intro Cons.IH [of _ "Some a"]) (simp_all del: fun_upd_apply)
  then show ?case unfolding n(1) by (subst lru_free_all.simps) (auto simp: n(2) fun_eq_iff)
qed


lemma upd_first_id: "List.find P xs = None \<Longrightarrow> upd_first P f xs = xs"
  by (induction xs) (auto split: if_splits)

lemma find_contents:
  assumes "blind P"
  shows "map_option (\<lambda>a. strip (the (h a))) (List.find (\<lambda>a. P (the (h a))) as) = List.find P (contents h as)"
  using assms by (induction as) (auto simp: blind_def)

lemma map_upd_first:
  assumes "List.find (\<lambda>a. P (the (h a))) as = Some a" "distinct as" "blind P" "keeps_links f"
  shows "map (\<lambda>b. if b = a then strip (f (the (h a))) else strip (the (h b))) as = upd_first P f (contents h as)"
  using assms
proof (induction as)
  case (Cons b as)
  have k: "P (strip n) = P n" "strip (f n) = f (strip n)" for n
    using Cons.prems(3,4) by (simp_all add: keeps_links_def blind_def)
  show ?case
  proof (cases "P (the (h b))")
    case True
    then show ?thesis using Cons.prems by (auto simp: k contents_def)
  next
    case False
    then have "List.find (\<lambda>a. P (the (h a))) as = Some a" using Cons.prems(1) by simp
    moreover from this have "a \<in> set as" by (auto simp: find_Some_iff)
    ultimately show ?thesis using Cons False by (auto simp: k)
  qed
qed simp

lemma lru_search_rep:
  assumes "lru_rep l xs" "blind P"
  shows "lru_search P l = Some None \<and> List.find P xs = None \<or>
    (\<exists>a n. lru_search P l = Some (Some a) \<and> lru_get l a = Some n \<and> List.find P xs = Some (strip n) \<and>
       (\<forall>f. keeps_links f \<longrightarrow> lru_rep (lru_set l a (f n)) (upd_first P f xs)))"
proof -
  obtain as where ok: "lru_ok l as" and xs: "xs = contents (l_heap l) as"
    using assms(1) by (auto simp: lru_rep_def)
  have f: "lru_search P l = Some (List.find (\<lambda>a. P (the (l_heap l a))) as)"
    using ok unfolding lru_search_def by (intro lru_find_dseg) (auto simp: lru_ok_def)
  note c = find_contents [OF assms(2), of "l_heap l" as]
  show ?thesis
  proof (cases "List.find (\<lambda>a. P (the (l_heap l a))) as")
    case None
    then show ?thesis using c xs f by simp
  next
    case (Some a)
    then have "a \<in> set as" by (auto simp: find_Some_iff)
    then obtain n where n: "l_heap l a = Some n" using ok by (auto simp: lru_ok_def)
    have "lru_rep (lru_set l a (g n)) (upd_first P g xs)" if k: "keeps_links g" for g
    proof -
      have lk: "nxt (g n) = nxt n" "prv (g n) = prv n" using k by (simp_all add: keeps_links_def)
      show ?thesis unfolding lru_rep_def
        using lru_set_ok [OF ok n lk] ok xs
          map_upd_first [OF Some _ assms(2) k, unfolded n option.sel]
        by (intro exI [of _ as]) (simp add: lru_ok_def)
    qed
    moreover have "List.find P xs = Some (strip n)" using c xs Some n by simp
    ultimately show ?thesis using f Some n by (auto simp: lru_get_def)
  qed
qed

lemma drop_first_split:
  "\<forall>b\<in>set bs. \<not> P b \<Longrightarrow> P x \<Longrightarrow> drop_first P (bs @ x # cs) = bs @ cs"
  by (induction bs) simp_all

lemma drop_oldest_split:
  assumes "\<forall>b\<in>set bs. last_used x < last_used b" "\<forall>c\<in>set cs. last_used x \<le> last_used c"
  shows "drop_oldest (bs @ x # cs) = bs @ cs"
proof -
  have "oldest_use (bs @ x # cs) = last_used x"
    unfolding oldest_use_def using assms by (intro Min_eqI) (auto simp: less_imp_le)
  then show ?thesis
    unfolding drop_oldest_def using assms(1) by (intro drop_first_split) auto
qed

lemma lru_remove_oldest_rep:
  assumes "lru_rep l xs" "xs \<noteq> []"
  shows "\<exists>l'. lru_remove_oldest l = Some l' \<and> lru_rep l' (drop_oldest xs)"
proof -
  obtain as where ok: "lru_ok l as" and xs: "xs = contents (l_heap l) as"
    using assms(1) by (auto simp: lru_rep_def)
  from assms(2) xs have ne: "as \<noteq> []" by auto
  then have hd: "l_head l = Some (hd as)" and d: "dseg (l_heap l) None (l_head l) as None (l_tail l)"
    using ok by (auto simp: lru_ok_def dest: dseg_first)
  have "l_heap l (hd as) \<noteq> None" using ok ne by (auto simp: lru_ok_def)
  let ?k = "\<lambda>a. last_used (the (l_heap l a))"
  let ?r = "arg_min_first ?k (hd as) as"
  have o: "lru_oldest (l_heap l) (hd as) (l_head l) = Some ?r"
    by (rule lru_oldest_dseg [OF d]) fact
  obtain bs cs where s: "as = bs @ ?r # cs" "\<forall>b\<in>set bs. ?k ?r < ?k b" "\<forall>c\<in>set cs. ?k ?r \<le> ?k c"
    by (rule arg_min_first_split [OF ne])
  obtain l' where l': "lru_drop l ?r = Some l'" "lru_ok l' (bs @ cs)"
    "contents (l_heap l') (bs @ cs) = contents (l_heap l) (bs @ cs)"
    using lru_drop_ok [of l bs ?r cs] ok s(1) by auto
  have "lru_remove_oldest l = Some l'"
    using o hd l'(1) by (simp add: lru_remove_oldest_def)
  moreover have "drop_oldest xs = contents (l_heap l) (bs @ cs)"
  proof -
    have "xs = contents (l_heap l) bs @ strip (the (l_heap l ?r)) # contents (l_heap l) cs"
      unfolding xs by (subst s(1)) simp
    then show ?thesis using s(2,3) by (simp add: contents_def drop_oldest_split)
  qed
  ultimately show ?thesis using l'(2,3) by (auto simp: lru_rep_def)
qed

lemma lru_append_rep:
  "lru_rep l xs \<Longrightarrow> \<exists>l'. lru_append l n = Some l' \<and> lru_rep l' (xs @ [strip n])"
  unfolding lru_rep_def using lru_append_ok by metis

lemma lru_size_rep: "lru_rep l xs \<Longrightarrow> l_size l = int (length xs)"
  by (auto simp: lru_rep_def lru_ok_def)

lemma dseg_unique: "dseg h p x as None q \<Longrightarrow> dseg h p x bs None q' \<Longrightarrow> as = bs"
proof (induction as arbitrary: p x bs)
  case Nil
  then show ?case by (cases bs) auto
next
  case (Cons a as)
  then show ?case by (cases bs) auto
qed

lemma lru_rep_unique: "lru_rep l xs \<Longrightarrow> lru_rep l ys \<Longrightarrow> xs = ys"
  by (auto simp: lru_rep_def lru_ok_def dest: dseg_unique)

lemma lru_rep_init [simp]: "lru_rep lru_init []"
  by (simp add: lru_rep_def lru_ok_def lru_init_def)

lemma lru_free_all_rep:
  assumes "lru_rep l xs"
  shows "lru_free_all (l_heap l) (l_head l) = Some Map.empty"
proof -
  obtain as where ok: "lru_ok l as" using assms by (auto simp: lru_rep_def)
  then have "lru_free_all (l_heap l) (l_head l) = Some (\<lambda>a. if a \<in> set as then None else l_heap l a)"
    by (intro lru_free_all_ok [of _ None _ _ "l_tail l"]) (simp_all add: lru_ok_def)
  also have "(\<lambda>a. if a \<in> set as then None else l_heap l a) = Map.empty"
    using ok by (auto simp: lru_ok_def fun_eq_iff domIff)
  finally show ?thesis .
qed

section \<open>The interface of a bounded list\<close>

text \<open>What the caches rely on. \<open>rep\<close> relates a list to the sequence of its entries;
  the laws say that on a represented list every operation is defined and what it does to the
  sequence.\<close>

locale lru_store =
  fixes rep :: "'l \<Rightarrow> 'a lru_node_scheme list \<Rightarrow> bool"
    and size_of :: "'l \<Rightarrow> int"
    and search :: "('a lru_node_scheme \<Rightarrow> bool) \<Rightarrow> 'l \<Rightarrow> ptr option"
    and get :: "'l \<Rightarrow> nat \<Rightarrow> 'a lru_node_scheme option"
    and put :: "'l \<Rightarrow> nat \<Rightarrow> 'a lru_node_scheme \<Rightarrow> 'l"
    and evict :: "'l \<Rightarrow> 'l option"
    and append_entry :: "'l \<Rightarrow> 'a lru_node_scheme \<Rightarrow> 'l option"
  assumes rep_unique: "rep l xs \<Longrightarrow> rep l ys \<Longrightarrow> xs = ys"
    and rep_size: "rep l xs \<Longrightarrow> size_of l = int (length xs)"
    and rep_search: "rep l xs \<Longrightarrow> blind P \<Longrightarrow>
      search P l = Some None \<and> List.find P xs = None \<or>
      (\<exists>a n. search P l = Some (Some a) \<and> get l a = Some n \<and> List.find P xs = Some (strip n) \<and>
         (\<forall>f. keeps_links f \<longrightarrow> rep (put l a (f n)) (upd_first P f xs)))"
    and rep_evict: "rep l xs \<Longrightarrow> xs \<noteq> [] \<Longrightarrow> \<exists>l'. evict l = Some l' \<and> rep l' (drop_oldest xs)"
    and rep_append: "rep l xs \<Longrightarrow> \<exists>l'. append_entry l n = Some l' \<and> rep l' (xs @ [strip n])"
begin

lemma search_cases [consumes 2, case_names miss hit]:
  assumes "rep l xs" "blind P"
  obtains "search P l = Some None" "List.find P xs = None"
  | a n where "search P l = Some (Some a)" "get l a = Some n" "List.find P xs = Some (strip n)"
      "\<forall>f. keeps_links f \<longrightarrow> rep (put l a (f n)) (upd_first P f xs)"
  using rep_search [OF assms] by (elim disjE conjE exE) blast+

lemma insert_rep:
  assumes "rep l xs" "0 < cap"
  shows "\<exists>l'. (if cap \<le> size_of l then evict l else Some l) \<bind> (\<lambda>l1. append_entry l1 n) = Some l' \<and>
    rep l' ((if cap \<le> int (length xs) then drop_oldest xs else xs) @ [strip n])"
proof (cases "cap \<le> int (length xs)")
  case True
  then have "xs \<noteq> []" using assms(2) by auto
  then obtain l1 where l1: "evict l = Some l1" "rep l1 (drop_oldest xs)"
    using rep_evict [OF assms(1)] by auto
  with rep_append [OF l1(2), of n] True rep_size [OF assms(1)] show ?thesis by auto
next
  case False
  with rep_append [OF assms(1), of n] rep_size [OF assms(1)] show ?thesis by auto
qed

end

interpretation lru: lru_store lru_rep l_size lru_search lru_get lru_set lru_remove_oldest lru_append
proof
qed (fact lru_rep_unique lru_size_rep lru_search_rep lru_remove_oldest_rep lru_append_rep)+

lemma lru_insert_rep:
  assumes "lru_rep l xs" "0 < cap"
  shows "\<exists>l'. lru_insert cap l n = Some l' \<and>
    lru_rep l' ((if cap \<le> int (length xs) then drop_oldest xs else xs) @ [strip n])"
  unfolding lru_insert_def by (rule lru.insert_rep [OF assms])

lemma length_drop_first: "length (drop_first P xs) = (if \<exists>x\<in>set xs. P x then length xs - 1 else length xs)"
  by (induction xs) (auto simp: neq_Nil_conv dest: split_list)

lemma oldest_use_mem: "xs \<noteq> [] \<Longrightarrow> oldest_use xs \<in> last_used ` set xs"
  unfolding oldest_use_def set_map [symmetric] by (intro Min_in) simp_all

lemma length_drop_oldest: "length (drop_oldest xs) = length xs - 1"
proof (cases "xs = []")
  case False
  then show ?thesis using oldest_use_mem [of xs] by (auto simp: drop_oldest_def length_drop_first)
qed (simp add: drop_oldest_def)

lemma set_drop_first: "set (drop_first P xs) \<subseteq> set xs" "\<not> P x \<Longrightarrow> x \<in> set xs \<Longrightarrow> x \<in> set (drop_first P xs)"
  by (induction xs) auto

lemma set_drop_oldest:
  "set (drop_oldest xs) \<subseteq> set xs"
  "x \<in> set xs \<Longrightarrow> last_used x \<noteq> oldest_use xs \<Longrightarrow> x \<in> set (drop_oldest xs)"
  by (simp_all add: drop_oldest_def set_drop_first)

lemma length_upd_first [simp]: "length (upd_first P f xs) = length xs"
  by (induction xs) simp_all

lemma set_upd_first: "set (upd_first P f xs) \<subseteq> set xs \<union> f ` {x \<in> set xs. P x}"
  by (induction xs) auto

lemma find_upd_first:
  assumes "List.find P xs \<noteq> None" "\<And>x. Q x \<Longrightarrow> P x" "\<And>x. P x \<Longrightarrow> Q (f x)"
  shows "List.find Q (upd_first P f xs) = map_option f (List.find P xs)"
  using assms by (induction xs) auto

lemma find_append_None: "List.find P (xs @ ys) = (case List.find P xs of Some x \<Rightarrow> Some x | None \<Rightarrow> List.find P ys)"
  by (induction xs) auto

lemma find_None_subset: "List.find P xs = None \<Longrightarrow> set ys \<subseteq> set xs \<Longrightarrow> (\<And>x. Q x \<Longrightarrow> P x) \<Longrightarrow> List.find Q ys = None"
  by (auto simp: find_None_iff)

lemma map_upd_first_same: "(\<And>x. k (f x) = k x) \<Longrightarrow> map k (upd_first P f xs) = map k xs"
  by (induction xs) auto

lemma distinct_drop_first: "distinct (map k xs) \<Longrightarrow> distinct (map k (drop_first P xs))"
  by (induction xs) (auto dest: set_drop_first(1) [THEN subsetD])

lemma lru_insert_cap:
  assumes "lru_rep l xs" "strip n = n" "0 < k"
  shows "\<exists>l'. lru_insert (int k) l n = Some l' \<and>
    lru_rep l' ((if length xs < k then xs else drop_oldest xs) @ [n])"
  using lru_insert_rep [OF assms(1), of "int k" n] assms(2,3) by (auto split: if_splits)

lemma lru_get_set [simp]: "lru_get (lru_set l a n) a = Some n" "lru_set (lru_set l a n) a n' = lru_set l a n'"
  by (simp_all add: lru_get_def lru_set_def)

lemma lru_rep_empty: "lru_rep l [] \<Longrightarrow> l_heap l = Map.empty"
  by (auto simp: lru_rep_def lru_ok_def contents_def)

lemma drop_oldest_eq:
  assumes "xs \<noteq> []"
  shows "\<exists>ys e zs. xs = ys @ e # zs \<and> (\<forall>x\<in>set xs. last_used e \<le> last_used x) \<and> drop_oldest xs = ys @ zs"
proof -
  have mem: "\<exists>x\<in>set xs. last_used x = oldest_use xs" using oldest_use_mem [OF assms] by auto
  have min: "\<forall>x\<in>set xs. oldest_use xs \<le> last_used x" by (simp add: oldest_use_def)
  from split_list_first_prop [OF mem] obtain ys e zs where
    "xs = ys @ e # zs" "last_used e = oldest_use xs" "\<forall>y\<in>set ys. last_used y \<noteq> oldest_use xs" by blast
  moreover from this have "drop_oldest xs = ys @ zs"
    unfolding drop_oldest_def by (subst \<open>xs = ys @ e # zs\<close>) (rule drop_first_split, simp_all)
  ultimately show ?thesis using min by metis
qed

lemma lru_rep_exists: "\<forall>x\<in>set xs. strip x = x \<Longrightarrow> \<exists>l. lru_rep l xs"
proof (induction xs rule: rev_induct)
  case Nil
  then show ?case using lru_rep_init by blast
next
  case (snoc x xs)
  then show ?case using lru_append_rep [of _ xs x] by auto
qed

end
