(* ===== verification/Xa_Cache.thy ===== *)
theory Xa_Cache
  imports Xa_Pagetable Xa_Lru
begin

text \<open>
  The two caches of \<open>xa_cache.c\<close> on the instance: symbol or virtual page to
  machine address, and pid to page directory. Each update function is shown to implement an
  operation on the sequence of entries, from which the size bounds, the lookup laws and the
  choice of the evicted entry follow.

  A test that reads an entry is a predicate on the entry, \<open>time(NULL)\<close> is the
  next value of the clock. \<open>xa_update_cache\<close> and
  \<open>xa_update_pid_cache\<close> always return 1, so their models return the instance
  only.
\<close>

section \<open>Symbols and virtual pages\<close>

definition now :: "xa_env \<Rightarrow> xa_instance \<Rightarrow> int" where
  "now env inst = time_at env (ticks inst)"

definition set_cache :: "xa_instance \<Rightarrow> xa_cache_entry lru \<Rightarrow> xa_instance" where
  "set_cache inst l = inst\<lparr>cache := l, ticks := Suc (ticks inst)\<rparr>"

definition sym_match :: "string \<Rightarrow> xa_cache_entry \<Rightarrow> bool" where
  "sym_match symbol_name n \<longleftrightarrow> strncmp_eq MAX_SYM_LEN (ce_symbol_name n) symbol_name"

definition sym_hit :: "string \<Rightarrow> u32 \<Rightarrow> xa_cache_entry \<Rightarrow> bool" where
  "sym_hit symbol_name pid n \<longleftrightarrow> sym_match symbol_name n \<and>
     ce_pid n = pid \<and> ce_mach_address n \<noteq> 0"

definition xa_check_cache_sym ::
  "xa_env \<Rightarrow> xa_instance \<Rightarrow> string \<Rightarrow> u32 \<Rightarrow> (u32 option \<times> xa_instance) option" where
  "xa_check_cache_sym env inst symbol_name pid = do {
     current \<leftarrow> lru_search (sym_hit symbol_name pid) (cache inst);
     (case current of
        None \<Rightarrow> Some (None, inst)
      | Some a \<Rightarrow> do {
          n \<leftarrow> lru_get (cache inst) a;
          Some (Some (ce_mach_address n),
            set_cache inst (lru_set (cache inst) a (n\<lparr>last_used := now env inst\<rparr>))) }) }"

definition virt_hit :: "u32 \<Rightarrow> u32 \<Rightarrow> xa_cache_entry \<Rightarrow> bool" where
  "virt_hit lookup pid n \<longleftrightarrow> ce_virt_address n \<noteq> 0 \<and> ce_virt_address n = lookup \<and>
     ce_pid n = pid \<and> ce_mach_address n \<noteq> 0"

definition xa_check_cache_virt ::
  "xa_env \<Rightarrow> xa_instance \<Rightarrow> u32 \<Rightarrow> u32 \<Rightarrow> (u32 option \<times> xa_instance) option" where
  "xa_check_cache_virt env inst virt_address pid =
     (let lookup = virt_address AND NOT (page_size inst - 1) in do {
     current \<leftarrow> lru_search (virt_hit lookup pid) (cache inst);
     (case current of
        None \<Rightarrow> Some (None, inst)
      | Some a \<Rightarrow> do {
          n \<leftarrow> lru_get (cache inst) a;
          Some (Some (ce_mach_address n OR (virt_address AND (page_size inst - 1))),
            set_cache inst (lru_set (cache inst) a (n\<lparr>last_used := now env inst\<rparr>))) }) })"

text \<open>The machine address recorded for a symbol: the one passed, or the translation of the
  virtual address when that is 0.\<close>

definition sym_mach :: "xa_env \<Rightarrow> xa_instance \<Rightarrow> u32 \<Rightarrow> u32 \<Rightarrow> u32 option" where
  "sym_mach env inst virt_address mach_address =
     (if mach_address \<noteq> 0 then Some mach_address else xa_translate_kv2p env inst virt_address)"

definition new_cache_entry ::
  "xa_env \<Rightarrow> xa_instance \<Rightarrow> string option \<Rightarrow> u32 \<Rightarrow> u32 \<Rightarrow> u32 \<Rightarrow> xa_cache_entry option" where
  "new_cache_entry env inst symbol_name virt_address pid mach_address =
     (case symbol_name of
        Some s \<Rightarrow> do {
          m \<leftarrow> sym_mach env inst virt_address mach_address;
          Some \<lparr>last_used = now env inst, nxt = None, prv = None,
            ce_symbol_name = strndup s MAX_SYM_LEN, ce_virt_address = 0,
            ce_mach_address = m, ce_pid = pid\<rparr> }
      | None \<Rightarrow>
          Some \<lparr>last_used = now env inst, nxt = None, prv = None,
            ce_symbol_name = strndup '''' MAX_SYM_LEN,
            ce_virt_address = virt_address AND NOT (page_size inst - 1),
            ce_mach_address = mach_address AND NOT (page_size inst - 1), ce_pid = pid\<rparr>)"

definition xa_update_cache ::
  "xa_env \<Rightarrow> xa_instance \<Rightarrow> string option \<Rightarrow> u32 \<Rightarrow> u32 \<Rightarrow> u32 \<Rightarrow> xa_instance option" where
  "xa_update_cache env inst symbol_name virt_address pid mach_address =
     (let vlookup = virt_address AND NOT (page_size inst - 1);
          mlookup = mach_address AND NOT (page_size inst - 1) in do {
     s \<leftarrow> (case symbol_name of
             None \<Rightarrow> Some None
           | Some s \<Rightarrow> lru_search (sym_match s) (cache inst));
     (case s of
        Some a \<Rightarrow> do {
          n \<leftarrow> lru_get (cache inst) a;
          m \<leftarrow> sym_mach env inst virt_address mach_address;
          Some (set_cache inst (lru_set (cache inst) a
            (n\<lparr>last_used := now env inst, ce_virt_address := 0, ce_pid := pid,
               ce_mach_address := m\<rparr>))) }
      | None \<Rightarrow> do {
          v \<leftarrow> (if virt_address \<noteq> 0
                then lru_search (\<lambda>n. ce_virt_address n = vlookup) (cache inst) else Some None);
          (case v of
             Some a \<Rightarrow> do {
               n \<leftarrow> lru_get (cache inst) a;
               Some (set_cache inst (lru_set (cache inst) a
                 (n\<lparr>last_used := now env inst, ce_pid := pid, ce_mach_address := mlookup\<rparr>))) }
           | None \<Rightarrow>
               if symbol_name = None \<and> virt_address = 0 then Some inst
               else do {
                 new_entry \<leftarrow> new_cache_entry env inst symbol_name virt_address pid mach_address;
                 l \<leftarrow> lru_insert XA_CACHE_SIZE (cache inst) new_entry;
                 Some (set_cache inst l) }) }) })"

definition xa_destroy_cache :: "xa_instance \<Rightarrow> xa_instance option" where
  "xa_destroy_cache inst = do {
     h \<leftarrow> lru_free_all (l_heap (cache inst)) (l_head (cache inst));
     Some (inst\<lparr>cache := (cache inst)
       \<lparr>l_head := None, l_tail := None, l_size := 0, l_heap := h\<rparr>\<rparr>) }"

section \<open>Process ids\<close>

definition set_pid_cache :: "xa_instance \<Rightarrow> xa_pid_cache_entry lru \<Rightarrow> xa_instance" where
  "set_pid_cache inst l = inst\<lparr>pid_cache := l, ticks := Suc (ticks inst)\<rparr>"

definition xa_check_pid_cache_helper ::
  "xa_env \<Rightarrow> xa_instance \<Rightarrow> u32 \<Rightarrow> (ptr \<times> xa_instance) option" where
  "xa_check_pid_cache_helper env inst pid = do {
     current \<leftarrow> lru_search (\<lambda>n. pce_pid n = pid) (pid_cache inst);
     (case current of
        None \<Rightarrow> Some (None, inst)
      | Some a \<Rightarrow> do {
          n \<leftarrow> lru_get (pid_cache inst) a;
          Some (Some a, set_pid_cache inst
            (lru_set (pid_cache inst) a (n\<lparr>last_used := now env inst\<rparr>))) }) }"

definition xa_check_pid_cache ::
  "xa_env \<Rightarrow> xa_instance \<Rightarrow> u32 \<Rightarrow> (u32 option \<times> xa_instance) option" where
  "xa_check_pid_cache env inst pid = do {
     (search, inst') \<leftarrow> xa_check_pid_cache_helper env inst pid;
     (case search of
        None \<Rightarrow> Some (None, inst')
      | Some a \<Rightarrow> do { n \<leftarrow> lru_get (pid_cache inst') a; Some (Some (pce_pgd n), inst') }) }"

definition xa_update_pid_cache :: "xa_env \<Rightarrow> xa_instance \<Rightarrow> u32 \<Rightarrow> u32 \<Rightarrow> xa_instance option" where
  "xa_update_pid_cache env inst pid pgd =
     (if pid = 0 then Some inst
      else do {
        (search, inst') \<leftarrow> xa_check_pid_cache_helper env inst pid;
        (case search of
           Some a \<Rightarrow> do {
             n \<leftarrow> lru_get (pid_cache inst') a;
             Some (inst'\<lparr>pid_cache := lru_set (pid_cache inst') a (n\<lparr>pce_pgd := pgd\<rparr>)\<rparr>) }
         | None \<Rightarrow> do {
             l \<leftarrow> lru_insert XA_PID_CACHE_SIZE (pid_cache inst')
               \<lparr>last_used = now env inst', nxt = None, prv = None, pce_pid = pid, pce_pgd = pgd\<rparr>;
             Some (set_pid_cache inst' l) }) })"

definition xa_destroy_pid_cache :: "xa_instance \<Rightarrow> xa_instance option" where
  "xa_destroy_pid_cache inst = do {
     h \<leftarrow> lru_free_all (l_heap (pid_cache inst)) (l_head (pid_cache inst));
     Some (inst\<lparr>pid_cache := (pid_cache inst)
       \<lparr>l_head := None, l_tail := None, l_size := 0, l_heap := h\<rparr>\<rparr>) }"

section \<open>The caches as sequences\<close>

lemma blind_preds [simp]:
  "blind (sym_match s)" "blind (sym_hit s p)" "blind (virt_hit v p)"
  "blind (\<lambda>n :: xa_cache_entry. ce_virt_address n = v)" "blind (\<lambda>n :: xa_pid_cache_entry. pce_pid n = q)"
  by (simp_all add: blind_def sym_match_def sym_hit_def virt_hit_def strip_def)

lemma keeps_links_updates [simp]:
  "keeps_links (\<lambda>n :: 'a lru_node_scheme. n\<lparr>last_used := t\<rparr>)"
  "keeps_links (\<lambda>n :: xa_cache_entry. n\<lparr>last_used := t, ce_virt_address := v, ce_pid := p, ce_mach_address := m\<rparr>)"
  "keeps_links (\<lambda>n :: xa_cache_entry. n\<lparr>last_used := t, ce_pid := p, ce_mach_address := m\<rparr>)"
  "keeps_links (\<lambda>n :: xa_pid_cache_entry. n\<lparr>pce_pgd := g\<rparr>)"
  "keeps_links (\<lambda>n :: xa_pid_cache_entry. n\<lparr>last_used := t, pce_pgd := g\<rparr>)"
  by (simp_all add: keeps_links_def strip_def)

lemma strip_fields [simp]:
  "ce_symbol_name (strip e) = ce_symbol_name e" "ce_virt_address (strip e) = ce_virt_address e"
  "ce_mach_address (strip e) = ce_mach_address e" "ce_pid (strip e) = ce_pid e"
  "pce_pid (strip p) = pce_pid p" "pce_pgd (strip p) = pce_pgd p"
  by (simp_all add: strip_def)

text \<open>The entry an update appends, and the update on the sequence of entries:
  \<open>vl\<close> and \<open>ml\<close> are the page of the virtual and of the machine address,
  \<open>m\<close> the machine address of the symbol.\<close>

definition seq_entry :: "int \<Rightarrow> string option \<Rightarrow> u32 \<Rightarrow> u32 \<Rightarrow> u32 \<Rightarrow> u32 \<Rightarrow> xa_cache_entry" where
  "seq_entry t symb vl ml pid m = \<lparr>last_used = t, nxt = None, prv = None,
     ce_symbol_name = (case symb of Some s \<Rightarrow> take MAX_SYM_LEN s | None \<Rightarrow> []),
     ce_virt_address = (if symb = None then vl else 0),
     ce_mach_address = (if symb = None then ml else m), ce_pid = pid\<rparr>"

definition update_seq ::
  "int \<Rightarrow> string option \<Rightarrow> u32 \<Rightarrow> u32 \<Rightarrow> u32 \<Rightarrow> u32 \<Rightarrow> u32
    \<Rightarrow> xa_cache_entry list \<Rightarrow> xa_cache_entry list" where
  "update_seq t symb v vl ml pid m xs =
     (case (case symb of Some s \<Rightarrow> List.find (sym_match s) xs | None \<Rightarrow> None) of
        Some n \<Rightarrow> upd_first (sym_match (the symb))
          (\<lambda>n. n\<lparr>last_used := t, ce_virt_address := 0, ce_pid := pid, ce_mach_address := m\<rparr>) xs
      | None \<Rightarrow>
          if v \<noteq> 0 \<and> List.find (\<lambda>n. ce_virt_address n = vl) xs \<noteq> None
          then upd_first (\<lambda>n. ce_virt_address n = vl)
            (\<lambda>n. n\<lparr>last_used := t, ce_pid := pid, ce_mach_address := ml\<rparr>) xs
          else if symb = None \<and> v = 0 then xs
          else (if length xs < 25 then xs else drop_oldest xs) @ [seq_entry t symb vl ml pid m])"

text \<open>Nothing but the cache and the clock differs.\<close>

definition only_cache :: "xa_instance \<Rightarrow> xa_instance \<Rightarrow> bool" where
  "only_cache inst inst' \<longleftrightarrow> inst' = inst\<lparr>cache := cache inst', ticks := ticks inst'\<rparr>"

lemma only_cache_set [simp]: "only_cache inst inst" "only_cache inst (set_cache inst l)"
  by (simp_all add: only_cache_def set_cache_def)

lemma cache_set_cache [simp]: "cache (set_cache inst l) = l"
  by (simp add: set_cache_def)

lemma xa_check_cache_sym_rep:
  assumes "lru_rep (cache inst) xs"
  shows "\<exists>inst'. xa_check_cache_sym env inst s pid
      = Some (map_option ce_mach_address (List.find (sym_hit s pid) xs), inst') \<and>
    lru_rep (cache inst') (upd_first (sym_hit s pid) (\<lambda>n. n\<lparr>last_used := now env inst\<rparr>) xs) \<and>
    only_cache inst inst'"
  using assms blind_preds(2) [of s pid]
proof (cases rule: lru.search_cases)
  case miss
  then show ?thesis using assms by (simp add: xa_check_cache_sym_def upd_first_id only_cache_def)
next
  case (hit a n)
  then show ?thesis by (simp add: xa_check_cache_sym_def)
qed

lemma xa_check_cache_virt_rep:
  assumes "lru_rep (cache inst) xs" and P: "P = virt_hit (v AND NOT (page_size inst - 1)) pid"
  shows "\<exists>inst'. xa_check_cache_virt env inst v pid
      = Some (map_option (\<lambda>n. ce_mach_address n OR (v AND (page_size inst - 1))) (List.find P xs), inst') \<and>
    lru_rep (cache inst') (upd_first P (\<lambda>n. n\<lparr>last_used := now env inst\<rparr>) xs) \<and>
    only_cache inst inst'"
  using assms(1) blind_preds(3) [of "v AND NOT (page_size inst - 1)" pid] 
proof (cases rule: lru.search_cases)
  case miss
  then show ?thesis using assms by (simp add: xa_check_cache_virt_def upd_first_id only_cache_def)
next
  case (hit a n)
  then show ?thesis by (simp add: xa_check_cache_virt_def P)
qed

lemma new_cache_entry_seq:
  "symb = None \<or> sym_mach env inst v ma = Some m \<Longrightarrow> new_cache_entry env inst symb v pid ma
    = Some (seq_entry (now env inst) symb (v AND NOT (page_size inst - 1))
        (ma AND NOT (page_size inst - 1)) pid m)"
  by (cases symb) (auto simp: new_cache_entry_def seq_entry_def strndup_def)

lemma strip_seq_entry [simp]: "strip (seq_entry t symb vl ml pid m) = seq_entry t symb vl ml pid m"
  by (simp add: seq_entry_def strip_def)

text \<open>An update implements \<open>update_seq\<close>: by the branch for a symbol that is there, for a page that
  is there, and for a new entry.\<close>

abbreviation (input) update_ok :: "xa_env \<Rightarrow> xa_instance \<Rightarrow> string option \<Rightarrow> u32 \<Rightarrow> u32 \<Rightarrow> u32 \<Rightarrow> u32 \<Rightarrow> xa_cache_entry list \<Rightarrow> bool" where
  "update_ok env inst symb v pid ma m xs \<equiv>
     (\<exists>inst'. xa_update_cache env inst symb v pid ma = Some inst' \<and>
       lru_rep (cache inst') (update_seq (now env inst) symb v (v AND NOT (page_size inst - 1))
         (ma AND NOT (page_size inst - 1)) pid m xs) \<and>
       only_cache inst inst')"

lemma update_cache_symbol:
  assumes "lru_rep (cache inst) xs" "sym_mach env inst v ma = Some m" "List.find (sym_match s) xs = Some n"
  shows "update_ok env inst (Some s) v pid ma m xs"
  using assms(1) blind_preds(1)
proof (cases rule: lru.search_cases [of _ _ "sym_match s"])
  case miss
  then show ?thesis using assms(3) by simp
next
  case (hit a n')
  then show ?thesis using assms(2) hit(4) [rule_format, OF keeps_links_updates(2)]
    by (auto simp: xa_update_cache_def update_seq_def)
qed

lemma no_symbol_search:
  assumes "lru_rep (cache inst) xs" "(case symb of None \<Rightarrow> None | Some s \<Rightarrow> List.find (sym_match s) xs) = None"
  shows "(case symb of None \<Rightarrow> Some None | Some s \<Rightarrow> lru_search (sym_match s) (cache inst)) = Some None"
proof (cases symb)
  case (Some s)
  from assms(1) blind_preds(1) show ?thesis
    using assms(2) Some by (cases rule: lru.search_cases [of _ _ "sym_match s"]) simp_all
qed simp

lemma update_cache_new:
  assumes "lru_rep (cache inst) xs" "symb = None \<or> sym_mach env inst v ma = Some m"
    and "(case symb of None \<Rightarrow> None | Some s \<Rightarrow> List.find (sym_match s) xs) = None"
    and "v = 0 \<or> List.find (\<lambda>n. ce_virt_address n = v AND NOT (page_size inst - 1)) xs = None"
    and "v \<noteq> 0 \<longrightarrow> lru_search (\<lambda>n. ce_virt_address n = v AND NOT (page_size inst - 1)) (cache inst) = Some None"
  shows "update_ok env inst symb v pid ma m xs"
proof -
  let ?e = "seq_entry (now env inst) symb (v AND NOT (page_size inst - 1)) (ma AND NOT (page_size inst - 1)) pid m"
  obtain l' where l': "lru_insert 25 (cache inst) ?e = Some l'"
    "lru_rep l' ((if length xs < 25 then xs else drop_oldest xs) @ [?e])"
    using lru_insert_cap [OF assms(1) strip_seq_entry, of 25] by simp blast
  have "xa_update_cache env inst symb v pid ma = (if symb = None \<and> v = 0 then Some inst else Some (set_cache inst l'))"
    using assms(5) l'(1) new_cache_entry_seq [OF assms(2), of pid]
    by (cases "v = 0") (simp_all add: xa_update_cache_def no_symbol_search [OF assms(1,3)])
  then show ?thesis using assms(1,4) l'(2) by (auto simp: update_seq_def assms(3))
qed

lemma xa_update_cache_rep:
  assumes rep: "lru_rep (cache inst) xs" and m: "symb = None \<or> sym_mach env inst v ma = Some m"
  shows "update_ok env inst symb v pid ma m xs"
proof (cases "case symb of None \<Rightarrow> None | Some s \<Rightarrow> List.find (sym_match s) xs")
  case None
  note new = update_cache_new [OF rep m None]
  from rep blind_preds(4) show ?thesis
  proof (cases rule: lru.search_cases [of _ _ "\<lambda>n. ce_virt_address n = v AND NOT (page_size inst - 1)"])
    case miss
    then show ?thesis by (intro new) simp_all
  next
    case (hit a e)
    show ?thesis
    proof (cases "v = 0")
      case False
      then show ?thesis using hit(1-3) hit(4) [rule_format, OF keeps_links_updates(3)]
        by (simp add: xa_update_cache_def update_seq_def no_symbol_search [OF rep None] None)
    qed (intro new, simp_all)
  qed
next
  case (Some n)
  then show ?thesis using m update_cache_symbol [OF rep] by (cases symb) auto
qed

text \<open>The same read backwards: whatever an update that returned did, \<open>update_seq\<close> does.
  A symbol without a translation only gets through when its page is cached already.\<close>

lemma xa_update_cache_page_hit:
  assumes rep: "lru_rep (cache inst) xs" and m: "sym_mach env inst v ma = None"
    and u: "xa_update_cache env inst (Some s) v pid ma = Some inst'"
  shows "lru_rep (cache inst') (update_seq (now env inst) (Some s) v (v AND NOT (page_size inst - 1))
      (ma AND NOT (page_size inst - 1)) pid m' xs) \<and> only_cache inst inst'"
proof -
  let ?vl = "v AND NOT (page_size inst - 1)"
  have s: "List.find (sym_match s) xs = None \<and> lru_search (sym_match s) (cache inst) = Some None"
    using rep blind_preds(1)
    by (cases rule: lru.search_cases [of _ _ "sym_match s"]) (use m u in \<open>auto simp: xa_update_cache_def\<close>)
  have n: "new_cache_entry env inst (Some s) v pid ma = None" by (simp add: new_cache_entry_def m)
  have v: "v \<noteq> 0" using u s n by (auto simp: xa_update_cache_def)
  from rep blind_preds(4) show ?thesis
  proof (cases rule: lru.search_cases [of _ _ "\<lambda>n. ce_virt_address n = ?vl"])
    case miss
    then show ?thesis using u s n v by (simp add: xa_update_cache_def)
  next
    case (hit a e)
    then show ?thesis
      using hit(1-3) hit(4) [rule_format, OF keeps_links_updates(3)] u s v
      by (auto simp: xa_update_cache_def update_seq_def)
  qed
qed

lemma xa_update_cache_inv:
  assumes "lru_rep (cache inst) xs" "xa_update_cache env inst symb v pid ma = Some inst'"
  shows "\<exists>m. lru_rep (cache inst') (update_seq (now env inst) symb v (v AND NOT (page_size inst - 1))
      (ma AND NOT (page_size inst - 1)) pid m xs) \<and> only_cache inst inst'"
proof (cases "\<exists>m. symb = None \<or> sym_mach env inst v ma = Some m")
  case True
  then obtain m where "symb = None \<or> sym_mach env inst v ma = Some m" by blast
  from xa_update_cache_rep [OF assms(1) this, of pid] assms(2) show ?thesis by auto
next
  case False
  then obtain s where "symb = Some s" "sym_mach env inst v ma = None" by auto
  then show ?thesis using xa_update_cache_page_hit [OF assms(1)] assms(2) by blast
qed

definition cache_ok :: "xa_instance \<Rightarrow> bool" where
  "cache_ok inst \<longleftrightarrow> (\<exists>xs. lru_rep (cache inst) xs \<and> length xs \<le> 25)"

lemma length_update_seq: "length xs \<le> 25 \<Longrightarrow> length (update_seq t symb v vl ml pid m xs) \<le> 25"
  by (auto simp: update_seq_def length_drop_oldest split: option.splits)

lemma update_seq_sym_lookup:
  assumes "m \<noteq> 0" "v = 0 \<or> List.find (\<lambda>n. ce_virt_address n = vl) xs = None"
  shows "map_option ce_mach_address (List.find (sym_hit s pid) (update_seq t (Some s) v vl ml pid m xs)) = Some m"
proof (cases "List.find (sym_match s) xs")
  case None
  have "List.find (sym_hit s pid) (if length xs < 25 then xs else drop_oldest xs) = None"
    by (rule find_None_subset [OF None]) (auto simp: sym_hit_def dest: set_drop_oldest(1) [THEN subsetD])
  moreover have "sym_hit s pid (seq_entry t (Some s) vl ml pid m)"
    using assms(1) by (simp add: sym_hit_def sym_match_def seq_entry_def strncmp_eq_def)
  ultimately show ?thesis using None assms by (auto simp: update_seq_def find_append_None seq_entry_def)
next
  case (Some n)
  have "List.find (sym_hit s pid) (update_seq t (Some s) v vl ml pid m xs) = Some
      (n\<lparr>last_used := t, ce_virt_address := 0, ce_pid := pid, ce_mach_address := m\<rparr>)"
    unfolding update_seq_def using Some assms(1)
    by (simp, subst find_upd_first) (auto simp: sym_hit_def sym_match_def)
  then show ?thesis by simp
qed

lemma update_seq_virt_lookup:
  assumes "ml \<noteq> 0" "vl \<noteq> 0" "v \<noteq> 0"
  shows "map_option ce_mach_address (List.find (virt_hit vl pid) (update_seq t None v vl ml pid m xs)) = Some ml"
proof (cases "List.find (\<lambda>n. ce_virt_address n = vl) xs")
  case None
  have "List.find (virt_hit vl pid) (if length xs < 25 then xs else drop_oldest xs) = None"
    by (rule find_None_subset [OF None]) (auto simp: virt_hit_def dest: set_drop_oldest(1) [THEN subsetD])
  moreover have "virt_hit vl pid (seq_entry t None vl ml pid m)"
    using assms by (simp add: virt_hit_def seq_entry_def)
  ultimately show ?thesis using None assms by (auto simp: update_seq_def find_append_None seq_entry_def)
next
  case (Some n)
  have "List.find (virt_hit vl pid) (update_seq t None v vl ml pid m xs) = Some
      (n\<lparr>last_used := t, ce_pid := pid, ce_mach_address := ml\<rparr>)"
    unfolding update_seq_def using Some assms
    by (simp, subst find_upd_first) (auto simp: virt_hit_def)
  then show ?thesis by simp
qed


lemma strip_pid_new [simp]:
  "strip \<lparr>last_used = t, nxt = None, prv = None, pce_pid = p, pce_pgd = g\<rparr>
    = \<lparr>last_used = t, nxt = None, prv = None, pce_pid = p, pce_pgd = g\<rparr>"
  by (simp add: strip_def)

definition update_pid_seq :: "int \<Rightarrow> u32 \<Rightarrow> u32 \<Rightarrow> xa_pid_cache_entry list \<Rightarrow> xa_pid_cache_entry list" where
  "update_pid_seq t pid pgd xs =
     (if pid = 0 then xs
      else if List.find (\<lambda>n. pce_pid n = pid) xs \<noteq> None
      then upd_first (\<lambda>n. pce_pid n = pid) (\<lambda>n. n\<lparr>last_used := t, pce_pgd := pgd\<rparr>) xs
      else (if length xs < 5 then xs else drop_oldest xs) @
        [\<lparr>last_used = t, nxt = None, prv = None, pce_pid = pid, pce_pgd = pgd\<rparr>])"

definition only_pid_cache :: "xa_instance \<Rightarrow> xa_instance \<Rightarrow> bool" where
  "only_pid_cache inst inst' \<longleftrightarrow> inst' = inst\<lparr>pid_cache := pid_cache inst', ticks := ticks inst'\<rparr>"

lemma set_pid_cache_simps [simp]:
  "only_pid_cache inst inst" "only_pid_cache inst (set_pid_cache inst l)"
  "pid_cache (set_pid_cache inst l) = l"
  "(set_pid_cache inst l)\<lparr>pid_cache := l'\<rparr> = set_pid_cache inst l'"
  by (simp_all add: only_pid_cache_def set_pid_cache_def)

lemma xa_check_pid_cache_rep:
  assumes "lru_rep (pid_cache inst) xs"
  shows "\<exists>inst'. xa_check_pid_cache env inst pid
      = Some (map_option pce_pgd (List.find (\<lambda>n. pce_pid n = pid) xs), inst') \<and>
    lru_rep (pid_cache inst') (upd_first (\<lambda>n. pce_pid n = pid) (\<lambda>n. n\<lparr>last_used := now env inst\<rparr>) xs) \<and>
    only_pid_cache inst inst'"
  using assms blind_preds(5) [of pid]
proof (cases rule: lru.search_cases)
  case miss
  then show ?thesis using assms
    by (simp add: xa_check_pid_cache_def xa_check_pid_cache_helper_def upd_first_id)
next
  case (hit a n)
  then show ?thesis by (simp add: xa_check_pid_cache_def xa_check_pid_cache_helper_def)
qed

lemma xa_update_pid_cache_rep:
  assumes rep: "lru_rep (pid_cache inst) xs"
  shows "\<exists>inst'. xa_update_pid_cache env inst pid pgd = Some inst' \<and>
    lru_rep (pid_cache inst') (update_pid_seq (now env inst) pid pgd xs) \<and> only_pid_cache inst inst'"
proof (cases "pid = 0")
  case True
  then show ?thesis using rep by (simp add: xa_update_pid_cache_def update_pid_seq_def)
next
  case False
  from rep blind_preds(5) [of pid] show ?thesis
  proof (cases rule: lru.search_cases)
    case miss
    then show ?thesis using False
        lru_insert_cap [OF rep strip_pid_new, of 5 "now env inst" pid pgd]
      by (auto simp: xa_update_pid_cache_def xa_check_pid_cache_helper_def update_pid_seq_def)
  next
    case (hit a n)
    have "keeps_links (\<lambda>n :: xa_pid_cache_entry. n\<lparr>last_used := now env inst, pce_pgd := pgd\<rparr>)"
      by simp
    with hit(4) have "lru_rep (lru_set (pid_cache inst) a (n\<lparr>last_used := now env inst, pce_pgd := pgd\<rparr>))
        (upd_first (\<lambda>n. pce_pid n = pid) (\<lambda>n. n\<lparr>last_used := now env inst, pce_pgd := pgd\<rparr>) xs)" by blast
    then show ?thesis using False hit(1-3)
      by (simp add: xa_update_pid_cache_def xa_check_pid_cache_helper_def update_pid_seq_def)
  qed
qed

definition pid_cache_ok :: "xa_instance \<Rightarrow> bool" where
  "pid_cache_ok inst \<longleftrightarrow> (\<exists>xs. lru_rep (pid_cache inst) xs \<and> length xs \<le> 5 \<and>
     distinct (map pce_pid xs) \<and> 0 \<notin> pce_pid ` set xs)"

lemma length_update_pid_seq: "length xs \<le> 5 \<Longrightarrow> length (update_pid_seq t pid pgd xs) \<le> 5"
  by (simp add: update_pid_seq_def length_drop_oldest)

lemma update_pid_seq_ok:
  assumes "length xs \<le> 5" "distinct (map pce_pid xs)" "0 \<notin> pce_pid ` set xs"
  shows "length (update_pid_seq t pid pgd xs) \<le> 5" "distinct (map pce_pid (update_pid_seq t pid pgd xs))"
    "0 \<notin> pce_pid ` set (update_pid_seq t pid pgd xs)"
proof -
  show "length (update_pid_seq t pid pgd xs) \<le> 5" using assms(1) by (rule length_update_pid_seq)
  let ?P = "\<lambda>n. pce_pid n = pid"
  have n: "pid \<notin> pce_pid ` set (if length xs < 5 then xs else drop_oldest xs)"
    if "List.find ?P xs = None"
    using that set_drop_oldest(1) [of xs] by (auto simp: find_None_iff)
  have d: "distinct (map pce_pid (if length xs < 5 then xs else drop_oldest xs))"
    using assms(2) by (simp add: drop_oldest_def distinct_drop_first)
  have u: "map pce_pid (upd_first ?P (\<lambda>n. n\<lparr>last_used := t, pce_pgd := pgd\<rparr>) xs) = map pce_pid xs"
    by (rule map_upd_first_same) simp
  show "distinct (map pce_pid (update_pid_seq t pid pgd xs))"
    using n d assms(2) u by (auto simp: update_pid_seq_def)
  have "0 \<notin> set (map pce_pid (upd_first ?P (\<lambda>n. n\<lparr>last_used := t, pce_pgd := pgd\<rparr>) xs))"
    unfolding u using assms(3) by simp
  then show "0 \<notin> pce_pid ` set (update_pid_seq t pid pgd xs)"
    using assms(3) set_drop_oldest(1) [of xs] by (auto simp: update_pid_seq_def)
qed


lemma xa_destroy_cache_rep:
  assumes "lru_rep (cache inst) xs"
  shows "\<exists>inst'. xa_destroy_cache inst = Some inst' \<and> lru_rep (cache inst') [] \<and>
    inst' = inst\<lparr>cache := cache inst'\<rparr>"
  using lru_free_all_rep [OF assms] by (simp add: xa_destroy_cache_def lru_rep_def lru_ok_def)

lemma xa_destroy_pid_cache_rep:
  assumes "lru_rep (pid_cache inst) xs"
  shows "\<exists>inst'. xa_destroy_pid_cache inst = Some inst' \<and> lru_rep (pid_cache inst') [] \<and>
    inst' = inst\<lparr>pid_cache := pid_cache inst'\<rparr>"
  using lru_free_all_rep [OF assms] by (simp add: xa_destroy_pid_cache_def lru_rep_def lru_ok_def)

lemma only_cache_page_size: "only_cache inst inst' \<Longrightarrow> page_size inst' = page_size inst"
  by (auto simp: only_cache_def dest: arg_cong [of _ _ page_size])

lemma pid_cache_ok_touch:
  assumes "lru_rep (pid_cache inst) (upd_first P (\<lambda>n. n\<lparr>last_used := t\<rparr>) xs)"
    and "length xs \<le> 5" "distinct (map pce_pid xs)" "0 \<notin> pce_pid ` set xs"
  shows "pid_cache_ok inst"
proof -
  let ?f = "\<lambda>n :: xa_pid_cache_entry. n\<lparr>last_used := t\<rparr>"
  have u: "map pce_pid (upd_first P ?f xs) = map pce_pid xs" by (rule map_upd_first_same) simp
  then have "pce_pid ` set (upd_first P ?f xs) = pce_pid ` set xs" by (metis set_map)
  with u assms show ?thesis unfolding pid_cache_ok_def
    by (intro exI [of _ "upd_first P ?f xs"]) simp
qed

lemma update_pid_seq_lookup:
  assumes "pid \<noteq> 0"
  shows "map_option pce_pgd (List.find (\<lambda>n. pce_pid n = pid) (update_pid_seq t pid pgd xs)) = Some pgd"
proof (cases "List.find (\<lambda>n. pce_pid n = pid) xs")
  case None
  have "List.find (\<lambda>n. pce_pid n = pid) (if length xs < 5 then xs else drop_oldest xs) = None"
    by (rule find_None_subset [OF None]) (auto dest: set_drop_oldest(1) [THEN subsetD])
  then show ?thesis using None assms by (auto simp: update_pid_seq_def find_append_None)
next
  case (Some n)
  have "List.find (\<lambda>n. pce_pid n = pid) (update_pid_seq t pid pgd xs) = Some (n\<lparr>last_used := t, pce_pgd := pgd\<rparr>)"
    unfolding update_pid_seq_def using Some assms by (simp, subst find_upd_first) auto
  then show ?thesis by simp
qed

section \<open>What the caches promise\<close>

lemma sym_mach_cases: "symb = None \<or> ma \<noteq> 0 \<or> xa_translate_kv2p env inst v \<noteq> None \<Longrightarrow>
    \<exists>m. symb = None \<or> sym_mach env inst v ma = Some m"
  by (auto simp: sym_mach_def)

text \<open>(C14) On a well-formed cache \<open>xa_update_cache\<close> always returns (unless it has to
  translate the address of a symbol and the page tables cannot be read), and what its pointer
  manipulation does to the linked list is the update of the sequence of entries described by
  \<open>update_seq\<close>: refresh the first entry with that symbol, else the first entry for that
  page, else append, after removing the least recently used of 25 entries. Nothing of the instance
  but the cache and the clock changes.\<close>

theorem xa_update_cache_refines:
  assumes "lru_rep (cache inst) xs" and "symb = None \<or> sym_mach env inst v ma = Some m"
  shows "\<exists>inst'. xa_update_cache env inst symb v pid ma = Some inst' \<and>
    lru_rep (cache inst') (update_seq (now env inst) symb v (v AND NOT (page_size inst - 1))
      (ma AND NOT (page_size inst - 1)) pid m xs) \<and>
    only_cache inst inst'"
  using assms by (rule xa_update_cache_rep)

theorem xa_update_cache_refines_witness:
  "\<exists>inst'. xa_update_cache no_env std_inst (Some ''init_task'') 0xC0000000 0 0x1000 = Some inst' \<and>
    lru_rep (cache inst') (update_seq (now no_env std_inst) (Some ''init_task'')
      0xC0000000 (0xC0000000 AND NOT (page_size std_inst - 1))
      (0x1000 AND NOT (page_size std_inst - 1)) 0 0x1000 []) \<and>
    only_cache std_inst inst'"
  by (rule xa_update_cache_refines) (simp_all add: sym_mach_def)

text \<open>The cache never grows beyond \<open>XA_CACHE_SIZE\<close> entries and stays a
  well-formed doubly linked list whose size field counts its cells, whatever update is made.\<close>

theorem xa_update_cache_bounded:
  assumes "cache_ok inst" and "symb = None \<or> ma \<noteq> 0 \<or> xa_translate_kv2p env inst v \<noteq> None"
  shows "\<exists>inst'. xa_update_cache env inst symb v pid ma = Some inst' \<and> cache_ok inst' \<and>
    l_size (cache inst') \<le> XA_CACHE_SIZE"
proof -
  obtain xs where rep: "lru_rep (cache inst) xs" and len: "length xs \<le> 25"
    using assms(1) by (auto simp: cache_ok_def)
  obtain m where "symb = None \<or> sym_mach env inst v ma = Some m"
    using sym_mach_cases [OF assms(2)] by auto
  from xa_update_cache_rep [OF rep this, of pid] obtain inst' ys where
    u: "xa_update_cache env inst symb v pid ma = Some inst'" "lru_rep (cache inst') ys" "length ys \<le> 25"
    using length_update_seq [OF len] by blast
  from lru_size_rep [OF u(2)] u show ?thesis unfolding cache_ok_def by auto
qed

theorem xa_update_cache_bounded_witness:
  "\<exists>inst'. xa_update_cache no_env std_inst None 0x1000 0 0x2000 = Some inst' \<and>
    cache_ok inst' \<and> l_size (cache inst') \<le> XA_CACHE_SIZE"
  by (rule xa_update_cache_bounded) (auto simp: cache_ok_def intro!: exI [of _ "[]"])

text \<open>A symbol that has been entered is found again, with its machine address, by the next
  \<open>xa_check_cache_sym\<close> for the same symbol and pid; when a virtual address was passed
  along, this needs that the page has no entry of its own yet.\<close>

theorem xa_update_cache_sym_lookup:
  assumes "lru_rep (cache inst) xs" "ma \<noteq> 0"
    and "v = 0 \<or> List.find (\<lambda>n. ce_virt_address n = v AND NOT (page_size inst - 1)) xs = None"
  shows "\<exists>inst' inst''. xa_update_cache env inst (Some s) v pid ma = Some inst' \<and>
    xa_check_cache_sym env' inst' s pid = Some (Some ma, inst'')"
proof -
  have m: "Some s = None \<or> sym_mach env inst v ma = Some ma" using assms(2) by (simp add: sym_mach_def)
  let ?ys = "update_seq (now env inst) (Some s) v (v AND NOT (page_size inst - 1))
      (ma AND NOT (page_size inst - 1)) pid ma xs"
  obtain inst' where u: "xa_update_cache env inst (Some s) v pid ma = Some inst'" "lru_rep (cache inst') ?ys"
    using xa_update_cache_rep [OF assms(1) m, of pid] by auto
  from xa_check_cache_sym_rep [OF u(2), of env' s pid] u(1) show ?thesis
    unfolding update_seq_sym_lookup [OF assms(2,3)] by auto
qed

theorem xa_update_cache_sym_lookup_witness:
  "\<exists>inst' inst''. xa_update_cache no_env std_inst (Some ''init_task'') 0xC0001234 0 0x1234 = Some inst' \<and>
    xa_check_cache_sym no_env inst' ''init_task'' 0 = Some (Some 0x1234, inst'')"
  by (rule xa_update_cache_sym_lookup [of _ "[]"]) simp_all

text \<open>An address of a page that has been entered is found again for the same pid, with the
  machine address of that page and the offset of the address asked for. This needs a page other
  than page 0.\<close>

theorem xa_update_cache_virt_lookup:
  assumes "lru_rep (cache inst) xs"
    and "v AND NOT (page_size inst - 1) \<noteq> 0" "ma AND NOT (page_size inst - 1) \<noteq> 0"
    and "u AND NOT (page_size inst - 1) = v AND NOT (page_size inst - 1)"
  shows "\<exists>inst' inst''. xa_update_cache env inst None v pid ma = Some inst' \<and>
    xa_check_cache_virt env' inst' u pid =
      Some (Some ((ma AND NOT (page_size inst - 1)) OR (u AND (page_size inst - 1))), inst'')"
proof -
  let ?ys = "update_seq (now env inst) None v (v AND NOT (page_size inst - 1))
      (ma AND NOT (page_size inst - 1)) pid 0 xs"
  obtain inst' where u: "xa_update_cache env inst None v pid ma = Some inst'"
    and ys: "lru_rep (cache inst') ?ys" and "only_cache inst inst'"
    using xa_update_cache_rep [OF assms(1), of None env v ma 0 pid] by auto
  then have ps: "page_size inst' = page_size inst" by (simp add: only_cache_page_size)
  have "v \<noteq> 0" using assms(2) by auto
  from update_seq_virt_lookup [OF assms(3,2) this, of pid "now env inst" 0 xs]
    xa_check_cache_virt_rep [OF ys refl, of env' u pid] u
  show ?thesis unfolding ps assms(4) by auto
qed

theorem xa_update_cache_virt_lookup_witness:
  "\<exists>inst' inst''. xa_update_cache no_env std_inst None 0xC0001234 0 0x5234 = Some inst' \<and>
    xa_check_cache_virt no_env inst' 0xC0001FFF 0 =
      Some (Some ((0x5234 AND NOT (page_size std_inst - 1)) OR (0xC0001FFF AND (page_size std_inst - 1))), inst'')"
  by (rule xa_update_cache_virt_lookup [of _ "[]"]) simp_all


text \<open>When the cache is full and neither the symbol nor the page has an entry, exactly one entry
  is evicted, one that no other entry is older than, and the new entry is appended at the end.\<close>

theorem xa_update_cache_evicts_oldest:
  assumes "lru_rep (cache inst) xs" "length xs = 25" "v \<noteq> 0"
    and "List.find (\<lambda>n. ce_virt_address n = v AND NOT (page_size inst - 1)) xs = None"
  shows "\<exists>inst' ys e zs. xa_update_cache env inst None v pid ma = Some inst' \<and> xs = ys @ e # zs \<and>
    (\<forall>x\<in>set xs. last_used e \<le> last_used x) \<and>
    lru_rep (cache inst') (ys @ zs @ [seq_entry (now env inst) None (v AND NOT (page_size inst - 1))
      (ma AND NOT (page_size inst - 1)) pid 0])"
proof -
  obtain ys e zs where x: "xs = ys @ e # zs" "\<forall>x\<in>set xs. last_used e \<le> last_used x" "drop_oldest xs = ys @ zs"
    using drop_oldest_eq [of xs] assms(2) by fastforce
  have "update_seq (now env inst) None v (v AND NOT (page_size inst - 1)) (ma AND NOT (page_size inst - 1)) pid 0 xs
    = ys @ zs @ [seq_entry (now env inst) None (v AND NOT (page_size inst - 1)) (ma AND NOT (page_size inst - 1)) pid 0]"
    using assms(2-4) x(3) by (simp add: update_seq_def)
  with xa_update_cache_rep [OF assms(1), of None env v ma 0 pid] x(1,2) show ?thesis by fastforce
qed

definition old_entries :: "xa_cache_entry list" where
  "old_entries = map (\<lambda>i. seq_entry (int i) (Some (replicate (Suc i) (CHR 0x61))) 0 0 0 0x1000) [0..<25]"

lemma old_entries_facts: "length old_entries = 25"
  "List.find (\<lambda>n. ce_virt_address n = 0xC0000000) old_entries = None" "\<forall>x\<in>set old_entries. strip x = x"
  by (simp_all only: old_entries_def length_map length_upt find_None_iff)
    (auto simp: seq_entry_def strip_def)

theorem xa_update_cache_evicts_oldest_witness:
  "\<exists>inst inst' ys e zs. lru_rep (cache inst) old_entries \<and>
    xa_update_cache no_env inst None 0xC0000000 0 0x1000 = Some inst' \<and> old_entries = ys @ e # zs \<and>
    (\<forall>x\<in>set old_entries. last_used e \<le> last_used x)"
proof -
  obtain l where l: "lru_rep l old_entries"
    using lru_rep_exists [OF old_entries_facts(3)] by auto
  let ?inst = "std_inst\<lparr>cache := l\<rparr>"
  have r: "lru_rep (cache ?inst) old_entries" using l by simp
  have v: "0xC0000000 AND NOT (page_size ?inst - 1) = (0xC0000000 :: u32)" by simp
  have f: "List.find (\<lambda>n. ce_virt_address n = 0xC0000000 AND NOT (page_size ?inst - 1)) old_entries = None"
    unfolding v by (rule old_entries_facts(2))
  have "(0xC0000000 :: u32) \<noteq> 0" by simp
  from xa_update_cache_evicts_oldest [OF r old_entries_facts(1) this f, of no_env 0 "0x1000"] r
  show ?thesis by blast
qed




text \<open>\<open>xa_destroy_cache\<close> frees every entry and leaves an empty cache; no cell stays
  allocated.\<close>

theorem xa_destroy_cache_empties:
  assumes "cache_ok inst"
  shows "\<exists>inst'. xa_destroy_cache inst = Some inst' \<and> lru_rep (cache inst') [] \<and>
    l_heap (cache inst') = Map.empty \<and> inst' = inst\<lparr>cache := cache inst'\<rparr>"
proof -
  from assms obtain xs where "lru_rep (cache inst) xs" by (auto simp: cache_ok_def)
  from xa_destroy_cache_rep [OF this] lru_rep_empty show ?thesis by auto
qed

theorem xa_destroy_cache_empties_witness:
  "\<exists>inst'. xa_destroy_cache std_inst = Some inst' \<and> lru_rep (cache inst') [] \<and>
    l_heap (cache inst') = Map.empty \<and> inst' = std_inst\<lparr>cache := cache inst'\<rparr>"
  by (rule xa_destroy_cache_empties) (auto simp: cache_ok_def intro!: exI [of _ "[]"])

text \<open>(C15) Updating the pid cache always returns, keeps the list well formed with at most
  \<open>XA_PID_CACHE_SIZE\<close> entries, at most one for each pid and none for pid 0, and the next
  lookup of that pid gives the page directory just entered.\<close>

theorem xa_update_pid_cache_lookup:
  assumes "pid_cache_ok inst" "pid \<noteq> 0"
  shows "\<exists>inst' inst''. xa_update_pid_cache env inst pid pgd = Some inst' \<and> pid_cache_ok inst' \<and>
    xa_check_pid_cache env' inst' pid = Some (Some pgd, inst'') \<and> pid_cache_ok inst''"
proof -
  from assms(1) obtain xs where rep: "lru_rep (pid_cache inst) xs" and
    ok: "length xs \<le> 5" "distinct (map pce_pid xs)" "0 \<notin> pce_pid ` set xs"
    by (auto simp: pid_cache_ok_def)
  let ?ys = "update_pid_seq (now env inst) pid pgd xs"
  obtain inst' where u: "xa_update_pid_cache env inst pid pgd = Some inst'" "lru_rep (pid_cache inst') ?ys"
    using xa_update_pid_cache_rep [OF rep, of env pid pgd] by auto
  note ok' = update_pid_seq_ok [OF ok, of "now env inst" pid pgd]
  obtain inst'' where c: "xa_check_pid_cache env' inst' pid
      = Some (map_option pce_pgd (List.find (\<lambda>n. pce_pid n = pid) ?ys), inst'')"
    "lru_rep (pid_cache inst'') (upd_first (\<lambda>n. pce_pid n = pid) (\<lambda>n. n\<lparr>last_used := now env' inst'\<rparr>) ?ys)"
    using xa_check_pid_cache_rep [OF u(2), of env' pid] by auto
  have "pid_cache_ok inst'" using u(2) ok' by (auto simp: pid_cache_ok_def)
  moreover have "pid_cache_ok inst''" by (rule pid_cache_ok_touch [OF c(2) ok'])
  ultimately show ?thesis using u(1) c(1) update_pid_seq_lookup [OF assms(2)] by auto
qed

theorem xa_update_pid_cache_lookup_witness:
  "\<exists>inst' inst''. xa_update_pid_cache no_env std_inst 42 0x9000 = Some inst' \<and> pid_cache_ok inst' \<and>
    xa_check_pid_cache no_env inst' 42 = Some (Some 0x9000, inst'') \<and> pid_cache_ok inst''"
  by (rule xa_update_pid_cache_lookup) (auto simp: pid_cache_ok_def intro!: exI [of _ "[]"])

end
