(* ===== verification/Xa_Access.thy ===== *)
theory Xa_Access
  imports Xa_Cache
begin

text \<open>
  Access by kernel virtual address and the walk of the guest's process list, the parts of
  \<open>xa_memory.c\<close>, \<open>xa_util.c\<close>, \<open>linux_memory.c\<close> and
  \<open>windows_memory.c\<close> that need no page directory of a process.

  In C \<open>xa_access_kernel_va\<close> is \<open>xa_access_user_va\<close> with pid 0, and the
  latter calls \<open>linux_pid_to_pgd\<close>, which calls the former. Here the common body is
  \<open>access_va\<close>, with the translation it uses on a cache miss as a parameter; the
  kernel access is its instance for pid 0, and \<open>Xa_Memory\<close> defines the user access
  on top of it.
\<close>

section \<open>Access through the cache\<close>

definition access_va ::
  "(xa_instance \<Rightarrow> (u32 \<times> xa_instance) option) \<Rightarrow> xa_env \<Rightarrow> xa_instance \<Rightarrow> u32 \<Rightarrow> u32 \<Rightarrow> u32
    \<Rightarrow> ((mapping \<times> u32) option \<times> xa_instance) option" where
  "access_va translate env inst virt_address pid prot = do {
     (hit, inst1) \<leftarrow> xa_check_cache_virt env inst virt_address pid;
     (case hit of
        Some address \<Rightarrow> Some (xa_access_ma env inst1 address prot, inst1)
      | None \<Rightarrow> do {
          (address, inst2) \<leftarrow> translate inst1;
          if address = 0 then Some (None, inst2)
          else do {
            inst3 \<leftarrow> xa_update_cache env inst2 None virt_address pid address;
            Some (xa_access_ma env inst3 address prot, inst3) } }) }"

text \<open>The translation for pid 0: the page tables of the current \<open>cr3\<close>.\<close>

definition kernel_translate :: "xa_env \<Rightarrow> u32 \<Rightarrow> xa_instance \<Rightarrow> (u32 \<times> xa_instance) option" where
  "kernel_translate env virt_address inst =
     (let cr3 = snd (xa_current_cr3 env inst 0) in do {
     address \<leftarrow> xa_pagetable_lookup env inst cr3 virt_address;
     Some (address, inst) })"

definition xa_access_kernel_va ::
  "xa_env \<Rightarrow> xa_instance \<Rightarrow> u32 \<Rightarrow> u32 \<Rightarrow> ((mapping \<times> u32) option \<times> xa_instance) option" where
  "xa_access_kernel_va env inst virt_address prot =
     access_va (kernel_translate env virt_address) env inst virt_address 0 prot"

text \<open>\<open>*(uint32_t *)(memory + offset)\<close> of a mapping that may be NULL.\<close>

definition read_mapped :: "nat \<Rightarrow> (mapping \<times> u32) option \<times> xa_instance
    \<Rightarrow> ('a::len word xa_ret \<times> xa_instance) option" where
  "read_mapped n r = (case fst r of
     Some (memory, offset) \<Rightarrow>
       do { v \<leftarrow> rd n (map_bytes memory) (unat offset); Some (XA_SUCCESS v, snd r) }
   | None \<Rightarrow> Some (XA_FAILURE, snd r))"

text \<open>\<open>xa_read_long_virt\<close> with pid 0.\<close>

definition read_long_kernel_va ::
  "xa_env \<Rightarrow> xa_instance \<Rightarrow> u32 \<Rightarrow> (u32 xa_ret \<times> xa_instance) option" where
  "read_long_kernel_va env inst vaddr = do {
     r \<leftarrow> xa_access_kernel_va env inst vaddr PROT_READ; read_mapped 4 r }"

section \<open>The process list\<close>

text \<open>A load at \<open>memory + offset + a - b\<close>, where \<open>a\<close> and \<open>b\<close>
  are signed structure offsets.\<close>

definition rd_rel :: "u8 list \<Rightarrow> u32 \<Rightarrow> u32 \<Rightarrow> u32 \<Rightarrow> u32 option" where
  "rd_rel bs offset a b =
     (let i = int (unat offset) + sint a - sint b in if i < 0 then None else rd32 bs (nat i))"

text \<open>The loop that \<open>linux_get_taskstruct\<close> and \<open>windows_get_EPROCESS\<close> share
  but for the offsets they read from the instance.\<close>

partial_function (option) task_walk ::
  "xa_env \<Rightarrow> u32 \<Rightarrow> u32 \<Rightarrow> u32 \<Rightarrow> u32 \<Rightarrow> u32 \<Rightarrow> xa_instance
    \<Rightarrow> ((mapping \<times> u32) option \<times> xa_instance) option" where
  "task_walk env pid_offset tasks_offset pid list_head next_process inst = do {
     (m, inst1) \<leftarrow> xa_access_kernel_va env inst next_process PROT_READ;
     (case m of
        None \<Rightarrow> Some (None, inst1)
      | Some (memory, offset) \<Rightarrow> do {
          next1 \<leftarrow> rd32 (map_bytes memory) (unat offset);
          if list_head = next1 then Some (None, inst1)
          else do {
            task_pid \<leftarrow> rd_rel (map_bytes memory) offset pid_offset tasks_offset;
            if task_pid = pid then Some (Some (memory, offset), inst1)
            else task_walk env pid_offset tasks_offset pid list_head next1 inst1 } }) }"

declare task_walk.simps [code]

section \<open>The caches do not show\<close>

text \<open>The part of an instance that no operation changes once it is initialised. Beside the caches and the
  clock, an operation may load the frame table of a paravirtualised guest and predict the path of the
  System.map.\<close>

definition fixed :: "xa_instance \<Rightarrow> xa_instance" where
  "fixed inst = inst\<lparr>cache := lru_init, pid_cache := lru_init, ticks := 0, sysmap := None,
     m_xen := (m_xen inst)\<lparr>live_pfn_to_mfn_table := None, nr_pfns := 0\<rparr>\<rparr>"

lemma fixed_updates [simp]:
  "fixed (inst\<lparr>cache := c\<rparr>) = fixed inst" "fixed (inst\<lparr>pid_cache := p\<rparr>) = fixed inst"
  "fixed (inst\<lparr>ticks := t\<rparr>) = fixed inst" "fixed (inst\<lparr>sysmap := s\<rparr>) = fixed inst"
  "fixed (inst\<lparr>m_xen := (m_xen inst)\<lparr>live_pfn_to_mfn_table := tb, nr_pfns := n\<rparr>\<rparr>) = fixed inst"
  "fixed (set_cache inst c) = fixed inst" "fixed (set_pid_cache inst p) = fixed inst"
  by (simp_all add: fixed_def set_cache_def set_pid_cache_def)

lemma fixed_fields:
  assumes "fixed inst' = fixed inst"
  shows "mode inst' = mode inst" "error_mode inst' = error_mode inst" "page_offset inst' = page_offset inst"
    "page_shift inst' = page_shift inst" "page_size inst' = page_size inst" "kpgd inst' = kpgd inst"
    "init_task inst' = init_task inst" "os_type inst' = os_type inst" "hvm inst' = hvm inst"
    "pae inst' = pae inst" "linux_inst inst' = linux_inst inst" "windows_inst inst' = windows_inst inst"
    "m_file inst' = m_file inst" "domain_id (m_xen inst') = domain_id (m_xen inst)"
  using assms [THEN arg_cong [where f = mode]] assms [THEN arg_cong [where f = error_mode]]
    assms [THEN arg_cong [where f = page_offset]] assms [THEN arg_cong [where f = page_shift]]
    assms [THEN arg_cong [where f = page_size]] assms [THEN arg_cong [where f = kpgd]]
    assms [THEN arg_cong [where f = init_task]] assms [THEN arg_cong [where f = os_type]]
    assms [THEN arg_cong [where f = hvm]] assms [THEN arg_cong [where f = pae]]
    assms [THEN arg_cong [where f = linux_inst]] assms [THEN arg_cong [where f = windows_inst]]
    assms [THEN arg_cong [where f = m_file]] assms [THEN arg_cong [where f = "\<lambda>i. domain_id (m_xen i)"]]
  by (simp_all add: fixed_def)

text \<open>Two instances of the same guest.\<close>

definition same_guest :: "xa_instance \<Rightarrow> xa_instance \<Rightarrow> bool" where
  "same_guest inst inst' \<longleftrightarrow> fixed inst' = fixed inst"

lemma same_guest_refl [simp]: "same_guest inst inst"
  by (simp add: same_guest_def)

lemmas same_guest_fields = fixed_fields [OF same_guest_def [THEN iffD1]]

lemma same_guest_trans: "same_guest a b \<Longrightarrow> same_guest b c \<Longrightarrow> same_guest a c"
  by (simp add: same_guest_def)

lemma same_guest_back: "same_guest a b \<Longrightarrow> same_guest a c \<Longrightarrow> same_guest b c"
  by (simp add: same_guest_def)

lemma only_cache_pid_cache: "only_cache inst inst' \<Longrightarrow> pid_cache inst' = pid_cache inst"
  by (subst only_cache_def [THEN iffD1]) (assumption, simp)

lemma only_cache_same_guest: "only_cache inst inst' \<Longrightarrow> same_guest inst inst'"
  unfolding only_cache_def same_guest_def by (metis fixed_updates(1,3))

lemma only_pid_cache_same_guest: "only_pid_cache inst inst' \<Longrightarrow> same_guest inst inst'"
  unfolding only_pid_cache_def same_guest_def by (metis fixed_updates(2,3))

lemma same_guest_map:
  assumes "same_guest inst inst'"
  shows "xa_map_page env inst' = xa_map_page env inst" "xa_access_ma env inst' = xa_access_ma env inst"
    "xa_read_long_mach env inst' = xa_read_long_mach env inst"
    "xa_read_long_long_mach env inst' = xa_read_long_long_mach env inst"
  unfolding xa_map_page_def xa_map_file_range_def xa_access_ma_def xa_mmap_mfn_def
      xa_read_long_mach_def xa_read_long_long_mach_def same_guest_fields [OF assms] by (rule refl)+

lemma same_guest_walk:
  assumes "same_guest inst inst'"
  shows "xa_pagetable_lookup env inst' = xa_pagetable_lookup env inst"
    "xa_current_cr3 env inst' = xa_current_cr3 env inst"
    "xa_translate_kv2p env inst' = xa_translate_kv2p env inst"
proof -
  show l: "xa_pagetable_lookup env inst' = xa_pagetable_lookup env inst"
    by (intro ext, unfold xa_pagetable_lookup_def v2p_pae_def v2p_nopae_def get_pdpi_def get_pgd_pae_def
      get_pte_pae_def get_pgd_nopae_def get_pte_nopae_def pgd_index_def pte_index_def get_large_paddr_def
      same_guest_map [OF assms] same_guest_fields [OF assms], rule refl)
  show c: "xa_current_cr3 env inst' = xa_current_cr3 env inst"
    by (intro ext, unfold xa_current_cr3_def same_guest_fields [OF assms], rule refl)
  show "xa_translate_kv2p env inst' = xa_translate_kv2p env inst"
    by (intro ext, simp add: xa_translate_kv2p_def l c)
qed

text \<open>What an access to kernel memory means, with no cache in sight.\<close>

definition kernel_va_spec :: "xa_env \<Rightarrow> xa_instance \<Rightarrow> u32 \<Rightarrow> u32 \<Rightarrow> (mapping \<times> u32) option option" where
  "kernel_va_spec env inst v prot = do {
     a \<leftarrow> xa_translate_kv2p env inst v;
     Some (if a = 0 then None else xa_access_ma env inst a prot) }"

lemma same_guest_spec: "same_guest inst inst' \<Longrightarrow> kernel_va_spec env inst' = kernel_va_spec env inst"
  by (intro ext, unfold kernel_va_spec_def same_guest_walk same_guest_map, rule refl)

definition kernel_long_spec :: "xa_env \<Rightarrow> xa_instance \<Rightarrow> u32 \<Rightarrow> u32 xa_ret option" where
  "kernel_long_spec env inst v = do {
     r \<leftarrow> kernel_va_spec env inst v PROT_READ;
     (case r of
        Some (memory, offset) \<Rightarrow> do { w \<leftarrow> rd32 (map_bytes memory) (unat offset); Some (XA_SUCCESS w) }
      | None \<Rightarrow> Some XA_FAILURE) }"

text \<open>An entry for a page holds its translation; \<open>tr\<close> is the translation for the pid of
  the entry. Entries with a zero address are never used.\<close>

definition entry_coherent :: "(u32 \<Rightarrow> u32 \<Rightarrow> u32 option) \<Rightarrow> xa_cache_entry \<Rightarrow> bool" where
  "entry_coherent tr e \<longleftrightarrow> ce_virt_address e \<noteq> 0 \<and> ce_mach_address e \<noteq> 0 \<longrightarrow>
     (\<forall>v. v AND NOT 0xFFF = ce_virt_address e \<longrightarrow>
        tr (ce_pid e) v = Some (ce_mach_address e OR (v AND 0xFFF)))"

definition va_coherent :: "(u32 \<Rightarrow> u32 \<Rightarrow> u32 option) \<Rightarrow> xa_instance \<Rightarrow> bool" where
  "va_coherent tr inst \<longleftrightarrow> page_size inst = 4096 \<and>
     (\<exists>xs. lru_rep (cache inst) xs \<and> length xs \<le> 25 \<and> (\<forall>e\<in>set xs. entry_coherent tr e))"

lemma page_masks: "page_size inst = 4096 \<Longrightarrow> page_size inst - 1 = 0xFFF"
  by simp

lemma entry_coherent_touch [simp]: "entry_coherent tr (e\<lparr>last_used := t\<rparr>) = entry_coherent tr e"
  by (simp add: entry_coherent_def)

lemma upd_first_all:
  assumes "\<forall>x\<in>set xs. Q x" "\<And>x. Q x \<Longrightarrow> P x \<Longrightarrow> Q (f x)"
  shows "\<forall>x\<in>set (upd_first P f xs). Q x"
  using assms by (induction xs) auto

lemma va_coherent_hit:
  assumes "va_coherent tr inst"
  shows "\<exists>hit inst'. xa_check_cache_virt env inst v pid = Some (hit, inst') \<and>
    va_coherent tr inst' \<and> only_cache inst inst' \<and> (\<forall>a. hit = Some a \<longrightarrow> tr pid v = Some a \<and> a \<noteq> 0)"
proof -
  obtain xs where ps: "page_size inst = 4096" and rep: "lru_rep (cache inst) xs" and len: "length xs \<le> 25"
    and coh: "\<forall>e\<in>set xs. entry_coherent tr e" using assms by (auto simp: va_coherent_def)
  let ?P = "virt_hit (v AND NOT (page_size inst - 1)) pid"
  let ?f = "\<lambda>n :: xa_cache_entry. n\<lparr>last_used := now env inst\<rparr>"
  obtain inst' where c: "xa_check_cache_virt env inst v pid
      = Some (map_option (\<lambda>n. ce_mach_address n OR (v AND (page_size inst - 1))) (List.find ?P xs), inst')"
    and rep': "lru_rep (cache inst') (upd_first ?P ?f xs)" and o: "only_cache inst inst'"
    using xa_check_cache_virt_rep [OF rep refl, of env v pid] by auto
  have "\<forall>e\<in>set (upd_first ?P ?f xs). entry_coherent tr e"
    by (rule upd_first_all [OF coh]) simp
  with rep' len have "va_coherent tr inst'"
    using ps only_cache_page_size [OF o] by (auto simp: va_coherent_def)
  moreover have "tr pid v = Some (ce_mach_address n OR (v AND (page_size inst - 1))) \<and>
      ce_mach_address n OR (v AND (page_size inst - 1)) \<noteq> 0" if "List.find ?P xs = Some n" for n
  proof -
    from that have n: "n \<in> set xs" "?P n" by (auto simp: find_Some_iff)
    then have "entry_coherent tr n" using coh by blast
    with n(2) show ?thesis unfolding virt_hit_def entry_coherent_def page_masks [OF ps]
      by (auto simp: or_eq_0_iff)
  qed
  ultimately show ?thesis using c o by auto
qed

lemma entry_coherent_new:
  assumes "\<And>u. u AND NOT 0xFFF = v AND NOT 0xFFF \<Longrightarrow> tr pid u = Some ((a AND NOT 0xFFF) OR (u AND 0xFFF))"
    and "ce_virt_address e = v AND NOT 0xFFF" "ce_pid e = pid" "ce_mach_address e = a AND NOT 0xFFF"
  shows "entry_coherent tr e"
  using assms by (simp add: entry_coherent_def)

lemma va_coherent_update:
  assumes "va_coherent tr inst"
    and "\<And>u. u AND NOT 0xFFF = v AND NOT 0xFFF \<Longrightarrow> tr pid u = Some ((a AND NOT 0xFFF) OR (u AND 0xFFF))"
  shows "\<exists>inst'. xa_update_cache env inst None v pid a = Some inst' \<and> va_coherent tr inst' \<and> only_cache inst inst'"
proof -
  obtain xs where ps: "page_size inst = 4096" and rep: "lru_rep (cache inst) xs" and len: "length xs \<le> 25"
    and coh: "\<forall>e\<in>set xs. entry_coherent tr e" using assms(1) by (auto simp: va_coherent_def)
  let ?ys = "update_seq (now env inst) None v (v AND NOT 0xFFF) (a AND NOT 0xFFF) pid 0 xs"
  obtain inst' where u: "xa_update_cache env inst None v pid a = Some inst'"
    and rep': "lru_rep (cache inst') ?ys" and o: "only_cache inst inst'"
    using xa_update_cache_rep [OF rep, of None env v a 0 pid] unfolding page_masks [OF ps] by auto
  have new: "entry_coherent tr (seq_entry (now env inst) None (v AND NOT 0xFFF) (a AND NOT 0xFFF) pid 0)"
    by (rule entry_coherent_new [where v = v and a = a and pid = pid], erule assms(2))
      (simp_all add: seq_entry_def)
  have upd: "\<forall>e\<in>set (upd_first (\<lambda>n. ce_virt_address n = v AND NOT 0xFFF)
      (\<lambda>n. n\<lparr>last_used := now env inst, ce_pid := pid, ce_mach_address := a AND NOT 0xFFF\<rparr>) xs). entry_coherent tr e"
    by (rule upd_first_all [OF coh], rule entry_coherent_new [where v = v and a = a and pid = pid],
        erule assms(2)) simp_all
  have "\<forall>e\<in>set ?ys. entry_coherent tr e"
    using coh new upd set_drop_oldest(1) [of xs] by (auto simp: update_seq_def)
  with rep' length_update_seq [OF len] have "va_coherent tr inst'"
    unfolding va_coherent_def using ps only_cache_page_size [OF o] by auto
  with u o show ?thesis by blast
qed

text \<open>Entering a symbol never spoils a page: it clears the address of the entry it takes over.\<close>

lemma va_coherent_update_sym:
  assumes "va_coherent tr inst" "xa_update_cache env inst (Some s) v pid 0 = Some inst'"
  shows "va_coherent tr inst' \<and> only_cache inst inst'"
proof -
  obtain xs where ps: "page_size inst = 4096" and rep: "lru_rep (cache inst) xs" and len: "length xs \<le> 25"
    and coh: "\<forall>e\<in>set xs. entry_coherent tr e" using assms(1) by (auto simp: va_coherent_def)
  obtain m where u: "lru_rep (cache inst') (update_seq (now env inst) (Some s) v (v AND NOT (page_size inst - 1)) 0 pid m xs)"
      "only_cache inst inst'"
    using xa_update_cache_inv [OF rep assms(2)] by auto
  have "\<forall>e\<in>set (upd_first P (\<lambda>n. n\<lparr>last_used := t, ce_virt_address := 0, ce_pid := pid, ce_mach_address := m\<rparr>) xs).
      entry_coherent tr e" for P t
    by (rule upd_first_all [OF coh]) (simp add: entry_coherent_def)
  moreover have "\<forall>e\<in>set (upd_first P (\<lambda>n. n\<lparr>last_used := t, ce_pid := pid, ce_mach_address := 0\<rparr>) xs).
      entry_coherent tr e" for P t
    by (rule upd_first_all [OF coh]) (simp add: entry_coherent_def)
  moreover have "entry_coherent tr (seq_entry t (Some s) vl 0 pid m)" for t vl
    by (simp add: entry_coherent_def seq_entry_def)
  ultimately have "\<forall>e\<in>set (update_seq (now env inst) (Some s) v (v AND NOT (page_size inst - 1)) 0 pid m xs).
      entry_coherent tr e"
    using coh set_drop_oldest(1) [of xs] by (auto simp: update_seq_def split: option.splits)
  with u length_update_seq [OF len] show ?thesis
    unfolding va_coherent_def using ps only_cache_page_size [OF u(2)] by auto
qed

lemma va_coherent_check_sym:
  assumes "va_coherent tr inst" "xa_check_cache_sym env inst s pid = Some (hit, inst')"
  shows "va_coherent tr inst' \<and> only_cache inst inst'"
proof -
  obtain xs where ps: "page_size inst = 4096" and rep: "lru_rep (cache inst) xs" and len: "length xs \<le> 25"
    and coh: "\<forall>e\<in>set xs. entry_coherent tr e" using assms(1) by (auto simp: va_coherent_def)
  have c: "lru_rep (cache inst') (upd_first (sym_hit s pid) (\<lambda>n. n\<lparr>last_used := now env inst\<rparr>) xs)"
      "only_cache inst inst'"
    using xa_check_cache_sym_rep [OF rep, of env s pid] assms(2) by auto
  have "\<forall>e\<in>set (upd_first (sym_hit s pid) (\<lambda>n. n\<lparr>last_used := now env inst\<rparr>) xs). entry_coherent tr e"
    by (rule upd_first_all [OF coh]) simp
  with c len show ?thesis
    unfolding va_coherent_def using ps only_cache_page_size [OF c(2)] by auto
qed

lemma lookup_page:
  assumes "xa_pagetable_lookup env inst c v = Some p" "p \<noteq> 0" "u AND NOT 0xFFF = v AND NOT 0xFFF"
  shows "xa_pagetable_lookup env inst c u = Some ((p AND NOT 0xFFF) OR (u AND 0xFFF))"
proof -
  have m: "(0xFFFFF000 :: u32) = NOT 0xFFF" by simp
  show ?thesis by (rule lookup_same_page(1) [OF assms(1,2), unfolded m]) (rule assms(3) [symmetric])
qed

text \<open>Access through a coherent cache is access by translation, for any translation that maps whole
  pages.\<close>

locale paged_translation =
  fixes tr :: "u32 \<Rightarrow> u32 \<Rightarrow> u32 option" and pid :: u32
  assumes same_page: "tr pid v = Some a \<Longrightarrow> a \<noteq> 0 \<Longrightarrow> u AND NOT 0xFFF = v AND NOT 0xFFF \<Longrightarrow>
    tr pid u = Some ((a AND NOT 0xFFF) OR (u AND 0xFFF))"
begin

lemma access_va_miss:
  assumes miss: "xa_check_cache_virt env inst v pid = Some (None, inst1)" "same_guest inst inst1"
    and t: "map_option fst (translate inst1) = tr pid v"
      "\<forall>a inst2. translate inst1 = Some (a, inst2) \<longrightarrow> va_coherent tr inst2 \<and> same_guest inst1 inst2 \<and> J (pid_cache inst2)"
  shows "map_option fst (access_va translate env inst v pid prot)
      = map_option (\<lambda>a. if a = 0 then None else xa_access_ma env inst a prot) (tr pid v) \<and>
    (\<forall>r inst'. access_va translate env inst v pid prot = Some (r, inst') \<longrightarrow>
      va_coherent tr inst' \<and> same_guest inst inst' \<and> J (pid_cache inst'))"
proof (cases "translate inst1")
  case None
  then show ?thesis using t(1) miss(1) by (simp add: access_va_def)
next
  case (Some p)
  then obtain a inst2 where p: "translate inst1 = Some (a, inst2)" by (cases p) auto
  then have tr: "tr pid v = Some a" "va_coherent tr inst2" "same_guest inst1 inst2" "J (pid_cache inst2)"
    using t by auto
  note sg = same_guest_trans [OF miss(2) tr(3)]
  show ?thesis
  proof (cases "a = 0")
    case True
    then show ?thesis using miss(1) p tr sg by (simp add: access_va_def)
  next
    case False
    obtain inst3 where u: "xa_update_cache env inst2 None v pid a = Some inst3"
      "va_coherent tr inst3" "only_cache inst2 inst3"
      using va_coherent_update [OF tr(2) same_page [OF tr(1) False]] by blast
    have "same_guest inst inst3" by (rule same_guest_trans [OF sg only_cache_same_guest [OF u(3)]])
    moreover have "J (pid_cache inst3)" using tr(4) only_cache_pid_cache [OF u(3)] by simp
    ultimately show ?thesis using miss(1) p tr(1) u False by (simp add: access_va_def same_guest_map)
  qed
qed

lemma access_va_spec:
  assumes coh: "va_coherent tr inst"
    and J: "J (pid_cache inst)"
    and translate: "\<And>inst1. va_coherent tr inst1 \<Longrightarrow> only_cache inst inst1 \<Longrightarrow> J (pid_cache inst1) \<Longrightarrow>
      map_option fst (translate inst1) = tr pid v \<and>
      (\<forall>a inst2. translate inst1 = Some (a, inst2) \<longrightarrow>
        va_coherent tr inst2 \<and> same_guest inst1 inst2 \<and> J (pid_cache inst2))"
  shows "map_option fst (access_va translate env inst v pid prot)
    = map_option (\<lambda>a. if a = 0 then None else xa_access_ma env inst a prot) (tr pid v)"
    and "access_va translate env inst v pid prot = Some (r, inst') \<Longrightarrow>
      va_coherent tr inst' \<and> same_guest inst inst' \<and> J (pid_cache inst')"
proof -
  obtain hit inst1 where c: "xa_check_cache_virt env inst v pid = Some (hit, inst1)"
    "va_coherent tr inst1" "only_cache inst inst1" "\<And>a. hit = Some a \<Longrightarrow> tr pid v = Some a \<and> a \<noteq> 0"
    using va_coherent_hit [OF coh, of env v pid] by auto
  note sg = only_cache_same_guest [OF c(3)]
  have J1: "J (pid_cache inst1)" using J only_cache_pid_cache [OF c(3)] by simp
  have "map_option fst (access_va translate env inst v pid prot)
      = map_option (\<lambda>a. if a = 0 then None else xa_access_ma env inst a prot) (tr pid v) \<and>
    (\<forall>r inst'. access_va translate env inst v pid prot = Some (r, inst') \<longrightarrow>
      va_coherent tr inst' \<and> same_guest inst inst' \<and> J (pid_cache inst'))"
  proof (cases hit)
    case None
    show ?thesis using translate [OF c(2,3) J1] by (intro access_va_miss [OF c(1) [unfolded None] sg]) blast+
  next
    case (Some a)
    then show ?thesis using c sg J1 by (simp add: access_va_def same_guest_map)
  qed
  then show "map_option fst (access_va translate env inst v pid prot)
      = map_option (\<lambda>a. if a = 0 then None else xa_access_ma env inst a prot) (tr pid v)"
    and "access_va translate env inst v pid prot = Some (r, inst') \<Longrightarrow>
      va_coherent tr inst' \<and> same_guest inst inst' \<and> J (pid_cache inst')"
    by blast+
qed

end


text \<open>The translations of a guest: \<open>cr3\<close> for pid 0, and for any other pid the page
  directory that \<open>g\<close> gives, where directory 0 stands for a process that was not found.
  \<open>g\<close> is a parameter here; \<open>Xa_Memory\<close> puts in the directories the guest's
  process list leads to.\<close>

definition guest_tr :: "xa_env \<Rightarrow> xa_instance \<Rightarrow> (u32 \<Rightarrow> u32 option) \<Rightarrow> u32 \<Rightarrow> u32 \<Rightarrow> u32 option" where
  "guest_tr env inst g pid v =
     (if pid = 0 then xa_translate_kv2p env inst v
      else do { pgd \<leftarrow> g pid; if pgd = 0 then Some 0 else xa_pagetable_lookup env inst pgd v })"

interpretation guest: paged_translation "guest_tr env inst g" pid for env inst g pid
proof
  fix v a u
  assume "guest_tr env inst g pid v = Some a" "a \<noteq> 0" "u AND NOT 0xFFF = v AND NOT 0xFFF"
  then show "guest_tr env inst g pid u = Some ((a AND NOT 0xFFF) OR (u AND 0xFFF))"
    unfolding guest_tr_def xa_translate_kv2p_def
    by (auto simp: lookup_page [simplified] split: if_splits bind_splits)
qed

lemma kernel_translate_tr:
  "map_option fst (kernel_translate env v inst) = guest_tr env inst g 0 v"
  "kernel_translate env v inst = Some (a, inst') \<Longrightarrow> inst' = inst"
  by (auto simp: kernel_translate_def guest_tr_def xa_translate_kv2p_def Let_def map_option_bind comp_def
      bind_eq_Some_conv)

lemma same_guest_tr: "same_guest inst inst' \<Longrightarrow> guest_tr env inst' g = guest_tr env inst g"
  by (intro ext, unfold guest_tr_def same_guest_walk, rule refl)

text \<open>A pid that is cached has the page directory that \<open>g\<close> gives. An instance is
  coherent when both caches tell the truth about the guest of \<open>inst0\<close>.\<close>

definition pid_coherent :: "(u32 \<Rightarrow> u32 option) \<Rightarrow> xa_pid_cache_entry lru \<Rightarrow> bool" where
  "pid_coherent g l \<longleftrightarrow>
     (\<exists>ys. lru_rep l ys \<and> length ys \<le> 5 \<and> (\<forall>e\<in>set ys. g (pce_pid e) = Some (pce_pgd e)))"

definition guest_coherent :: "xa_env \<Rightarrow> xa_instance \<Rightarrow> (u32 \<Rightarrow> u32 option) \<Rightarrow> xa_instance \<Rightarrow> bool" where
  "guest_coherent env inst0 g inst \<longleftrightarrow> same_guest inst0 inst \<and>
     va_coherent (guest_tr env inst0 g) inst \<and> pid_coherent g (pid_cache inst)"

lemma xa_access_kernel_va_coherent:
  assumes "guest_coherent env inst0 g inst"
  shows "map_option fst (xa_access_kernel_va env inst v prot) = kernel_va_spec env inst0 v prot"
    and "xa_access_kernel_va env inst v prot = Some (r, inst') \<Longrightarrow> guest_coherent env inst0 g inst'"
proof -
  let ?tr = "guest_tr env inst0 g"
  have sg: "same_guest inst0 inst" and va: "va_coherent ?tr inst" and pc: "pid_coherent g (pid_cache inst)"
    using assms by (simp_all add: guest_coherent_def)
  have t: "map_option fst (kernel_translate env v inst1) = ?tr 0 v \<and>
      (\<forall>a inst2. kernel_translate env v inst1 = Some (a, inst2) \<longrightarrow>
        va_coherent ?tr inst2 \<and> same_guest inst1 inst2 \<and> pid_coherent g (pid_cache inst2))"
    if "va_coherent ?tr inst1" "only_cache inst inst1" "pid_coherent g (pid_cache inst1)" for inst1
  proof -
    have "same_guest inst0 inst1" by (rule same_guest_trans [OF sg only_cache_same_guest [OF that(2)]])
    then show ?thesis
      using kernel_translate_tr(1) [of env v inst1 g] kernel_translate_tr(2) [of env v inst1] that(1,3)
      by (auto simp: same_guest_tr)
  qed
  note a = guest.access_va_spec [where J = "pid_coherent g", OF va pc t]
  have "map_option fst (access_va (kernel_translate env v) env inst v 0 prot)
    = map_option (\<lambda>a. if a = 0 then None else xa_access_ma env inst a prot) (?tr 0 v)"
    by (rule a(1)) simp_all
  then show "map_option fst (xa_access_kernel_va env inst v prot) = kernel_va_spec env inst0 v prot"
    unfolding xa_access_kernel_va_def kernel_va_spec_def same_guest_map [OF sg]
    by (simp add: guest_tr_def map_conv_bind_option comp_def)
  assume "xa_access_kernel_va env inst v prot = Some (r, inst')"
  then have "va_coherent ?tr inst' \<and> same_guest inst inst' \<and> pid_coherent g (pid_cache inst')"
    unfolding xa_access_kernel_va_def by (intro a(2)) simp_all
  then show "guest_coherent env inst0 g inst'"
    using same_guest_trans [OF sg] by (auto simp: guest_coherent_def)
qed

text \<open>The walk of the process list on the guest's memory alone.\<close>

partial_function (option) task_walk_spec ::
  "xa_env \<Rightarrow> xa_instance \<Rightarrow> u32 \<Rightarrow> u32 \<Rightarrow> u32 \<Rightarrow> u32 \<Rightarrow> u32 \<Rightarrow> (mapping \<times> u32) option option" where
  "task_walk_spec env inst pid_offset tasks_offset pid list_head next_process = do {
     m \<leftarrow> kernel_va_spec env inst next_process PROT_READ;
     (case m of
        None \<Rightarrow> Some None
      | Some (memory, offset) \<Rightarrow> do {
          next1 \<leftarrow> rd32 (map_bytes memory) (unat offset);
          if list_head = next1 then Some None
          else do {
            task_pid \<leftarrow> rd_rel (map_bytes memory) offset pid_offset tasks_offset;
            if task_pid = pid then Some (Some (memory, offset))
            else task_walk_spec env inst pid_offset tasks_offset pid list_head next1 } }) }"

declare task_walk_spec.simps [code]

lemma access_kernel_cases:
  assumes "guest_coherent env inst0 g inst"
  obtains "xa_access_kernel_va env inst v prot = None" "kernel_va_spec env inst0 v prot = None"
  | m inst' where "xa_access_kernel_va env inst v prot = Some (m, inst')"
      "kernel_va_spec env inst0 v prot = Some m"
      "guest_coherent env inst0 g inst'"
proof (cases "xa_access_kernel_va env inst v prot")
  case None
  then show thesis using xa_access_kernel_va_coherent(1) [OF assms, of v prot] that(1) by simp
next
  case (Some p)
  then obtain m inst' where "xa_access_kernel_va env inst v prot = Some (m, inst')" by (cases p) auto
  then show thesis using xa_access_kernel_va_coherent [OF assms, of v prot] that(2) by auto
qed

lemma task_walk_sound:
  assumes "task_walk env po to pid lh nx inst = Some y"
  shows "guest_coherent env inst0 g inst \<longrightarrow>
    task_walk_spec env inst0 po to pid lh nx = Some (fst y) \<and>
    guest_coherent env inst0 g (snd y)"
  using assms
proof (rule task_walk.raw_induct [rotated, where P = "\<lambda>env po to pid lh nx inst y.
    guest_coherent env inst0 g inst \<longrightarrow>
    task_walk_spec env inst0 po to pid lh nx = Some (fst y) \<and>
    guest_coherent env inst0 g (snd y)"])
  fix f env po to pid lh nx inst y
  assume IH: "\<And>env po to pid lh nx inst y. f env po to pid lh nx inst = Some y \<Longrightarrow>
      guest_coherent env inst0 g inst \<longrightarrow>
      task_walk_spec env inst0 po to pid lh nx = Some (fst y) \<and>
      guest_coherent env inst0 g (snd y)"
  assume run: "xa_access_kernel_va env inst nx PROT_READ \<bind>
      (\<lambda>(m, inst1). case m of None \<Rightarrow> Some (None, inst1)
         | Some (memory, offset) \<Rightarrow> rd32 (map_bytes memory) (unat offset) \<bind>
             (\<lambda>next1. if lh = next1 then Some (None, inst1)
                else rd_rel (map_bytes memory) offset po to \<bind>
                  (\<lambda>task_pid. if task_pid = pid then Some (Some (memory, offset), inst1)
                     else f env po to pid lh next1 inst1))) = Some y"
  show "guest_coherent env inst0 g inst \<longrightarrow>
      task_walk_spec env inst0 po to pid lh nx = Some (fst y) \<and>
      guest_coherent env inst0 g (snd y)"
  proof (intro impI)
    assume "guest_coherent env inst0 g inst"
    then show "task_walk_spec env inst0 po to pid lh nx = Some (fst y) \<and>
      guest_coherent env inst0 g (snd y)"
    proof (cases rule: access_kernel_cases [of _ _ _ _ nx PROT_READ])
      case 1
      then show ?thesis using run by simp
    next
      case (2 m inst')
      then show ?thesis using run IH [of env po to pid lh _ inst' y]
        by (subst task_walk_spec.simps)
          (auto split: option.splits if_splits Option.bind_split_asm)
    qed
  qed
qed

lemma task_walk_complete:
  assumes "task_walk_spec env inst0 po to pid lh nx = Some r"
  shows "\<forall>inst. guest_coherent env inst0 g inst \<longrightarrow>
    (\<exists>inst'. task_walk env po to pid lh nx inst = Some (r, inst'))"
  using assms
proof (rule task_walk_spec.raw_induct [rotated, where P = "\<lambda>env inst0 po to pid lh nx r.
    \<forall>inst. guest_coherent env inst0 g inst \<longrightarrow>
    (\<exists>inst'. task_walk env po to pid lh nx inst = Some (r, inst'))"])
  fix f env inst0 po to pid lh nx r
  assume IH: "\<And>env inst0 po to pid lh nx r. f env inst0 po to pid lh nx = Some r \<Longrightarrow>
      \<forall>inst. guest_coherent env inst0 g inst \<longrightarrow>
      (\<exists>inst'. task_walk env po to pid lh nx inst = Some (r, inst'))"
  assume run: "kernel_va_spec env inst0 nx PROT_READ \<bind>
      (\<lambda>m. case m of None \<Rightarrow> Some None
         | Some (memory, offset) \<Rightarrow> rd32 (map_bytes memory) (unat offset) \<bind>
             (\<lambda>next1. if lh = next1 then Some None
                else rd_rel (map_bytes memory) offset po to \<bind>
                  (\<lambda>task_pid. if task_pid = pid then Some (Some (memory, offset))
                     else f env inst0 po to pid lh next1))) = Some r"
  show "\<forall>inst. guest_coherent env inst0 g inst \<longrightarrow>
      (\<exists>inst'. task_walk env po to pid lh nx inst = Some (r, inst'))"
  proof (intro allI impI)
    fix inst
    assume "guest_coherent env inst0 g inst"
    then show "\<exists>inst'. task_walk env po to pid lh nx inst = Some (r, inst')"
    proof (cases rule: access_kernel_cases [of _ _ _ _ nx PROT_READ])
      case 1
      then show ?thesis using run by simp
    next
      case (2 m inst')
      then show ?thesis using run IH [of env inst0 po to pid lh _ r]
        by (subst task_walk.simps)
          (auto split: option.splits if_splits Option.bind_split_asm)
    qed
  qed
qed

lemma task_walk_cases:
  assumes "guest_coherent env inst0 g inst"
  obtains "task_walk env po to pid lh nx inst = None" "task_walk_spec env inst0 po to pid lh nx = None"
  | m inst' where "task_walk env po to pid lh nx inst = Some (m, inst')"
      "task_walk_spec env inst0 po to pid lh nx = Some m" "guest_coherent env inst0 g inst'"
proof (cases "task_walk env po to pid lh nx inst")
  case None
  then have "task_walk_spec env inst0 po to pid lh nx = None"
    using task_walk_complete assms by (metis not_None_eq option.distinct(1))
  with None show thesis by (rule that(1))
next
  case (Some y)
  then show thesis
    using task_walk_sound [OF Some, of inst0 g] assms by (cases y) (auto intro: that(2))
qed

lemma read_long_kernel_va_cases:
  assumes "guest_coherent env inst0 g inst"
  obtains "read_long_kernel_va env inst v = None" "kernel_long_spec env inst0 v = None"
  | r inst' where "read_long_kernel_va env inst v = Some (r, inst')" "kernel_long_spec env inst0 v = Some r"
      "guest_coherent env inst0 g inst'"
  using assms
proof (cases rule: access_kernel_cases [of _ _ _ _ v PROT_READ])
  case 1
  then show thesis by (intro that(1)) (simp_all add: read_long_kernel_va_def kernel_long_spec_def)
next
  case (2 m inst')
  show thesis
  proof (cases m)
    case None
    with 2 show thesis
      by (intro that(2)) (simp_all add: read_long_kernel_va_def kernel_long_spec_def read_mapped_def)
  next
    case (Some mo)
    then obtain memory offset where m: "m = Some (memory, offset)" by (cases mo) auto
    show thesis
      by (cases "rd32 (map_bytes memory) (unat offset)" rule: option.exhaust)
        (use 2 m in \<open>auto simp: read_long_kernel_va_def kernel_long_spec_def read_mapped_def intro: that\<close>)
  qed
qed

section \<open>Circular process lists\<close>

text \<open>\<open>task_list env inst po to lh ts\<close>: in the guest's memory the entries
  \<open>ts\<close>, each an address with the pid stored there, are linked in this order and the
  last one links back to \<open>lh\<close>.\<close>

fun task_list :: "xa_env \<Rightarrow> xa_instance \<Rightarrow> u32 \<Rightarrow> u32 \<Rightarrow> u32 \<Rightarrow> (u32 \<times> u32) list \<Rightarrow> bool" where
  "task_list env inst po to lh [] \<longleftrightarrow> True"
| "task_list env inst po to lh ((a, p) # ts) \<longleftrightarrow>
     (\<exists>m off. kernel_va_spec env inst a PROT_READ = Some (Some (m, off)) \<and>
        rd32 (map_bytes m) (unat off) = Some (case ts of [] \<Rightarrow> lh | t # ts' \<Rightarrow> fst t) \<and>
        rd_rel (map_bytes m) off po to = Some p) \<and>
     (\<forall>t ts'. ts = t # ts' \<longrightarrow> fst t \<noteq> lh) \<and> task_list env inst po to lh ts"

lemma task_walk_spec_list:
  assumes "task_list env inst po to lh ts" "ts \<noteq> []"
  shows "task_walk_spec env inst po to pid lh (fst (hd ts)) =
    (case List.find (\<lambda>t. snd t = pid) (butlast ts) of
       None \<Rightarrow> Some None | Some t \<Rightarrow> kernel_va_spec env inst (fst t) PROT_READ)"
  using assms
proof (induction ts)
  case (Cons t ts)
  obtain a p where t: "t = (a, p)" by (cases t)
  show ?case
  proof (cases ts)
    case Nil
    with Cons.prems t show ?thesis by (auto simp: task_walk_spec.simps [of _ _ _ _ _ _ a])
  next
    case (Cons t' ts')
    with Cons.prems Cons.IH t show ?thesis by (auto simp: task_walk_spec.simps [of _ _ _ _ _ _ a])
  qed
qed simp

lemma task_list_mapped:
  "task_list env inst po to lh ts \<Longrightarrow> t \<in> set ts \<Longrightarrow> \<exists>m off. kernel_va_spec env inst (fst t) PROT_READ = Some (Some (m, off))"
  by (induction ts) auto

lemma task_walk_list:
  assumes "guest_coherent env inst0 g inst" "task_list env inst0 po to lh ts" "ts \<noteq> []"
  shows "map_option fst (task_walk env po to pid lh (fst (hd ts)) inst) =
    (case List.find (\<lambda>t. snd t = pid) (butlast ts) of
       None \<Rightarrow> Some None | Some t \<Rightarrow> kernel_va_spec env inst0 (fst t) PROT_READ)"
proof -
  let ?r = "case List.find (\<lambda>t. snd t = pid) (butlast ts) of
       None \<Rightarrow> Some None | Some t \<Rightarrow> kernel_va_spec env inst0 (fst t) PROT_READ"
  have "\<exists>r. ?r = Some r"
  proof (cases "List.find (\<lambda>t. snd t = pid) (butlast ts)")
    case (Some t)
    then have "t \<in> set (butlast ts)" by (auto simp: find_Some_iff)
    from task_list_mapped [OF assms(2) in_set_butlastD [OF this]] Some show ?thesis by auto
  qed simp
  then obtain r where r: "?r = Some r" by blast
  then have "task_walk_spec env inst0 po to pid lh (fst (hd ts)) = Some r"
    by (simp only: task_walk_spec_list [OF assms(2,3)])
  then obtain inst' where "task_walk env po to pid lh (fst (hd ts)) inst = Some (r, inst')"
    using task_walk_complete assms(1) by blast
  then show ?thesis using r by simp
qed

end
