(* ===== verification/Xa_Symbols.thy ===== *)
theory Xa_Symbols
  imports Xa_Types
begin

text \<open>
  Names and symbols of a Linux guest: the row search of \<open>xa_symbols.c\<close>, the System.map
  lookup of \<open>linux_symbols.c\<close>, the prediction of the System.map name in
  \<open>linux_domain_info.c\<close> and the XenStore queries of \<open>xa_domain_info.c\<close>.

  A text file is its list of characters. The row buffer is a list of \<open>char option\<close>,
  \<open>None\<close> for a byte \<open>malloc\<close> has handed out and nobody has written yet;
  reading such a byte, or one past the end, is undefined. A string written by
  \<open>sprintf\<close> into a buffer of 100 bytes must leave room for the NUL.
\<close>

section \<open>Rows of a text file\<close>

abbreviation (input) MAX_ROW_LENGTH :: nat where "MAX_ROW_LENGTH \<equiv> 200"

definition isspace :: "char \<Rightarrow> bool" where
  "isspace c \<longleftrightarrow> c \<in> {CHR '' '', CHR 0x09, CHR 0x0A, CHR 0x0B, CHR 0x0C, CHR 0x0D}"

abbreviation (input) NUL :: char where "NUL \<equiv> CHR 0x00"

text \<open>The characters \<open>fgets\<close> takes, at most \<open>n\<close> and up to a newline, and
  what it leaves.\<close>

fun fgets_line :: "nat \<Rightarrow> string \<Rightarrow> string \<times> string" where
  "fgets_line 0 s = ([], s)"
| "fgets_line (Suc n) [] = ([], [])"
| "fgets_line (Suc n) (c # s) =
     (if c = CHR 0x0A then ([c], s) else (let (l, r) = fgets_line n s in (c # l, r)))"

type_synonym row = "char option list"

definition fill_row :: "string \<Rightarrow> row \<Rightarrow> row" where
  "fill_row l row = map Some l @ Some NUL # drop (Suc (length l)) row"

definition row_at :: "row \<Rightarrow> nat \<Rightarrow> char option" where
  "row_at row i = (if i < length row then row ! i else None)"

text \<open>\<open>while (isspace(row[curpos])) { row[curpos] = '\0'; ++curpos; }\<close>\<close>

function blank_spaces :: "row \<Rightarrow> nat \<Rightarrow> (row \<times> nat) option" where
  "blank_spaces row curpos = do {
     c \<leftarrow> row_at row curpos;
     if isspace c then blank_spaces (row[curpos := Some NUL]) (Suc curpos)
     else Some (row, curpos) }"
  by pat_completeness auto
termination
  by (relation "measure (\<lambda>(row, curpos). length row - curpos)")
    (auto simp: row_at_def split: if_splits)

declare blank_spaces.simps [simp del]

text \<open>The loop that looks for the token at \<open>position\<close>.\<close>

function find_token :: "row \<Rightarrow> nat \<Rightarrow> nat \<Rightarrow> (row \<times> nat \<times> nat) option" where
  "find_token row curpos position =
     (if 0 < position \<and> curpos < MAX_ROW_LENGTH then do {
        c \<leftarrow> row_at row curpos;
        if isspace c then do {
          (row', curpos') \<leftarrow> blank_spaces row curpos;
          find_token row' curpos' (position - 1) }
        else find_token row (Suc curpos) position }
      else Some (row, curpos, position))"
  by pat_completeness auto
termination
  by (relation "measures [\<lambda>(row, curpos, position). position,
      \<lambda>(row, curpos, position). MAX_ROW_LENGTH - curpos]") auto

declare find_token.simps [simp del]

text \<open>The loop that ends the token.\<close>

function end_token :: "row \<Rightarrow> nat \<Rightarrow> row option" where
  "end_token row curpos =
     (if curpos < MAX_ROW_LENGTH then do {
        c \<leftarrow> row_at row curpos;
        if isspace c then Some (row[curpos := Some NUL]) else end_token row (Suc curpos) }
      else Some row)"
  by pat_completeness auto
termination
  by (relation "measure (\<lambda>(row, curpos). MAX_ROW_LENGTH - curpos)") auto

declare end_token.simps [simp del]

text \<open>\<open>strncmp(row + i, s, n) == 0\<close>\<close>

fun strncmp_row :: "row \<Rightarrow> nat \<Rightarrow> string \<Rightarrow> nat \<Rightarrow> bool option" where
  "strncmp_row row i s 0 = Some True"
| "strncmp_row row i s (Suc n) = do {
     c \<leftarrow> row_at row i;
     let d = (case s of [] \<Rightarrow> NUL | x # s' \<Rightarrow> x);
     if c \<noteq> d then Some False
     else if c = NUL then Some True
     else strncmp_row row (Suc i) (tl s) n }"

lemma fgets_line_length: "snd (fgets_line n s) = drop (length (fst (fgets_line n s))) s"
  "s \<noteq> [] \<Longrightarrow> 0 < n \<Longrightarrow> 0 < length (fst (fgets_line n s))"
  by (induction n s rule: fgets_line.induct) (auto split: prod.splits)

text \<open>The result is the row with its tokens cut out, or failure, which leaves the row cleared.\<close>

function get_symbol_row :: "string \<Rightarrow> row \<Rightarrow> string \<Rightarrow> nat \<Rightarrow> row xa_ret option" where
  "get_symbol_row f row symbol position =
     (if f = [] then Some XA_FAILURE
      else (let line = fst (fgets_line (MAX_ROW_LENGTH - 1) f);
                rest = snd (fgets_line (MAX_ROW_LENGTH - 1) f)
        in do {
          (row1, token, position_copy) \<leftarrow> find_token (fill_row line row) 0 position;
          if position_copy = 0 then do {
            row2 \<leftarrow> end_token row1 token;
            eq \<leftarrow> strncmp_row row2 token symbol MAX_ROW_LENGTH;
            if eq then Some (XA_SUCCESS row2) else get_symbol_row rest row2 symbol position }
          else Some XA_FAILURE }))"
  by pat_completeness auto
termination
proof (relation "measure (\<lambda>(f, row, symbol, position). length f)")
  fix f :: string and row line rest x row1 y token position_copy row2 eq symbol position
  assume "f \<noteq> []" "rest = snd (fgets_line (MAX_ROW_LENGTH - 1) f)"
  then show "((rest, row2, symbol, position), f, row, symbol, position)
      \<in> measure (\<lambda>(f, row, symbol, position). length f)"
    using fgets_line_length(2) [of f "MAX_ROW_LENGTH - 1"] by (simp add: fgets_line_length(1))
qed simp

declare get_symbol_row.simps [simp del]

section \<open>Numbers in text\<close>

definition digit_val :: "char \<Rightarrow> nat option" where
  "digit_val c = (let n = of_char c in
     if 48 \<le> n \<and> n \<le> 57 then Some (n - 48)
     else if 97 \<le> n \<and> n \<le> 102 then Some (n - 87)
     else if 65 \<le> n \<and> n \<le> 70 then Some (n - 55)
     else None)"

definition is_digit :: "nat \<Rightarrow> char \<Rightarrow> bool" where
  "is_digit base c \<longleftrightarrow> (case digit_val c of Some d \<Rightarrow> d < base | None \<Rightarrow> False)"

definition digits_val :: "nat \<Rightarrow> string \<Rightarrow> nat" where
  "digits_val base s = foldl (\<lambda>a c. a * base + the (digit_val c)) 0 (takeWhile (is_digit base) s)"

text \<open>\<open>strtoul(s, NULL, 16)\<close> with a 32-bit \<open>unsigned long\<close>: white space, a
  sign, an optional \<open>0x\<close>, digits; too large a value gives \<open>ULONG_MAX\<close>.\<close>

definition strip_sign :: "string \<Rightarrow> bool \<times> string" where
  "strip_sign s = (case s of c # t \<Rightarrow>
       if c = CHR ''-'' then (True, t) else if c = CHR ''+'' then (False, t) else (False, s)
     | [] \<Rightarrow> (False, s))"

definition strip_0x :: "string \<Rightarrow> string" where
  "strip_0x s = (case s of z # x # d # t \<Rightarrow>
       if z = CHR ''0'' \<and> (x = CHR ''x'' \<or> x = CHR ''X'') \<and> is_digit 16 d then d # t else s
     | _ \<Rightarrow> s)"

definition strtoul16 :: "string \<Rightarrow> u32" where
  "strtoul16 s =
     (let (neg, t) = strip_sign (dropWhile isspace s); n = digits_val 16 (strip_0x t)
      in if 2 ^ 32 \<le> n then -1 else if neg then - of_nat n else of_nat n)"

text \<open>\<open>atoi\<close> and \<open>strtol(s, NULL, 10)\<close>; out of range of a \<open>long\<close> they
  saturate.\<close>

definition strtol10 :: "string \<Rightarrow> int" where
  "strtol10 s =
     (let (neg, t) = strip_sign (dropWhile isspace s); n = int (digits_val 10 t)
      in if neg then max (- n) (- (2 ^ 31)) else min n (2 ^ 31 - 1))"

text \<open>\<open>%d\<close>\<close>

fun nat_str :: "nat \<Rightarrow> string" where
  "nat_str n = (if n < 10 then [char_of (48 + n)] else nat_str (n div 10) @ [char_of (48 + n mod 10)])"

definition int_str :: "int \<Rightarrow> string" where
  "int_str i = (if i < 0 then CHR ''-'' # nat_str (nat (- i)) else nat_str (nat i))"

definition sprintf100 :: "string \<Rightarrow> string option" where
  "sprintf100 s = (if length s < 100 then Some s else None)"

section \<open>The XenStore\<close>

text \<open>A domain id is printed with \<open>%d\<close>. The result \<open>Some None\<close> is NULL;
  \<open>sprintf\<close> of a NULL string is undefined.\<close>

definition xa_get_vmpath :: "xa_env \<Rightarrow> u32 \<Rightarrow> string option option" where
  "xa_get_vmpath env domid = do {
     tmp \<leftarrow> sprintf100 (''/local/domain/'' @ int_str (sint domid) @ ''/vm'');
     Some (xs_read env tmp) }"

definition xa_get_kernel_name :: "xa_env \<Rightarrow> u32 \<Rightarrow> string option option" where
  "xa_get_kernel_name env domid = do {
     vmpath \<leftarrow> xa_get_vmpath env domid;
     p \<leftarrow> vmpath;
     tmp \<leftarrow> sprintf100 (p @ ''/image/kernel'');
     Some (xs_read env tmp) }"

text \<open>\<open>fnmatch("*t", s, 0) == 0\<close>\<close>

definition ends_with :: "string \<Rightarrow> string \<Rightarrow> bool" where
  "ends_with t s \<longleftrightarrow> length t \<le> length s \<and> drop (length s - length t) s = t"

definition xa_ishvm :: "xa_env \<Rightarrow> u32 \<Rightarrow> bool option" where
  "xa_ishvm env domid = do {
     vmpath \<leftarrow> xa_get_vmpath env domid;
     p \<leftarrow> vmpath;
     tmp \<leftarrow> sprintf100 (p @ ''/image/kernel'');
     if (case xs_read env tmp of None \<Rightarrow> False | Some ostype \<Rightarrow> ends_with ''hvmloader'' ostype)
     then Some True
     else do {
       tmp2 \<leftarrow> sprintf100 (p @ ''/image/ostype'');
       Some (case xs_read env tmp2 of None \<Rightarrow> False | Some ostype \<Rightarrow> ends_with ''hvm'' ostype) } }"

fun find_domain :: "xa_env \<Rightarrow> string \<Rightarrow> string list \<Rightarrow> u32 option" where
  "find_domain env name [] = Some 0"
| "find_domain env name (idStr # domains) = do {
     tmp \<leftarrow> sprintf100 (''/local/domain/'' @ idStr @ ''/name'');
     nameCandidate \<leftarrow> xs_read env tmp;
     if strncmp_eq 100 name nameCandidate then Some (word_of_int (strtol10 idStr))
     else find_domain env name domains }"

definition xa_get_domain_id :: "xa_env \<Rightarrow> string \<Rightarrow> u32 option" where
  "xa_get_domain_id env name = find_domain env name (xs_directory env ''/local/domain'')"

section \<open>System.map\<close>

text \<open>The copy loop of \<open>linux_predict_sysmap_name\<close> on what is left of the kernel name.
  Its bound is 4 past the end of the name, so a name without \<open>vmlinu\<close> makes it read
  beyond the terminating NUL; so does a name that ends in \<open>vmlinu\<close>.\<close>

fun sysmap_of_kernel :: "string \<Rightarrow> string option" where
  "sysmap_of_kernel [] = None"
| "sysmap_of_kernel (c # s) =
     (if take 6 (c # s) = ''vmlinu'' then
        (if 7 \<le> length (c # s) then Some (''System.map'' @ drop 7 (c # s)) else None)
      else do { t \<leftarrow> sysmap_of_kernel s; Some (c # t) })"

definition linux_predict_sysmap_name :: "xa_env \<Rightarrow> u32 \<Rightarrow> string option option" where
  "linux_predict_sysmap_name env domid = do {
     kernel \<leftarrow> xa_get_kernel_name env domid;
     (case kernel of
        None \<Rightarrow> Some None
      | Some k \<Rightarrow>
          if k = ''/usr/lib/xen/boot/hvmloader'' then Some None
          else do { s \<leftarrow> sysmap_of_kernel k; Some (Some s) }) }"

text \<open>The C string at the start of the row.\<close>

fun row_string :: "row \<Rightarrow> string option" where
  "row_string [] = None"
| "row_string (c # row) = do { x \<leftarrow> c;
     if x = NUL then Some [] else do { s \<leftarrow> row_string row; Some (x # s) } }"

definition linux_system_map_symbol_to_address ::
  "xa_env \<Rightarrow> xa_instance \<Rightarrow> string \<Rightarrow> (u32 xa_ret \<times> xa_instance) option" where
  "linux_system_map_symbol_to_address env inst symbol = do {
     inst1 \<leftarrow> (if sysmap inst = None \<or> sysmap inst = Some ''''
               then do { s \<leftarrow> linux_predict_sysmap_name env (domain_id (m_xen inst));
                         Some (inst\<lparr>sysmap := s\<rparr>) }
               else Some inst);
     path \<leftarrow> sysmap inst1;
     (case fopen_text env path of
        None \<Rightarrow> Some (XA_FAILURE, inst1)
      | Some f \<Rightarrow> do {
          r \<leftarrow> get_symbol_row f (replicate MAX_ROW_LENGTH None) symbol 2;
          (case r of
             XA_FAILURE \<Rightarrow> Some (XA_FAILURE, inst1)
           | XA_SUCCESS row \<Rightarrow> do {
               s \<leftarrow> row_string row;
               Some (XA_SUCCESS (strtoul16 s), inst1) }) }) }"

end
