(* ===== verification/Xa_Linux.thy ===== *)
theory Xa_Linux
  imports Xa_Access Xa_Symbols
begin

text \<open>
  The operations of \<open>linux_memory.c\<close>: finding the \<open>task_struct\<close> and the page
  directory of a process, reading its memory layout, and mapping a kernel symbol.
\<close>

section \<open>Processes\<close>

definition linux_get_taskstruct ::
  "xa_env \<Rightarrow> xa_instance \<Rightarrow> u32 \<Rightarrow> ((mapping \<times> u32) option \<times> xa_instance) option" where
  "linux_get_taskstruct env inst pid =
     task_walk env (l_pid_offset (linux_inst inst)) (l_tasks_offset (linux_inst inst)) pid
       (init_task inst) (init_task inst) inst"

definition linux_pid_to_pgd :: "xa_env \<Rightarrow> xa_instance \<Rightarrow> u32 \<Rightarrow> (u32 \<times> xa_instance) option" where
  "linux_pid_to_pgd env inst pid =
     (let mm_offset = l_mm_offset (linux_inst inst);
          tasks_offset = l_tasks_offset (linux_inst inst);
          pgd_offset = l_pgd_offset (linux_inst inst) in do {
     (m, inst1) \<leftarrow> linux_get_taskstruct env inst pid;
     (case m of
        None \<Rightarrow> Some (0, inst1)
      | Some (memory, offset) \<Rightarrow> do {
          ptr \<leftarrow> rd_rel (map_bytes memory) offset mm_offset tasks_offset;
          (r, inst2) \<leftarrow> read_long_kernel_va env inst1 (ptr + pgd_offset);
          pgd \<leftarrow> xa_translate_kv2p env inst2 (out_val 0 r);
          inst3 \<leftarrow> xa_update_pid_cache env inst2 pid pgd;
          Some (pgd, inst3) }) })"

text \<open>\<open>xa_linux_taskaddr_t\<close>: eleven \<open>unsigned long\<close>s copied out of the memory
  descriptor with one \<open>memcpy\<close>.\<close>

record xa_linux_taskaddr =
  ta_start_code :: u32
  ta_end_code :: u32
  ta_start_data :: u32
  ta_end_data :: u32
  ta_start_brk :: u32
  ta_brk :: u32
  ta_start_stack :: u32
  ta_arg_stack :: u32
  ta_arg_end :: u32
  ta_env_start :: u32
  ta_env_end :: u32

definition copy_taskaddr :: "u8 list \<Rightarrow> nat \<Rightarrow> xa_linux_taskaddr option" where
  "copy_taskaddr bs i = (if length bs < i + 44 then None else do {
     a \<leftarrow> rd32 bs i; b \<leftarrow> rd32 bs (i + 4); c \<leftarrow> rd32 bs (i + 8); d \<leftarrow> rd32 bs (i + 12);
     e \<leftarrow> rd32 bs (i + 16); f \<leftarrow> rd32 bs (i + 20); g \<leftarrow> rd32 bs (i + 24); h \<leftarrow> rd32 bs (i + 28);
     j \<leftarrow> rd32 bs (i + 32); k \<leftarrow> rd32 bs (i + 36); l \<leftarrow> rd32 bs (i + 40);
     Some \<lparr>ta_start_code = a, ta_end_code = b, ta_start_data = c, ta_end_data = d,
       ta_start_brk = e, ta_brk = f, ta_start_stack = g, ta_arg_stack = h, ta_arg_end = j,
       ta_env_start = k, ta_env_end = l\<rparr> })"

definition xa_linux_get_taskaddr ::
  "xa_env \<Rightarrow> xa_instance \<Rightarrow> u32 \<Rightarrow> (xa_linux_taskaddr xa_ret \<times> xa_instance) option" where
  "xa_linux_get_taskaddr env inst pid =
     (let mm_offset = l_mm_offset (linux_inst inst);
          tasks_offset = l_tasks_offset (linux_inst inst);
          addr_offset = l_addr_offset (linux_inst inst) in do {
     (m, inst1) \<leftarrow> linux_get_taskstruct env inst pid;
     (case m of
        None \<Rightarrow> Some (XA_FAILURE, inst1)
      | Some (memory, offset) \<Rightarrow> do {
          ptr \<leftarrow> rd_rel (map_bytes memory) offset mm_offset tasks_offset;
          (m2, inst2) \<leftarrow> xa_access_kernel_va env inst1 ptr PROT_READ;
          (case m2 of
             None \<Rightarrow> Some (XA_FAILURE, inst2)
           | Some (memory2, offset2) \<Rightarrow>
               (let i = int (unat offset2) + sint addr_offset in
                if i < 0 then None
                else do { t \<leftarrow> copy_taskaddr (map_bytes memory2) (nat i);
                          Some (XA_SUCCESS t, inst2) })) }) })"

section \<open>Symbols\<close>

definition linux_access_kernel_symbol ::
  "xa_env \<Rightarrow> xa_instance \<Rightarrow> string \<Rightarrow> u32 \<Rightarrow> ((mapping \<times> u32) option \<times> xa_instance) option" where
  "linux_access_kernel_symbol env inst symbol prot = do {
     (hit, inst1) \<leftarrow> xa_check_cache_sym env inst symbol 0;
     (case hit of
        Some address \<Rightarrow> Some (xa_access_ma env inst1 address PROT_READ, inst1)
      | None \<Rightarrow> do {
          (r, inst2) \<leftarrow> linux_system_map_symbol_to_address env inst1 symbol;
          (case r of
             XA_FAILURE \<Rightarrow> Some (None, inst2)
           | XA_SUCCESS virt_address \<Rightarrow> do {
               inst3 \<leftarrow> xa_update_cache env inst2 (Some symbol) virt_address 0 0;
               xa_access_kernel_va env inst3 virt_address prot }) }) }"

end
