(* ===== verification/Xa_Pe.thy ===== *)
theory Xa_Pe
  imports Xa_Map
begin

text \<open>
  The PE parser of \<open>windows_peparse.c\<close>: it finds the export table of the kernel image in
  physical memory and looks an export up by name. The reads go through
  \<open>xa_read_long_phys\<close> and \<open>xa_access_pa\<close>, which may load the frame table of
  a paravirtualised guest, so every function returns the instance. \<open>dump_exports\<close>, which
  prints the table, is in the theory \<open>Xa_Listing\<close>.
\<close>

section \<open>Headers\<close>

abbreviation (input) IMAGE_DOS_HEADER :: u32 where "IMAGE_DOS_HEADER \<equiv> 0x5A4D"
abbreviation (input) IMAGE_NT_SIGNATURE :: u32 where "IMAGE_NT_SIGNATURE \<equiv> 0x00004550"

record image_data_directory =
  dd_virtual_address :: u32
  dd_size :: u32

record optional_header =
  oh_magic :: u16
  oh_major_linker_version :: u8
  oh_minor_linker_version :: u8
  oh_size_of_code :: u32
  oh_size_of_initialized_data :: u32
  oh_size_of_uninitialized_data :: u32
  oh_address_of_entry_point :: u32
  oh_base_of_code :: u32
  oh_base_of_data :: u32
  oh_image_base :: u32
  oh_section_alignment :: u32
  oh_file_alignment :: u32
  oh_major_os_version :: u16
  oh_minor_os_version :: u16
  oh_major_image_version :: u16
  oh_minor_image_version :: u16
  oh_major_subsystem_version :: u16
  oh_minor_subsystem_version :: u16
  oh_win32_version_value :: u32
  oh_size_of_image :: u32
  oh_size_of_headers :: u32
  oh_checksum :: u32
  oh_subsystem :: u16
  oh_dll_characteristics :: u16
  oh_size_of_stack_reserve :: u32
  oh_size_of_stack_commit :: u32
  oh_size_of_heap_reserve :: u32
  oh_size_of_heap_commit :: u32
  oh_loader_flags :: u32
  oh_number_of_rva_and_sizes :: u32
  oh_idd :: "image_data_directory list"

text \<open>\<open>memcpy(&oh, memory + offset, sizeof(struct optional_header))\<close>: 96 bytes and 16
  directories of 8 bytes.\<close>

fun copy_directories :: "nat \<Rightarrow> u8 list \<Rightarrow> nat \<Rightarrow> image_data_directory list option" where
  "copy_directories 0 bs i = Some []"
| "copy_directories (Suc n) bs i = do {
     va \<leftarrow> rd32 bs i;
     sz \<leftarrow> rd32 bs (i + 4);
     ds \<leftarrow> copy_directories n bs (i + 8);
     Some (\<lparr>dd_virtual_address = va, dd_size = sz\<rparr> # ds) }"

definition copy_optional_header :: "u8 list \<Rightarrow> nat \<Rightarrow> optional_header option" where
  "copy_optional_header bs i = do {
     magic \<leftarrow> rd16 bs (i + 0); major_linker_version \<leftarrow> rd8 bs (i + 2);
     minor_linker_version \<leftarrow> rd8 bs (i + 3); size_of_code \<leftarrow> rd32 bs (i + 4);
     size_of_initialized_data \<leftarrow> rd32 bs (i + 8);
     size_of_uninitialized_data \<leftarrow> rd32 bs (i + 12);
     address_of_entry_point \<leftarrow> rd32 bs (i + 16); base_of_code \<leftarrow> rd32 bs (i + 20);
     base_of_data \<leftarrow> rd32 bs (i + 24); image_base \<leftarrow> rd32 bs (i + 28);
     section_alignment \<leftarrow> rd32 bs (i + 32); file_alignment \<leftarrow> rd32 bs (i + 36);
     major_os_version \<leftarrow> rd16 bs (i + 40); minor_os_version \<leftarrow> rd16 bs (i + 42);
     major_image_version \<leftarrow> rd16 bs (i + 44); minor_image_version \<leftarrow> rd16 bs (i + 46);
     major_subsystem_version \<leftarrow> rd16 bs (i + 48);
     minor_subsystem_version \<leftarrow> rd16 bs (i + 50); win32_version_value \<leftarrow> rd32 bs (i + 52);
     size_of_image \<leftarrow> rd32 bs (i + 56); size_of_headers \<leftarrow> rd32 bs (i + 60);
     checksum \<leftarrow> rd32 bs (i + 64); subsystem \<leftarrow> rd16 bs (i + 68);
     dll_characteristics \<leftarrow> rd16 bs (i + 70); size_of_stack_reserve \<leftarrow> rd32 bs (i + 72);
     size_of_stack_commit \<leftarrow> rd32 bs (i + 76); size_of_heap_reserve \<leftarrow> rd32 bs (i + 80);
     size_of_heap_commit \<leftarrow> rd32 bs (i + 84); loader_flags \<leftarrow> rd32 bs (i + 88);
     number_of_rva_and_sizes \<leftarrow> rd32 bs (i + 92);
     idd \<leftarrow> copy_directories 16 bs (i + 96);
     Some \<lparr>
       oh_magic = magic, oh_major_linker_version = major_linker_version,
       oh_minor_linker_version = minor_linker_version, oh_size_of_code = size_of_code,
       oh_size_of_initialized_data = size_of_initialized_data,
       oh_size_of_uninitialized_data = size_of_uninitialized_data,
       oh_address_of_entry_point = address_of_entry_point, oh_base_of_code = base_of_code,
       oh_base_of_data = base_of_data, oh_image_base = image_base, oh_section_alignment = section_alignment,
       oh_file_alignment = file_alignment, oh_major_os_version = major_os_version,
       oh_minor_os_version = minor_os_version, oh_major_image_version = major_image_version,
       oh_minor_image_version = minor_image_version, oh_major_subsystem_version = major_subsystem_version,
       oh_minor_subsystem_version = minor_subsystem_version, oh_win32_version_value = win32_version_value,
       oh_size_of_image = size_of_image, oh_size_of_headers = size_of_headers, oh_checksum = checksum,
       oh_subsystem = subsystem, oh_dll_characteristics = dll_characteristics,
       oh_size_of_stack_reserve = size_of_stack_reserve, oh_size_of_stack_commit = size_of_stack_commit,
       oh_size_of_heap_reserve = size_of_heap_reserve, oh_size_of_heap_commit = size_of_heap_commit,
       oh_loader_flags = loader_flags, oh_number_of_rva_and_sizes = number_of_rva_and_sizes,
       oh_idd = idd\<rparr> }"

abbreviation (input) IMAGE_DIRECTORY_ENTRY_EXPORT :: nat where "IMAGE_DIRECTORY_ENTRY_EXPORT \<equiv> 0"

lemma copy_directories_defined: "i + 8 * n \<le> length bs \<longleftrightarrow> copy_directories n bs i \<noteq> None" if "i \<le> length bs"
  using that
proof (induction n arbitrary: i)
  case (Suc n)
  show ?case
  proof (cases "i + 8 \<le> length bs")
    case True
    then show ?thesis using Suc.IH [of "i + 8"] by (auto simp: rd_def algebra_simps)
  qed (auto simp: rd_def)
qed simp

lemma copy_directories_first:
  "copy_directories (Suc n) bs i = Some ds \<Longrightarrow> rd32 bs i = Some (dd_virtual_address (ds ! 0))"
  by (auto split: Option.bind_split_asm)

text \<open>The copy is defined when all 224 bytes are there; its first directory starts at offset 96.\<close>

lemma copy_optional_header_directories:
  "i + 96 \<le> length bs \<Longrightarrow> map_option oh_idd (copy_optional_header bs i) = copy_directories 16 bs (i + 96)"
  by (cases "copy_directories 16 bs (i + 96)") (simp_all add: copy_optional_header_def rd_def)

lemma copy_optional_header_export:
  assumes "i + 224 \<le> length bs" "rd32 bs (i + 96) = Some v"
  obtains oh where "copy_optional_header bs i = Some oh" "dd_virtual_address (oh_idd oh ! IMAGE_DIRECTORY_ENTRY_EXPORT) = v"
proof -
  have c: "map_option oh_idd (copy_optional_header bs i) = copy_directories 16 bs (i + 96)"
    using assms(1) by (intro copy_optional_header_directories) simp
  have "copy_directories 16 bs (i + 96) \<noteq> None" using copy_directories_defined [of "i + 96" bs 16] assms(1) by simp
  then obtain oh where oh: "copy_optional_header bs i = Some oh" using c by (cases "copy_optional_header bs i") auto
  then have "copy_directories (Suc 15) bs (i + 96) = Some (oh_idd oh)" using c by simp
  from copy_directories_first [OF this] assms(2) oh that show thesis by simp
qed

lemma copy_optional_header_short: "length bs < i + 224 \<Longrightarrow> copy_optional_header bs i = None"
proof (cases "i + 96 \<le> length bs")
  case True
  assume "length bs < i + 224"
  then have "copy_directories 16 bs (i + 96) = None" using copy_directories_defined [of "i + 96" bs 16] True by auto
  then show ?thesis using copy_optional_header_directories [OF True] by simp
next
  case False
  then have "copy_directories 16 bs (i + 96) = None" by (simp add: numeral_eq_Suc rd_def)
  then show ?thesis by (auto simp: copy_optional_header_def split: Option.bind_split)
qed

record export_table =
  et_characteristics :: u32
  et_time_date_stamp :: u32
  et_major_version :: u16
  et_minor_version :: u16
  et_name :: u32
  et_base :: u32
  et_number_of_functions :: u32
  et_number_of_names :: u32
  et_address_of_functions :: u32
  et_address_of_names :: u32
  et_address_of_name_ordinals :: u32

text \<open>\<open>memcpy(et, memory + offset, sizeof(struct export_table))\<close>\<close>

definition copy_export_table :: "u8 list \<Rightarrow> nat \<Rightarrow> export_table option" where
  "copy_export_table bs i = (if length bs < i + 40 then None else do {
     a \<leftarrow> rd32 bs i; b \<leftarrow> rd32 bs (i + 4); c \<leftarrow> rd16 bs (i + 8); d \<leftarrow> rd16 bs (i + 10);
     e \<leftarrow> rd32 bs (i + 12); f \<leftarrow> rd32 bs (i + 16); g \<leftarrow> rd32 bs (i + 20); h \<leftarrow> rd32 bs (i + 24);
     j \<leftarrow> rd32 bs (i + 28); k \<leftarrow> rd32 bs (i + 32); l \<leftarrow> rd32 bs (i + 36);
     Some \<lparr>et_characteristics = a, et_time_date_stamp = b, et_major_version = c,
       et_minor_version = d, et_name = e, et_base = f, et_number_of_functions = g,
       et_number_of_names = h, et_address_of_functions = j, et_address_of_names = k,
       et_address_of_name_ordinals = l\<rparr> })"

text \<open>The out parameter of a reader that held \<open>d\<close> before the call.\<close>

definition read_phys :: "xa_env \<Rightarrow> xa_instance \<Rightarrow> u32 \<Rightarrow> u32 \<Rightarrow> (u32 \<times> xa_instance) option" where
  "read_phys env inst paddr d = do {
     (r, inst1) \<leftarrow> xa_read_long_phys env inst paddr;
     Some (out_val d r, inst1) }"

definition rva_to_string :: "xa_env \<Rightarrow> xa_instance \<Rightarrow> u32 \<Rightarrow> (string option \<times> xa_instance) option" where
  "rva_to_string env inst rva = do {
     (m, inst1) \<leftarrow> xa_access_pa env inst (w_ntoskrnl (windows_inst inst) + rva) PROT_READ;
     (case m of
        None \<Rightarrow> Some (None, inst1)
      | Some (memory, offset) \<Rightarrow> do {
          s \<leftarrow> strn_bytes (drop (unat offset) (map_bytes memory))
                (unat (page_size inst - offset - 1));
          Some (if s = [] then None else Some s, inst1) }) }"

section \<open>The export table\<close>

definition get_export_rva ::
  "xa_env \<Rightarrow> xa_instance \<Rightarrow> u32 \<Rightarrow> export_table \<Rightarrow> (u32 xa_ret \<times> xa_instance) option" where
  "get_export_rva env inst aof_index et =
     (let base_addr = w_ntoskrnl (windows_inst inst);
          rva_loc = base_addr + et_address_of_functions et + aof_index * 4
      in xa_read_long_phys env inst rva_loc)"

definition get_aof_index ::
  "xa_env \<Rightarrow> xa_instance \<Rightarrow> u32 \<Rightarrow> export_table \<Rightarrow> (u32 \<times> xa_instance) option" where
  "get_aof_index env inst aon_index et =
     (let base_addr = w_ntoskrnl (windows_inst inst);
          aof_index_loc = base_addr + et_address_of_name_ordinals et + aon_index * 2 in do {
     (r, inst1) \<leftarrow> xa_read_long_phys env inst aof_index_loc;
     Some (case r of XA_SUCCESS aof_index \<Rightarrow> aof_index AND 0xFFFF | XA_FAILURE \<Rightarrow> -1, inst1) })"

text \<open>The loop over the names: \<open>k\<close> names are left and \<open>i\<close> is the index of
  the next. The comparison is \<open>strncmp(rva, symbol, strlen(rva)) == 0\<close>.\<close>

fun aon_loop ::
  "xa_env \<Rightarrow> string \<Rightarrow> export_table \<Rightarrow> nat \<Rightarrow> u32 \<Rightarrow> xa_instance \<Rightarrow> (u32 \<times> xa_instance) option" where
  "aon_loop env symbol et 0 i inst = Some (-1, inst)"
| "aon_loop env symbol et (Suc k) i inst =
     (let base_addr = w_ntoskrnl (windows_inst inst);
          str_rva_loc = base_addr + et_address_of_names et + i * 4 in do {
     (str_rva, inst1) \<leftarrow> read_phys env inst str_rva_loc 0;
     if str_rva \<noteq> 0 then do {
       (rva, inst2) \<leftarrow> rva_to_string env inst1 str_rva;
       (case rva of
          Some s \<Rightarrow> if strncmp_eq (length s) s symbol then Some (i, inst2)
                    else aon_loop env symbol et k (i + 1) inst2
        | None \<Rightarrow> aon_loop env symbol et k (i + 1) inst2) }
     else aon_loop env symbol et k (i + 1) inst1 })"

definition get_aon_index ::
  "xa_env \<Rightarrow> xa_instance \<Rightarrow> string \<Rightarrow> export_table \<Rightarrow> (u32 \<times> xa_instance) option" where
  "get_aon_index env inst symbol et =
     aon_loop env symbol et (unat (et_number_of_names et)) 0 inst"

text \<open>\<open>sizeof(struct file_header)\<close> is 20.\<close>

definition get_export_table ::
  "xa_env \<Rightarrow> xa_instance \<Rightarrow> u32 \<Rightarrow> (export_table xa_ret \<times> xa_instance) option" where
  "get_export_table env inst base_addr = do {
     (value, inst1) \<leftarrow> read_phys env inst (base_addr + 60) 0;
     let signature_location = base_addr + value;
     let optional_header_location = signature_location + 4 + 20;
     (m, inst2) \<leftarrow> xa_access_pa env inst1 optional_header_location PROT_READ;
     (case m of
        None \<Rightarrow> Some (XA_FAILURE, inst2)
      | Some (memory, offset) \<Rightarrow>
          do {
            oh \<leftarrow> copy_optional_header (map_bytes memory) (unat offset);
            let export_header_rva = dd_virtual_address (oh_idd oh ! IMAGE_DIRECTORY_ENTRY_EXPORT);
            (m2, inst3) \<leftarrow> xa_access_pa env inst2 (base_addr + export_header_rva) PROT_READ;
            (case m2 of
               None \<Rightarrow> Some (XA_FAILURE, inst3)
             | Some (memory2, offset2) \<Rightarrow> do {
                 et \<leftarrow> copy_export_table (map_bytes memory2) (unat offset2);
                 Some (XA_SUCCESS et, inst3) }) }) }"

definition windows_export_to_rva ::
  "xa_env \<Rightarrow> xa_instance \<Rightarrow> string \<Rightarrow> (u32 xa_ret \<times> xa_instance) option" where
  "windows_export_to_rva env inst symbol =
     (let base_addr = w_ntoskrnl (windows_inst inst) in do {
     (r, inst1) \<leftarrow> get_export_table env inst base_addr;
     (case r of
        XA_FAILURE \<Rightarrow> Some (XA_FAILURE, inst1)
      | XA_SUCCESS et \<Rightarrow> do {
          (aon_index, inst2) \<leftarrow> get_aon_index env inst1 symbol et;
          if aon_index = -1 then Some (XA_FAILURE, inst2)
          else do {
            (aof_index, inst3) \<leftarrow> get_aof_index env inst2 aon_index et;
            if aof_index = -1 then Some (XA_FAILURE, inst3)
            else get_export_rva env inst3 aof_index et } }) })"

definition valid_ntoskrnl_start :: "xa_env \<Rightarrow> xa_instance \<Rightarrow> u32 \<Rightarrow> (bool \<times> xa_instance) option" where
  "valid_ntoskrnl_start env inst addr = do {
     (value, inst1) \<leftarrow> read_phys env inst addr 0;
     if value AND 0xFFFF \<noteq> IMAGE_DOS_HEADER then Some (False, inst1)
     else do {
       (value, inst2) \<leftarrow> read_phys env inst1 (addr + 60) value;
       let signature_location = addr + value;
       (value, inst3) \<leftarrow> read_phys env inst2 signature_location value;
       if value \<noteq> IMAGE_NT_SIGNATURE then Some (False, inst3)
       else do {
         (r, inst4) \<leftarrow> get_export_table env inst3 addr;
         (case r of
            XA_FAILURE \<Rightarrow> Some (False, inst4)
          | XA_SUCCESS et \<Rightarrow> do {
              (name, inst5) \<leftarrow> rva_to_string env inst4 (et_name et + addr);
              Some (name = Some ''ntoskrnl.exe'', inst5) }) } } }"

end
