(* ===== verification/Xa_Windows.thy ===== *)
theory Xa_Windows
  imports Xa_Access Xa_Pe
begin

text \<open>
  The operations of \<open>windows_memory.c\<close> and \<open>windows_process.c\<close>: finding the
  kernel image, mapping a kernel export, walking the process list and scanning physical memory
  for a process by name.
\<close>

section \<open>The kernel image\<close>

definition windows_symbol_to_address ::
  "xa_env \<Rightarrow> xa_instance \<Rightarrow> string \<Rightarrow> (u32 xa_ret \<times> xa_instance) option" where
  "windows_symbol_to_address env inst symbol = windows_export_to_rva env inst symbol"

definition base_address :: "u32 list" where
  "base_address = [0x00100000, 0x00400000, 0x004d4000, 0x004d0000, 0x004d5000, 0x00a02000,
     0x00496000, 0x004d7000, 0x004de000, 0x00800000, 0x01800000]"

text \<open>The addresses tried first, in order; the result is the one that matched.\<close>

fun known_base :: "xa_env \<Rightarrow> u32 list \<Rightarrow> xa_instance \<Rightarrow> (u32 option \<times> xa_instance) option" where
  "known_base env [] inst = Some (None, inst)"
| "known_base env (paddr # ps) inst = do {
     (ok, inst1) \<leftarrow> valid_ntoskrnl_start env inst paddr;
     if ok then Some (Some paddr, inst1) else known_base env ps inst1 }"

text \<open>The search through memory, page by page up to 1 GB.\<close>

partial_function (option) search_base ::
  "xa_env \<Rightarrow> u32 \<Rightarrow> xa_instance \<Rightarrow> (u32 \<times> xa_instance) option" where
  "search_base env paddr inst = do {
     (ok, inst1) \<leftarrow> valid_ntoskrnl_start env inst paddr;
     if ok then Some (paddr, inst1)
     else if paddr + page_size inst1 = 0 \<or> 0x40000000 \<le> paddr + page_size inst1
     then Some (0, inst1)
     else search_base env (paddr + page_size inst1) inst1 }"

declare search_base.simps [code]

definition get_ntoskrnl_base :: "xa_env \<Rightarrow> xa_instance \<Rightarrow> (u32 \<times> xa_instance) option" where
  "get_ntoskrnl_base env inst = do {
     (known, inst1) \<leftarrow> known_base env base_address inst;
     (case known of
        Some paddr \<Rightarrow> Some (paddr, inst1)
      | None \<Rightarrow> search_base env (0 + page_size inst1) inst1) }"

definition windows_access_kernel_symbol ::
  "xa_env \<Rightarrow> xa_instance \<Rightarrow> string \<Rightarrow> u32 \<Rightarrow> ((mapping \<times> u32) option \<times> xa_instance) option" where
  "windows_access_kernel_symbol env inst symbol prot = do {
     (hit, inst1) \<leftarrow> xa_check_cache_sym env inst symbol 0;
     (case hit of
        Some address \<Rightarrow> Some (xa_access_ma env inst1 address PROT_READ, inst1)
      | None \<Rightarrow> do {
          (r, inst2) \<leftarrow> windows_symbol_to_address env inst1 symbol;
          (case r of
             XA_FAILURE \<Rightarrow> Some (None, inst2)
           | XA_SUCCESS rva \<Rightarrow>
               (let phys_address = w_ntoskrnl (windows_inst inst2) + rva;
                    virt_address = phys_address + page_offset inst2 in do {
               inst3 \<leftarrow> xa_update_cache env inst2 (Some symbol) virt_address 0 0;
               xa_access_pa env inst3 phys_address prot })) }) }"

section \<open>Processes\<close>

definition windows_get_EPROCESS ::
  "xa_env \<Rightarrow> xa_instance \<Rightarrow> u32 \<Rightarrow> ((mapping \<times> u32) option \<times> xa_instance) option" where
  "windows_get_EPROCESS env inst pid =
     task_walk env (w_pid_offset (windows_inst inst)) (w_tasks_offset (windows_inst inst)) pid
       (init_task inst) (init_task inst) inst"

definition windows_pid_to_pgd :: "xa_env \<Rightarrow> xa_instance \<Rightarrow> u32 \<Rightarrow> (u32 \<times> xa_instance) option" where
  "windows_pid_to_pgd env inst pid =
     (let pdbase_offset = w_pdbase_offset (windows_inst inst);
          tasks_offset = w_tasks_offset (windows_inst inst) in do {
     (m, inst1) \<leftarrow> windows_get_EPROCESS env inst pid;
     (case m of
        None \<Rightarrow> Some (0, inst1)
      | Some (memory, offset) \<Rightarrow> do {
          pgd \<leftarrow> rd_rel (map_bytes memory) offset pdbase_offset tasks_offset;
          inst2 \<leftarrow> xa_update_pid_cache env inst1 pid pgd;
          Some (pgd, inst2) }) })"

definition windows_get_eprocess_name ::
  "xa_env \<Rightarrow> xa_instance \<Rightarrow> u32 \<Rightarrow> (string option \<times> xa_instance) option" where
  "windows_get_eprocess_name env inst paddr = do {
     (m, inst1) \<leftarrow> xa_access_pa env inst (paddr + 0x174) PROT_READ;
     (case m of
        None \<Rightarrow> Some (None, inst1)
      | Some (memory, offset) \<Rightarrow> do {
          s \<leftarrow> strn_bytes (drop (unat offset) (map_bytes memory)) 50;
          Some (Some s, inst1) }) }"

text \<open>The scan. \<open>value\<close> keeps the last word read when a read fails.\<close>

partial_function (option) find_eprocess_loop ::
  "xa_env \<Rightarrow> string \<Rightarrow> u32 \<Rightarrow> u32 \<Rightarrow> u32 \<Rightarrow> xa_instance \<Rightarrow> (u32 \<times> xa_instance) option" where
  "find_eprocess_loop env name end offset value inst =
     (if end \<le> offset then Some (0, inst)
      else do {
        (value, inst1) \<leftarrow> read_phys env inst offset value;
        if value = 0x001b0003 \<or> value = 0x00200003 then do {
          (procname, inst2) \<leftarrow> windows_get_eprocess_name env inst1 offset;
          if (case procname of Some s \<Rightarrow> strncmp_eq 50 s name | None \<Rightarrow> False)
          then Some (offset, inst2)
          else find_eprocess_loop env name end (offset + 8) value inst2 }
        else find_eprocess_loop env name end (offset + 8) value inst1 })"

declare find_eprocess_loop.simps [code]

definition windows_find_eprocess ::
  "xa_env \<Rightarrow> xa_instance \<Rightarrow> string \<Rightarrow> (u32 \<times> xa_instance) option" where
  "windows_find_eprocess env inst name =
     (let end = (if mode inst = XA_MODE_XEN then xen_size (m_xen inst)
                 else if mode inst = XA_MODE_FILE then file_size (m_file inst) else 0)
      in find_eprocess_loop env name end 0 0 inst)"

end
