(* ===== verification/Xa_Memory.thy ===== *)
theory Xa_Memory
  imports Xa_Linux Xa_Windows
begin

text \<open>
  The access functions of \<open>xa_memory.c\<close> that dispatch on the guest's operating system,
  the virtual and symbol readers of \<open>xa_util.c\<close> and \<open>xa_windows_get_peb\<close>.
\<close>

section \<open>By process\<close>

definition xa_pid_to_pgd :: "xa_env \<Rightarrow> xa_instance \<Rightarrow> u32 \<Rightarrow> (u32 \<times> xa_instance) option" where
  "xa_pid_to_pgd env inst pid = do {
     (hit, inst1) \<leftarrow> xa_check_pid_cache env inst pid;
     (case hit of
        Some pgd \<Rightarrow> Some (pgd, inst1)
      | None \<Rightarrow>
          if os_type inst1 = XA_OS_LINUX then linux_pid_to_pgd env inst1 pid
          else if os_type inst1 = XA_OS_WINDOWS then windows_pid_to_pgd env inst1 pid
          else Some (0, inst1)) }"

definition user_translate :: "xa_env \<Rightarrow> u32 \<Rightarrow> u32 \<Rightarrow> xa_instance \<Rightarrow> (u32 \<times> xa_instance) option" where
  "user_translate env virt_address pid inst =
     (if pid = 0 then kernel_translate env virt_address inst
      else do {
        (pgd, inst1) \<leftarrow> xa_pid_to_pgd env inst pid;
        if pgd \<noteq> 0 then do {
          address \<leftarrow> xa_pagetable_lookup env inst1 pgd virt_address;
          Some (address, inst1) }
        else Some (0, inst1) })"

definition xa_access_user_va ::
  "xa_env \<Rightarrow> xa_instance \<Rightarrow> u32 \<Rightarrow> u32 \<Rightarrow> u32 \<Rightarrow> ((mapping \<times> u32) option \<times> xa_instance) option" where
  "xa_access_user_va env inst virt_address pid prot =
     access_va (user_translate env virt_address pid) env inst virt_address pid prot"

section \<open>Ranges\<close>

definition xc_map_foreign_pages :: "xa_env \<Rightarrow> u32 \<Rightarrow> u32 \<Rightarrow> u32 list \<Rightarrow> mapping option" where
  "xc_map_foreign_pages env domid prot arr =
     (case xc_map_foreign_batch env domid arr of
        None \<Rightarrow> None
      | Some res \<Rightarrow>
          if list_ex (\<lambda>p. p AND 0xF0000000 = 0xF0000000) (xc_batch_marks env domid arr) then None
          else Some (map_page_of prot res))"

text \<open>The frames of \<open>k\<close> pages from \<open>addr\<close>; \<open>XA_FAILURE\<close> when a
  page address is 0.\<close>

fun range_pfns :: "xa_env \<Rightarrow> xa_instance \<Rightarrow> u32 \<Rightarrow> nat \<Rightarrow> u32 \<Rightarrow> u32 list xa_ret option" where
  "range_pfns env inst pgd 0 addr = Some (XA_SUCCESS [])"
| "range_pfns env inst pgd (Suc k) addr =
     (if addr = 0 then Some XA_FAILURE
      else do {
        p \<leftarrow> xa_pagetable_lookup env inst pgd addr;
        r \<leftarrow> range_pfns env inst pgd k (addr + page_size inst);
        Some (case r of XA_FAILURE \<Rightarrow> XA_FAILURE
              | XA_SUCCESS ps \<Rightarrow> XA_SUCCESS (drop_bit (unat (page_shift inst)) p # ps)) })"

definition xa_access_user_va_range ::
  "xa_env \<Rightarrow> xa_instance \<Rightarrow> u32 \<Rightarrow> u32 \<Rightarrow> u32 \<Rightarrow> u32
    \<Rightarrow> ((mapping \<times> u32) option \<times> xa_instance) option" where
  "xa_access_user_va_range env inst virt_address len pid prot =
     (if page_size inst = 0 then None
      else (let num_pages = len div page_size inst + 1;
                start = virt_address AND NOT (page_size inst - 1) in do {
        (pgd, inst1) \<leftarrow> (if pid \<noteq> 0 then xa_pid_to_pgd env inst pid
                        else Some (snd (xa_current_cr3 env inst 0), inst));
        r \<leftarrow> range_pfns env inst1 pgd (unat num_pages) start;
        (case r of
           XA_FAILURE \<Rightarrow> Some (None, inst1)
         | XA_SUCCESS pfns \<Rightarrow>
             Some (map_option (\<lambda>m. (m, virt_address - start))
               (xc_map_foreign_pages env (domain_id (m_xen inst1)) prot pfns), inst1)) }))"

definition xa_access_kernel_va_range ::
  "xa_env \<Rightarrow> xa_instance \<Rightarrow> u32 \<Rightarrow> u32 \<Rightarrow> u32 \<Rightarrow> ((mapping \<times> u32) option \<times> xa_instance) option" where
  "xa_access_kernel_va_range env inst virt_address len prot =
     xa_access_user_va_range env inst virt_address len 0 prot"

section \<open>By symbol\<close>

definition xa_access_kernel_sym ::
  "xa_env \<Rightarrow> xa_instance \<Rightarrow> string \<Rightarrow> u32 \<Rightarrow> ((mapping \<times> u32) option \<times> xa_instance) option" where
  "xa_access_kernel_sym env inst symbol prot =
     (if os_type inst = XA_OS_LINUX then linux_access_kernel_symbol env inst symbol prot
      else if os_type inst = XA_OS_WINDOWS then windows_access_kernel_symbol env inst symbol prot
      else Some (None, inst))"

definition xa_symbol_to_address ::
  "xa_env \<Rightarrow> xa_instance \<Rightarrow> string \<Rightarrow> (u32 xa_ret \<times> xa_instance) option" where
  "xa_symbol_to_address env inst s =
     (if os_type inst = XA_OS_LINUX then linux_system_map_symbol_to_address env inst s
      else if os_type inst = XA_OS_WINDOWS then windows_symbol_to_address env inst s
      else Some (XA_FAILURE, inst))"

section \<open>Readers\<close>

definition xa_read_long_virt ::
  "xa_env \<Rightarrow> xa_instance \<Rightarrow> u32 \<Rightarrow> u32 \<Rightarrow> (u32 xa_ret \<times> xa_instance) option" where
  "xa_read_long_virt env inst vaddr pid = do {
     r \<leftarrow> xa_access_user_va env inst vaddr pid PROT_READ; read_mapped 4 r }"

definition xa_read_long_long_virt ::
  "xa_env \<Rightarrow> xa_instance \<Rightarrow> u32 \<Rightarrow> u32 \<Rightarrow> (u64 xa_ret \<times> xa_instance) option" where
  "xa_read_long_long_virt env inst vaddr pid = do {
     r \<leftarrow> xa_access_user_va env inst vaddr pid PROT_READ; read_mapped 8 r }"

definition xa_read_long_sym ::
  "xa_env \<Rightarrow> xa_instance \<Rightarrow> string \<Rightarrow> (u32 xa_ret \<times> xa_instance) option" where
  "xa_read_long_sym env inst s = do {
     r \<leftarrow> xa_access_kernel_sym env inst s PROT_READ; read_mapped 4 r }"

definition xa_read_long_long_sym ::
  "xa_env \<Rightarrow> xa_instance \<Rightarrow> string \<Rightarrow> (u64 xa_ret \<times> xa_instance) option" where
  "xa_read_long_long_sym env inst s = do {
     r \<leftarrow> xa_access_kernel_sym env inst s PROT_READ; read_mapped 8 r }"

text \<open>The two fields of \<open>xa_windows_peb_t\<close>; a field whose read fails keeps what the
  caller had there, \<open>peb\<close>.\<close>

record xa_windows_peb =
  peb_ImageBaseAddress :: u32
  peb_ProcessHeap :: u32

definition xa_windows_get_peb ::
  "xa_env \<Rightarrow> xa_instance \<Rightarrow> u32 \<Rightarrow> xa_windows_peb \<Rightarrow> (xa_windows_peb xa_ret \<times> xa_instance) option" where
  "xa_windows_get_peb env inst pid peb =
     (let w = windows_inst inst in do {
     (m, inst1) \<leftarrow> windows_get_EPROCESS env inst pid;
     (case m of
        None \<Rightarrow> Some (XA_FAILURE, inst1)
      | Some (memory, offset) \<Rightarrow> do {
          ptr \<leftarrow> rd_rel (map_bytes memory) offset (w_peb_offset w) (w_tasks_offset w);
          (r1, inst2) \<leftarrow> xa_read_long_virt env inst1 (ptr + w_iba_offset w) pid;
          (r2, inst3) \<leftarrow> xa_read_long_virt env inst2 (ptr + w_ph_offset w) pid;
          Some (XA_SUCCESS \<lparr>peb_ImageBaseAddress = out_val (peb_ImageBaseAddress peb) r1,
            peb_ProcessHeap = out_val (peb_ProcessHeap peb) r2\<rparr>, inst3) }) })"

end
