(* ===== verification/Xa_Frame.thy ===== *)
theory Xa_Frame
  imports Xa_Memory
begin

text \<open>
  What holds of an instance whatever calls are made. The operations change an instance in seven
  places only: they look a symbol, a page or a pid up in a cache, enter one, load the frame table of a
  paravirtualised guest, and predict the path of the System.map. The locales state what a predicate on
  instances needs: \<open>lookup_stable\<close> at the places that only look, \<open>name_stable\<close> and
  \<open>symbol_stable\<close> for symbols, \<open>access_stable\<close> what the public functions need of the accesses
  below them, and \<open>update_stable\<close>, for every entry in a cache, which gives all the others. The predicates are the fixed part of the instance and the well-formedness
  of the two caches here, and the coherence of the caches in \<open>Xa_Coherence\<close>.
\<close>

section \<open>Operations that keep a predicate\<close>

definition stays :: "(xa_instance \<Rightarrow> bool) \<Rightarrow> ('a \<times> xa_instance) option \<Rightarrow> bool" where
  "stays P r \<longleftrightarrow> (\<forall>x inst'. r = Some (x, inst') \<longrightarrow> P inst')"

lemma staysD: "stays P r \<Longrightarrow> r = Some (x, inst') \<Longrightarrow> P inst'"
  by (simp add: stays_def)

lemma stays_Some: "P inst' \<Longrightarrow> stays P (Some (x, inst'))"
  by (simp add: stays_def)

lemma stays_None: "stays P None"
  by (simp add: stays_def)

lemma stays_bind: "stays P f \<Longrightarrow> (\<And>x inst1. P inst1 \<Longrightarrow> stays P (h (x, inst1))) \<Longrightarrow> stays P (Option.bind f h)"
  by (cases f) (auto simp: stays_def)

lemma stays_bind2: "stays P f \<Longrightarrow> (\<And>x inst1. P inst1 \<Longrightarrow> stays P (h x inst1)) \<Longrightarrow> stays P (Option.bind f (\<lambda>(x, inst1). h x inst1))"
  by (rule stays_bind) simp_all

lemma stays_bind_inst: "(\<And>i. v = Some i \<Longrightarrow> P i) \<Longrightarrow> (\<And>i. P i \<Longrightarrow> stays P (h i)) \<Longrightarrow> stays P (Option.bind v h)"
  by (cases v) (auto simp: stays_def)

lemma stays_bind_pure: "(\<And>x. stays P (h x)) \<Longrightarrow> stays P (Option.bind v h)"
  by (cases v) (auto simp: stays_def)

lemma stays_if: "(b \<Longrightarrow> stays P r) \<Longrightarrow> (\<not> b \<Longrightarrow> stays P s) \<Longrightarrow> stays P (if b then r else s)"
  by simp

lemma stays_option: "stays P r \<Longrightarrow> (\<And>x. stays P (h x)) \<Longrightarrow> stays P (case v of None \<Rightarrow> r | Some x \<Rightarrow> h x)"
  by (cases v) auto

lemma stays_ret: "stays P r \<Longrightarrow> (\<And>x. stays P (h x)) \<Longrightarrow> stays P (case v of XA_FAILURE \<Rightarrow> r | XA_SUCCESS x \<Rightarrow> h x)"
  by (cases v) auto

lemma stays_prod: "(\<And>a b. p = (a, b) \<Longrightarrow> stays P (h a b)) \<Longrightarrow> stays P (case p of (a, b) \<Rightarrow> h a b)"
  by (cases p) auto

text \<open>The rules that take an operation apart.\<close>

lemmas stays_rules = stays_bind2 stays_prod stays_option stays_ret stays_if stays_None stays_Some stays_bind_pure

lemma stays_read_mapped: "stays P r \<Longrightarrow> stays P (Option.bind r (read_mapped n))"
  by (erule stays_bind) (unfold read_mapped_def prod.case fst_conv snd_conv, intro stays_option stays_prod stays_Some stays_bind_pure)

section \<open>Calls of the library\<close>

text \<open>A step is one call of a public function that came back; whoever uses the library chooses which.
  The functions that work on machine addresses, and the translation of kernel addresses, leave the
  instance as it is.\<close>

inductive lib_step :: "xa_env \<Rightarrow> xa_instance \<Rightarrow> xa_instance \<Rightarrow> bool" for env where
  access_pa: "xa_access_pa env inst a prot = Some (r, inst') \<Longrightarrow> lib_step env inst inst'"
| user_va: "xa_access_user_va env inst v pid prot = Some (r, inst') \<Longrightarrow> lib_step env inst inst'"
| kernel_va: "xa_access_kernel_va env inst v prot = Some (r, inst') \<Longrightarrow> lib_step env inst inst'"
| user_va_range: "xa_access_user_va_range env inst v len pid prot = Some (r, inst') \<Longrightarrow> lib_step env inst inst'"
| kernel_va_range: "xa_access_kernel_va_range env inst v len prot = Some (r, inst') \<Longrightarrow> lib_step env inst inst'"
| kernel_sym: "xa_access_kernel_sym env inst s prot = Some (r, inst') \<Longrightarrow> lib_step env inst inst'"
| symbol_to_address: "xa_symbol_to_address env inst s = Some (w, inst') \<Longrightarrow> lib_step env inst inst'"
| pid_to_pgd: "xa_pid_to_pgd env inst pid = Some (pgd, inst') \<Longrightarrow> lib_step env inst inst'"
| read_long_phys: "xa_read_long_phys env inst a = Some (w, inst') \<Longrightarrow> lib_step env inst inst'"
| read_long_long_phys: "xa_read_long_long_phys env inst a = Some (d, inst') \<Longrightarrow> lib_step env inst inst'"
| read_long_virt: "xa_read_long_virt env inst v pid = Some (w, inst') \<Longrightarrow> lib_step env inst inst'"
| read_long_long_virt: "xa_read_long_long_virt env inst v pid = Some (d, inst') \<Longrightarrow> lib_step env inst inst'"
| read_long_sym: "xa_read_long_sym env inst s = Some (w, inst') \<Longrightarrow> lib_step env inst inst'"
| read_long_long_sym: "xa_read_long_long_sym env inst s = Some (d, inst') \<Longrightarrow> lib_step env inst inst'"
| taskaddr: "xa_linux_get_taskaddr env inst pid = Some (t, inst') \<Longrightarrow> lib_step env inst inst'"
| peb: "xa_windows_get_peb env inst pid p = Some (q, inst') \<Longrightarrow> lib_step env inst inst'"

section \<open>Operations that look\<close>

locale lookup_stable =
  fixes P :: "xa_instance \<Rightarrow> bool"
  assumes check_sym: "P inst \<Longrightarrow> stays P (xa_check_cache_sym env inst s pid)"
    and check_virt: "P inst \<Longrightarrow> stays P (xa_check_cache_virt env inst v pid)"
    and check_pid: "P inst \<Longrightarrow> stays P (xa_check_pid_cache env inst pid)"
    and load_table: "P inst \<Longrightarrow> P (inst\<lparr>m_xen := (m_xen inst)\<lparr>live_pfn_to_mfn_table := Some tbl, nr_pfns := nr\<rparr>\<rparr>)"
    and set_sysmap: "P inst \<Longrightarrow> P (inst\<lparr>sysmap := path\<rparr>)"
begin

lemma pfn_to_mfn: "P inst \<Longrightarrow> stays P (helper_pfn_to_mfn env inst pfn)"
  unfolding helper_pfn_to_mfn_def by (intro stays_rules load_table)

lemma mmap_pfn: "P inst \<Longrightarrow> stays P (xa_mmap_pfn env inst prot pfn)"
  unfolding xa_mmap_pfn_def by (intro stays_rules pfn_to_mfn)

lemma access_pa: "P inst \<Longrightarrow> stays P (xa_access_pa env inst a prot)"
  unfolding xa_access_pa_def Let_def by (intro stays_rules mmap_pfn)

lemma read_long_phys: "P inst \<Longrightarrow> stays P (xa_read_long_phys env inst a)"
  unfolding xa_read_long_phys_def by (intro stays_bind2 [OF access_pa] stays_rules)

lemma read_long_long_phys: "P inst \<Longrightarrow> stays P (xa_read_long_long_phys env inst a)"
  unfolding xa_read_long_long_phys_def by (intro stays_bind2 [OF access_pa] stays_rules)

lemma system_map: "P inst \<Longrightarrow> stays P (linux_system_map_symbol_to_address env inst s)"
  unfolding linux_system_map_symbol_to_address_def
  by (intro stays_bind_inst stays_rules) (auto intro: set_sysmap split: if_split_asm Option.bind_split_asm)

lemma phys: "P inst \<Longrightarrow> stays P (read_phys env inst a d)"
  unfolding read_phys_def by (intro stays_bind2 [OF read_long_phys] stays_rules)

lemma string_at: "P inst \<Longrightarrow> stays P (rva_to_string env inst rva)"
  unfolding rva_to_string_def by (intro stays_bind2 [OF access_pa] stays_rules)

lemma export_rva: "P inst \<Longrightarrow> stays P (get_export_rva env inst i et)"
  unfolding get_export_rva_def Let_def by (rule read_long_phys)

lemma aof_index: "P inst \<Longrightarrow> stays P (get_aof_index env inst i et)"
  unfolding get_aof_index_def Let_def by (intro stays_bind2 [OF read_long_phys] stays_rules)

lemma names_loop: "P inst \<Longrightarrow> stays P (aon_loop env s et k i inst)"
proof (induction k arbitrary: i inst)
  case (Suc k)
  from Suc.prems show ?case unfolding aon_loop.simps Let_def
    by (intro stays_bind2 [OF phys] stays_bind2 [OF string_at] stays_rules Suc.IH)
qed (simp add: stays_Some)

lemma aon_index: "P inst \<Longrightarrow> stays P (get_aon_index env inst s et)"
  unfolding get_aon_index_def by (rule names_loop)

lemma table_of_exports: "P inst \<Longrightarrow> stays P (get_export_table env inst b)"
  unfolding get_export_table_def Let_def by (intro stays_bind2 [OF phys] stays_bind2 [OF access_pa] stays_rules)

lemma export_to_rva: "P inst \<Longrightarrow> stays P (windows_export_to_rva env inst s)"
  unfolding windows_export_to_rva_def Let_def
  by (intro stays_bind2 [OF table_of_exports] stays_bind2 [OF aon_index] stays_bind2 [OF aof_index] stays_rules export_rva)

lemma windows_address: "P inst \<Longrightarrow> stays P (windows_symbol_to_address env inst s)"
  unfolding windows_symbol_to_address_def by (rule export_to_rva)

lemma symbol_to_address: "P inst \<Longrightarrow> stays P (xa_symbol_to_address env inst s)"
  unfolding xa_symbol_to_address_def by (intro stays_if system_map windows_address stays_Some)

lemma valid_start: "P inst \<Longrightarrow> stays P (valid_ntoskrnl_start env inst a)"
  unfolding valid_ntoskrnl_start_def Let_def
  by (intro stays_bind2 [OF phys] stays_bind2 [OF table_of_exports] stays_bind2 [OF string_at] stays_rules)

lemma eprocess_name: "P inst \<Longrightarrow> stays P (windows_get_eprocess_name env inst a)"
  unfolding windows_get_eprocess_name_def by (intro stays_bind2 [OF access_pa] stays_rules)

lemma first_base: "P inst \<Longrightarrow> stays P (known_base env ps inst)"
proof (induction ps arbitrary: inst)
  case (Cons p ps)
  from Cons.prems show ?case unfolding known_base.simps by (intro stays_bind2 [OF valid_start] stays_rules Cons.IH)
qed (simp add: stays_Some)

lemma base_search:
  assumes "P inst"
  shows "stays P (search_base env a inst)"
proof -
  have "P inst \<longrightarrow> P (snd y)" if "search_base env a inst = Some y" for y
    using that
  proof (rule search_base.raw_induct [rotated, where P = "\<lambda>env a inst y. P inst \<longrightarrow> P (snd y)"])
    fix f :: "xa_env \<Rightarrow> u32 \<Rightarrow> xa_instance \<Rightarrow> (u32 \<times> xa_instance) option" and env a inst y
    assume "\<And>env a inst y. f env a inst = Some y \<Longrightarrow> P inst \<longrightarrow> P (snd y)"
    then have k: "P i \<Longrightarrow> stays P (f env n i)" for n i by (force simp: stays_def)
    assume run: "valid_ntoskrnl_start env inst a \<bind> (\<lambda>(ok, inst1).
        if ok then Some (a, inst1)
        else if a + page_size inst1 = 0 \<or> 0x40000000 \<le> a + page_size inst1 then Some (0, inst1)
        else f env (a + page_size inst1) inst1) = Some y" (is "?r = _")
    have "P inst \<Longrightarrow> stays P ?r" by (intro stays_bind2 [OF valid_start] stays_if stays_Some k)
    with run show "P inst \<longrightarrow> P (snd y)" by (cases y) (auto simp: stays_def)
  qed
  then show ?thesis using assms by (force simp: stays_def)
qed

lemma ntoskrnl_base: "P inst \<Longrightarrow> stays P (get_ntoskrnl_base env inst)"
  unfolding get_ntoskrnl_base_def by (intro stays_bind2 [OF first_base] stays_option base_search stays_Some)

lemma eprocess_loop:
  assumes "P inst"
  shows "stays P (find_eprocess_loop env name en a v inst)"
proof -
  have "P inst \<longrightarrow> P (snd y)" if "find_eprocess_loop env name en a v inst = Some y" for y
    using that
  proof (rule find_eprocess_loop.raw_induct [rotated, where P = "\<lambda>env name en a v inst y. P inst \<longrightarrow> P (snd y)"])
    fix f :: "xa_env \<Rightarrow> string \<Rightarrow> u32 \<Rightarrow> u32 \<Rightarrow> u32 \<Rightarrow> xa_instance \<Rightarrow> (u32 \<times> xa_instance) option"
      and env name en a v inst y
    assume "\<And>env name en a v inst y. f env name en a v inst = Some y \<Longrightarrow> P inst \<longrightarrow> P (snd y)"
    then have k: "P i \<Longrightarrow> stays P (f env name en n w i)" for n w i by (force simp: stays_def)
    assume run: "(if en \<le> a then Some (0, inst)
      else read_phys env inst a v \<bind> (\<lambda>(value, inst1).
        if value = 0x001b0003 \<or> value = 0x00200003 then
          windows_get_eprocess_name env inst1 a \<bind> (\<lambda>(procname, inst2).
            if (case procname of None \<Rightarrow> False | Some s \<Rightarrow> strncmp_eq 50 s name) then Some (a, inst2)
            else f env name en (a + 8) value inst2)
        else f env name en (a + 8) value inst1)) = Some y" (is "?r = _")
    have "P inst \<Longrightarrow> stays P ?r"
      by (intro stays_if stays_bind2 [OF phys] stays_bind2 [OF eprocess_name] stays_Some k)
    with run show "P inst \<longrightarrow> P (snd y)" by (cases y) (auto simp: stays_def)
  qed
  then show ?thesis using assms by (force simp: stays_def)
qed

lemma find_eprocess: "P inst \<Longrightarrow> stays P (windows_find_eprocess env inst name)"
  unfolding windows_find_eprocess_def Let_def by (rule eprocess_loop)

end

section \<open>Operations that enter a symbol\<close>

locale name_stable = lookup_stable P for P +
  fixes env :: xa_env
  assumes enter_symbol: "P inst \<Longrightarrow> xa_update_cache env inst (Some s) v 0 0 = Some inst' \<Longrightarrow> P inst'"
begin

lemmas enter_name = stays_bind_inst [OF enter_symbol]

lemma windows_symbol: "P inst \<Longrightarrow> stays P (windows_access_kernel_symbol env inst s prot)"
  unfolding windows_access_kernel_symbol_def Let_def
  by (intro stays_bind2 [OF check_sym] stays_bind2 [OF windows_address] enter_name access_pa
      stays_prod stays_option stays_ret stays_Some)

end

text \<open>A symbol of a Linux guest is mapped through the cache.\<close>

locale symbol_stable = name_stable +
  assumes access_kernel_va: "P inst \<Longrightarrow> stays P (xa_access_kernel_va env inst v prot)"
begin

lemma linux_symbol: "P inst \<Longrightarrow> stays P (linux_access_kernel_symbol env inst s prot)"
  unfolding linux_access_kernel_symbol_def
  by (intro stays_bind2 [OF check_sym] stays_bind2 [OF system_map] enter_name access_kernel_va
      stays_prod stays_option stays_ret stays_Some)

lemma kernel_sym: "P inst \<Longrightarrow> stays P (xa_access_kernel_sym env inst s prot)"
  unfolding xa_access_kernel_sym_def by (intro stays_if linux_symbol windows_symbol stays_Some)

end

section \<open>The public functions\<close>

text \<open>What the public functions need besides: the accesses to the memory of a process, its page directory,
  and the search of the process list.\<close>

locale access_stable = symbol_stable +
  assumes access_user_va: "P inst \<Longrightarrow> stays P (xa_access_user_va env inst v pid prot)"
    and pid_to_pgd: "P inst \<Longrightarrow> stays P (xa_pid_to_pgd env inst pid)"
    and walk: "P inst \<Longrightarrow> stays P (task_walk env po to pid lh nx inst)"
begin

lemma readers:
  assumes "P inst"
  shows "stays P (xa_read_long_sym env inst s)" "stays P (xa_read_long_long_sym env inst s)"
    "stays P (xa_read_long_virt env inst v pid)" "stays P (xa_read_long_long_virt env inst v pid)"
  unfolding xa_read_long_sym_def xa_read_long_long_sym_def xa_read_long_virt_def xa_read_long_long_virt_def
  by (intro stays_read_mapped kernel_sym access_user_va assms)+

lemma taskaddr: "P inst \<Longrightarrow> stays P (xa_linux_get_taskaddr env inst pid)"
  unfolding xa_linux_get_taskaddr_def linux_get_taskstruct_def Let_def
  by (intro stays_bind2 [OF walk] stays_bind2 [OF access_kernel_va] stays_rules)

lemma peb: "P inst \<Longrightarrow> stays P (xa_windows_get_peb env inst pid p)"
  unfolding xa_windows_get_peb_def windows_get_EPROCESS_def Let_def
  by (intro stays_bind2 [OF walk] stays_bind2 [OF readers(3)] stays_prod stays_option stays_Some stays_bind_pure)

lemma user_va_range:
  assumes "P inst"
  shows "stays P (xa_access_user_va_range env inst v len pid prot)"
proof -
  have p: "stays P (if pid \<noteq> 0 then xa_pid_to_pgd env inst pid else Some (snd (xa_current_cr3 env inst 0), inst))"
    by (intro stays_if pid_to_pgd stays_Some assms)
  show ?thesis unfolding xa_access_user_va_range_def Let_def
    by (intro stays_if stays_None stays_bind2 [OF p] stays_ret stays_Some stays_bind_pure)
qed

lemma step: "lib_step env inst inst' \<Longrightarrow> P inst \<Longrightarrow> P inst'"
  by (erule lib_step.cases)
    (auto simp: xa_access_kernel_va_range_def
      dest: staysD [OF access_pa] staysD [OF access_user_va] staysD [OF access_kernel_va] staysD [OF user_va_range]
        staysD [OF kernel_sym] staysD [OF symbol_to_address] staysD [OF pid_to_pgd] staysD [OF read_long_phys]
        staysD [OF read_long_long_phys] staysD [OF readers(1)] staysD [OF readers(2)] staysD [OF readers(3)]
        staysD [OF readers(4)] staysD [OF taskaddr] staysD [OF peb])

lemma reachable: "(lib_step env)\<^sup>*\<^sup>* inst inst' \<Longrightarrow> P inst \<Longrightarrow> P inst'"
  by (induction rule: rtranclp_induct) (auto intro: step)

end

section \<open>Operations that enter\<close>

locale update_stable = lookup_stable +
  assumes update_cache: "P inst \<Longrightarrow> xa_update_cache env inst s v pid a = Some inst' \<Longrightarrow> P inst'"
    and update_pid: "P inst \<Longrightarrow> xa_update_pid_cache env inst pid pgd = Some inst' \<Longrightarrow> P inst'"
begin

lemmas enter_page = stays_bind_inst [OF update_cache]
lemmas enter_pid = stays_bind_inst [OF update_pid]

lemma through_cache:
  assumes "\<And>i. P i \<Longrightarrow> stays P (translate i)" "P inst"
  shows "stays P (access_va translate env inst v pid prot)"
  unfolding access_va_def
  by (intro stays_bind2 [OF check_virt] stays_bind2 [OF assms(1)] enter_page stays_prod stays_option stays_if stays_Some assms(2))

lemma by_kernel_tables: "P inst \<Longrightarrow> stays P (kernel_translate env v inst)"
  unfolding kernel_translate_def Let_def by (intro stays_Some stays_bind_pure)

lemma kernel_va: "P inst \<Longrightarrow> stays P (xa_access_kernel_va env inst v prot)"
  unfolding xa_access_kernel_va_def by (intro through_cache by_kernel_tables)

lemma read_kernel_va: "P inst \<Longrightarrow> stays P (read_long_kernel_va env inst v)"
  unfolding read_long_kernel_va_def by (intro stays_read_mapped kernel_va)

lemma task_search:
  assumes "P inst"
  shows "stays P (task_walk env po to pid lh nx inst)"
proof -
  have "P inst \<longrightarrow> P (snd y)" if "task_walk env po to pid lh nx inst = Some y" for y
    using that
  proof (rule task_walk.raw_induct [rotated, where P = "\<lambda>env po to pid lh nx inst y. P inst \<longrightarrow> P (snd y)"])
    fix f :: "xa_env \<Rightarrow> u32 \<Rightarrow> u32 \<Rightarrow> u32 \<Rightarrow> u32 \<Rightarrow> u32 \<Rightarrow> xa_instance
        \<Rightarrow> ((mapping \<times> u32) option \<times> xa_instance) option"
      and env po to pid lh nx inst y
    assume "\<And>env po to pid lh nx inst y. f env po to pid lh nx inst = Some y \<Longrightarrow> P inst \<longrightarrow> P (snd y)"
    then have k: "P i \<Longrightarrow> stays P (f env po to pid lh n i)" for n i by (force simp: stays_def)
    assume run: "xa_access_kernel_va env inst nx PROT_READ \<bind>
      (\<lambda>(m, inst1). case m of None \<Rightarrow> Some (None, inst1)
         | Some (memory, offset) \<Rightarrow> rd32 (map_bytes memory) (unat offset) \<bind>
             (\<lambda>next1. if lh = next1 then Some (None, inst1)
                else rd_rel (map_bytes memory) offset po to \<bind>
                  (\<lambda>task_pid. if task_pid = pid then Some (Some (memory, offset), inst1)
                     else f env po to pid lh next1 inst1))) = Some y" (is "?r = _")
    have "P inst \<Longrightarrow> stays P ?r"
      by (intro stays_bind2 [OF kernel_va] stays_prod stays_option stays_if stays_Some k stays_bind_pure)
    with run show "P inst \<longrightarrow> P (snd y)" by (cases y) (auto simp: stays_def)
  qed
  then show ?thesis using assms by (force simp: stays_def)
qed

lemma taskstruct: "P inst \<Longrightarrow> stays P (linux_get_taskstruct env inst pid)"
  unfolding linux_get_taskstruct_def by (rule task_search)

lemma linux_pgd: "P inst \<Longrightarrow> stays P (linux_pid_to_pgd env inst pid)"
  unfolding linux_pid_to_pgd_def Let_def
  by (intro stays_bind2 [OF taskstruct] stays_bind2 [OF read_kernel_va] enter_pid stays_prod stays_option stays_Some stays_bind_pure)

lemma eprocess: "P inst \<Longrightarrow> stays P (windows_get_EPROCESS env inst pid)"
  unfolding windows_get_EPROCESS_def by (rule task_search)

lemma windows_pgd: "P inst \<Longrightarrow> stays P (windows_pid_to_pgd env inst pid)"
  unfolding windows_pid_to_pgd_def Let_def
  by (intro stays_bind2 [OF eprocess] enter_pid stays_prod stays_option stays_Some stays_bind_pure)

lemma pgd: "P inst \<Longrightarrow> stays P (xa_pid_to_pgd env inst pid)"
  unfolding xa_pid_to_pgd_def by (intro stays_bind2 [OF check_pid] stays_option stays_if linux_pgd windows_pgd stays_Some)

lemma by_process_tables: "P inst \<Longrightarrow> stays P (user_translate env v pid inst)"
  unfolding user_translate_def by (intro stays_if by_kernel_tables stays_bind2 [OF pgd] stays_Some stays_bind_pure)

lemma user_va: "P inst \<Longrightarrow> stays P (xa_access_user_va env inst v pid prot)"
  unfolding xa_access_user_va_def by (intro through_cache by_process_tables)

end

text \<open>A predicate that survives every change of the caches survives every call.\<close>

sublocale update_stable \<subseteq> access_stable P env for env
  by unfold_locales (fact update_cache kernel_va user_va pgd task_search)+

section \<open>The fixed part of an instance\<close>

interpretation fixed_part: update_stable "\<lambda>inst. fixed inst = fx" for fx
proof
  have check: "stays (\<lambda>i. fixed i = fixed inst) (xa_check_pid_cache_helper env inst pid)" for env inst pid
    by (auto simp: xa_check_pid_cache_helper_def stays_def split: Option.bind_split_asm option.split_asm)
  show "fixed inst = fx \<Longrightarrow> stays (\<lambda>i. fixed i = fx) (xa_check_cache_sym env inst s pid)" for env inst s pid
    by (auto simp: xa_check_cache_sym_def stays_def split: Option.bind_split_asm option.split_asm)
  show "fixed inst = fx \<Longrightarrow> stays (\<lambda>i. fixed i = fx) (xa_check_cache_virt env inst v pid)" for env inst v pid
    by (auto simp: xa_check_cache_virt_def stays_def split: Option.bind_split_asm option.split_asm)
  show "fixed inst = fx \<Longrightarrow> stays (\<lambda>i. fixed i = fx) (xa_check_pid_cache env inst pid)" for env inst pid
    using staysD [OF check] by (fastforce simp: xa_check_pid_cache_def stays_def split: Option.bind_split_asm option.split_asm)
  show "fixed inst = fx \<Longrightarrow> xa_update_cache env inst s v pid a = Some inst' \<Longrightarrow> fixed inst' = fx" for env inst s v pid a inst'
    by (auto simp: xa_update_cache_def Let_def split: Option.bind_split_asm option.split_asm if_split_asm)
  show "fixed inst = fx \<Longrightarrow> xa_update_pid_cache env inst pid pgd = Some inst' \<Longrightarrow> fixed inst' = fx" for env inst pid pgd inst'
    using staysD [OF check]
    by (fastforce simp: xa_update_pid_cache_def split: Option.bind_split_asm option.split_asm if_split_asm)
qed simp_all

section \<open>Well-formed caches\<close>

definition caches_ok :: "xa_instance \<Rightarrow> bool" where
  "caches_ok inst \<longleftrightarrow> cache_ok inst \<and> pid_cache_ok inst"

lemma caches_ok_cache:
  "caches_ok inst \<Longrightarrow> only_cache inst inst' \<Longrightarrow> cache_ok inst' \<Longrightarrow> caches_ok inst'"
  using only_cache_pid_cache [of inst inst'] by (auto simp: caches_ok_def pid_cache_ok_def)

lemma caches_ok_pid_cache:
  "caches_ok inst \<Longrightarrow> only_pid_cache inst inst' \<Longrightarrow> pid_cache_ok inst' \<Longrightarrow> caches_ok inst'"
  unfolding caches_ok_def cache_ok_def only_pid_cache_def
  by (metis xa_instance.select_convs(15) xa_instance.surjective xa_instance.update_convs(16,21))

lemma caches_ok_check_sym: "caches_ok inst \<Longrightarrow> stays caches_ok (xa_check_cache_sym env inst s pid)"
proof -
  assume ok: "caches_ok inst"
  then obtain xs where "lru_rep (cache inst) xs" "length xs \<le> 25" by (auto simp: caches_ok_def cache_ok_def)
  from xa_check_cache_sym_rep [OF this(1), of env s pid] this(2) caches_ok_cache [OF ok]
  show ?thesis by (fastforce simp: stays_def cache_ok_def)
qed

lemma caches_ok_check_virt: "caches_ok inst \<Longrightarrow> stays caches_ok (xa_check_cache_virt env inst v pid)"
proof -
  assume ok: "caches_ok inst"
  then obtain xs where "lru_rep (cache inst) xs" "length xs \<le> 25" by (auto simp: caches_ok_def cache_ok_def)
  from xa_check_cache_virt_rep [OF this(1) refl, of env v pid] this(2) caches_ok_cache [OF ok]
  show ?thesis by (fastforce simp: stays_def cache_ok_def)
qed

lemma caches_ok_check_pid: "caches_ok inst \<Longrightarrow> stays caches_ok (xa_check_pid_cache env inst pid)"
proof -
  assume ok: "caches_ok inst"
  then obtain xs where xs: "lru_rep (pid_cache inst) xs" "length xs \<le> 5" "distinct (map pce_pid xs)" "0 \<notin> pce_pid ` set xs"
    by (auto simp: caches_ok_def pid_cache_ok_def)
  from xa_check_pid_cache_rep [OF xs(1), of env pid] pid_cache_ok_touch [OF _ xs(2-4)] caches_ok_pid_cache [OF ok]
  show ?thesis by (fastforce simp: stays_def)
qed

lemma caches_ok_update: "caches_ok inst \<Longrightarrow> xa_update_cache env inst s v pid a = Some inst' \<Longrightarrow> caches_ok inst'"
proof -
  assume ok: "caches_ok inst" and u: "xa_update_cache env inst s v pid a = Some inst'"
  obtain xs where xs: "lru_rep (cache inst) xs" "length xs \<le> 25" using ok by (auto simp: caches_ok_def cache_ok_def)
  from xa_update_cache_inv [OF xs(1) u] have "cache_ok inst'" "only_cache inst inst'"
    using length_update_seq [OF xs(2)] unfolding cache_ok_def by blast+
  then show ?thesis using caches_ok_cache [OF ok] by blast
qed

lemma caches_ok_update_pid: "caches_ok inst \<Longrightarrow> xa_update_pid_cache env inst pid pgd = Some inst' \<Longrightarrow> caches_ok inst'"
proof -
  assume ok: "caches_ok inst" and u: "xa_update_pid_cache env inst pid pgd = Some inst'"
  obtain xs where xs: "lru_rep (pid_cache inst) xs" "length xs \<le> 5" "distinct (map pce_pid xs)" "0 \<notin> pce_pid ` set xs"
    using ok by (auto simp: caches_ok_def pid_cache_ok_def)
  from xa_update_pid_cache_rep [OF xs(1), of env pid pgd] u
  have "lru_rep (pid_cache inst') (update_pid_seq (now env inst) pid pgd xs)" "only_pid_cache inst inst'" by auto
  then have "pid_cache_ok inst'" "only_pid_cache inst inst'"
    using update_pid_seq_ok [OF xs(2-4)] unfolding pid_cache_ok_def by blast+
  then show ?thesis using caches_ok_pid_cache [OF ok] by blast
qed

interpretation caches: update_stable caches_ok
  by unfold_locales
    (fact caches_ok_check_sym caches_ok_check_virt caches_ok_check_pid caches_ok_update caches_ok_update_pid |
     simp add: caches_ok_def cache_ok_def pid_cache_ok_def)+

end
