(* ===== verification/Xa_Coherence.thy ===== *)
theory Xa_Coherence
  imports Xa_Frame
begin

text \<open>
  What the library promises with its two caches out of sight. \<open>pgd_spec\<close> and
  \<open>user_va_spec\<close> say what a lookup and an access mean on the guest's memory alone; the
  operations agree with them on every instance that the library can reach.
\<close>

section \<open>Page directories\<close>

definition linux_pgd_spec :: "xa_env \<Rightarrow> xa_instance \<Rightarrow> u32 \<Rightarrow> u32 option" where
  "linux_pgd_spec env inst pid =
     (let l = linux_inst inst in do {
     m \<leftarrow> task_walk_spec env inst (l_pid_offset l) (l_tasks_offset l) pid (init_task inst) (init_task inst);
     (case m of
        None \<Rightarrow> Some 0
      | Some (memory, offset) \<Rightarrow> do {
          ptr \<leftarrow> rd_rel (map_bytes memory) offset (l_mm_offset l) (l_tasks_offset l);
          r \<leftarrow> kernel_long_spec env inst (ptr + l_pgd_offset l);
          xa_translate_kv2p env inst (out_val 0 r) }) })"

definition windows_pgd_spec :: "xa_env \<Rightarrow> xa_instance \<Rightarrow> u32 \<Rightarrow> u32 option" where
  "windows_pgd_spec env inst pid =
     (let w = windows_inst inst in do {
     m \<leftarrow> task_walk_spec env inst (w_pid_offset w) (w_tasks_offset w) pid (init_task inst) (init_task inst);
     (case m of
        None \<Rightarrow> Some 0
      | Some (memory, offset) \<Rightarrow> rd_rel (map_bytes memory) offset (w_pdbase_offset w) (w_tasks_offset w)) })"

definition pgd_spec :: "xa_env \<Rightarrow> xa_instance \<Rightarrow> u32 \<Rightarrow> u32 option" where
  "pgd_spec env inst pid =
     (if os_type inst = XA_OS_LINUX then linux_pgd_spec env inst pid
      else if os_type inst = XA_OS_WINDOWS then windows_pgd_spec env inst pid
      else Some 0)"

definition user_va_spec ::
  "xa_env \<Rightarrow> xa_instance \<Rightarrow> u32 \<Rightarrow> u32 \<Rightarrow> u32 \<Rightarrow> (mapping \<times> u32) option option" where
  "user_va_spec env inst v pid prot = do {
     a \<leftarrow> guest_tr env inst (pgd_spec env inst) pid v;
     Some (if a = 0 then None else xa_access_ma env inst a prot) }"

section \<open>Both caches\<close>

lemma only_pid_cache_cache: "only_pid_cache inst inst' \<Longrightarrow> cache inst' = cache inst"
  by (subst only_pid_cache_def [THEN iffD1]) (assumption, simp)

lemma guest_coherent_pid:
  assumes "guest_coherent env inst0 g inst" "only_pid_cache inst inst'" "pid_coherent g (pid_cache inst')"
  shows "guest_coherent env inst0 g inst'"
proof -
  have sg: "same_guest inst0 inst'"
    using assms(1) only_pid_cache_same_guest [OF assms(2)] same_guest_trans
    by (auto simp: guest_coherent_def)
  have "page_size inst' = page_size inst"
    by (rule same_guest_fields(5) [OF only_pid_cache_same_guest [OF assms(2)]])
  then show ?thesis using assms(1,3) sg only_pid_cache_cache [OF assms(2)]
    by (simp add: guest_coherent_def va_coherent_def)
qed

lemma xa_check_pid_cache_coherent:
  assumes "guest_coherent env inst0 g inst"
  shows "\<exists>hit inst'. xa_check_pid_cache env' inst pid = Some (hit, inst') \<and>
    guest_coherent env inst0 g inst' \<and> (\<forall>a. hit = Some a \<longrightarrow> g pid = Some a)"
proof -
  obtain ys where rep: "lru_rep (pid_cache inst) ys" and len: "length ys \<le> 5"
    and g: "\<forall>e\<in>set ys. g (pce_pid e) = Some (pce_pgd e)"
    using assms by (auto simp: guest_coherent_def pid_coherent_def)
  let ?f = "\<lambda>n :: xa_pid_cache_entry. n\<lparr>last_used := now env' inst\<rparr>"
  obtain inst' where c: "xa_check_pid_cache env' inst pid
      = Some (map_option pce_pgd (List.find (\<lambda>n. pce_pid n = pid) ys), inst')"
    "lru_rep (pid_cache inst') (upd_first (\<lambda>n. pce_pid n = pid) ?f ys)" "only_pid_cache inst inst'"
    using xa_check_pid_cache_rep [OF rep, of env' pid] by blast
  have "\<forall>e\<in>set (upd_first (\<lambda>n. pce_pid n = pid) ?f ys). g (pce_pid e) = Some (pce_pgd e)"
    by (rule upd_first_all [OF g]) simp
  then have "pid_coherent g (pid_cache inst')" using c(2) len by (auto simp: pid_coherent_def)
  moreover have "g pid = Some (pce_pgd n)" if "List.find (\<lambda>n. pce_pid n = pid) ys = Some n" for n
    using that g by (auto simp: find_Some_iff)
  ultimately show ?thesis using c(1) guest_coherent_pid [OF assms c(3)] by auto
qed

lemma xa_update_pid_cache_coherent:
  assumes "guest_coherent env inst0 g inst" "g pid = Some pgd"
  shows "\<exists>inst'. xa_update_pid_cache env inst pid pgd = Some inst' \<and> guest_coherent env inst0 g inst'"
proof -
  obtain ys where rep: "lru_rep (pid_cache inst) ys" and len: "length ys \<le> 5"
    and g: "\<forall>e\<in>set ys. g (pce_pid e) = Some (pce_pgd e)"
    using assms(1) by (auto simp: guest_coherent_def pid_coherent_def)
  let ?zs = "update_pid_seq (now env inst) pid pgd ys"
  obtain inst' where u: "xa_update_pid_cache env inst pid pgd = Some inst'"
    "lru_rep (pid_cache inst') ?zs" "only_pid_cache inst inst'"
    using xa_update_pid_cache_rep [OF rep, of env pid pgd] by auto
  have upd: "\<forall>e\<in>set (upd_first (\<lambda>n. pce_pid n = pid)
      (\<lambda>n. n\<lparr>last_used := now env inst, pce_pgd := pgd\<rparr>) ys). g (pce_pid e) = Some (pce_pgd e)"
    using assms(2) by (intro upd_first_all [OF g]) auto
  have "\<forall>e\<in>set ?zs. g (pce_pid e) = Some (pce_pgd e)"
    using g upd assms(2) set_drop_oldest(1) [of ys] by (auto simp: update_pid_seq_def)
  moreover have "length ?zs \<le> 5" by (rule length_update_pid_seq [OF len])
  ultimately have "pid_coherent g (pid_cache inst')" using u(2) by (auto simp: pid_coherent_def)
  then show ?thesis using u(1) guest_coherent_pid [OF assms(1) u(3)] by blast
qed

text \<open>An operation \<open>f\<close> that answers \<open>spec\<close> and keeps the caches coherent.\<close>

definition answers :: "xa_env \<Rightarrow> xa_instance \<Rightarrow> (u32 \<Rightarrow> u32 option) \<Rightarrow> ('a \<times> xa_instance) option \<Rightarrow> 'a option \<Rightarrow> bool" where
  "answers env inst0 g f spec \<longleftrightarrow> map_option fst f = spec \<and>
     (\<forall>r inst'. f = Some (r, inst') \<longrightarrow> guest_coherent env inst0 g inst')"

lemma answersI:
  "spec = None \<Longrightarrow> f = None \<Longrightarrow> answers env inst0 g f spec"
  "f = Some (r, inst') \<Longrightarrow> spec = Some r \<Longrightarrow> guest_coherent env inst0 g inst' \<Longrightarrow> answers env inst0 g f spec"
  by (simp_all add: answers_def)

lemma answers_bind:
  assumes "answers env inst0 g f spec"
    and "\<And>r inst1. spec = Some r \<Longrightarrow> guest_coherent env inst0 g inst1 \<Longrightarrow> answers env inst0 g (h (r, inst1)) (k r)"
  shows "answers env inst0 g (Option.bind f h) (Option.bind spec k)"
proof (cases f)
  case None
  then show ?thesis using assms(1) by (auto simp: answers_def)
next
  case (Some p)
  then show ?thesis using assms by (cases p) (auto simp: answers_def)
qed

lemma answers_bind_pure:
  "(\<And>x. v = Some x \<Longrightarrow> answers env inst0 g (h x) (k x)) \<Longrightarrow> answers env inst0 g (Option.bind v h) (Option.bind v k)"
  by (cases v) (auto simp: answers_def)

lemma answers_kernel_va:
  "guest_coherent env inst0 g inst \<Longrightarrow> answers env inst0 g (xa_access_kernel_va env inst v prot) (kernel_va_spec env inst0 v prot)"
  by (auto simp: answers_def xa_access_kernel_va_coherent)

lemma answers_task_walk:
  "guest_coherent env inst0 g inst \<Longrightarrow>
    answers env inst0 g (task_walk env po to pid lh nx inst) (task_walk_spec env inst0 po to pid lh nx)"
  by (erule task_walk_cases [of _ _ _ _ po to pid lh nx]) (auto simp: answers_def)

lemma answers_read_long:
  "guest_coherent env inst0 g inst \<Longrightarrow> answers env inst0 g (read_long_kernel_va env inst v) (kernel_long_spec env inst0 v)"
  by (erule read_long_kernel_va_cases [of _ _ _ _ v]) (auto simp: answers_def)

lemma guest_coherent_same: "guest_coherent env inst0 g inst \<Longrightarrow> same_guest inst0 inst"
  by (simp add: guest_coherent_def)

lemma answers_get_taskstruct:
  assumes "guest_coherent env inst0 g inst"
  shows "answers env inst0 g (linux_get_taskstruct env inst pid)
    (task_walk_spec env inst0 (l_pid_offset (linux_inst inst0)) (l_tasks_offset (linux_inst inst0)) pid
      (init_task inst0) (init_task inst0))"
  unfolding linux_get_taskstruct_def same_guest_fields [OF guest_coherent_same [OF assms]]
  using assms by (rule answers_task_walk)

lemma answers_get_EPROCESS:
  assumes "guest_coherent env inst0 g inst"
  shows "answers env inst0 g (windows_get_EPROCESS env inst pid)
    (task_walk_spec env inst0 (w_pid_offset (windows_inst inst0)) (w_tasks_offset (windows_inst inst0)) pid
      (init_task inst0) (init_task inst0))"
  unfolding windows_get_EPROCESS_def same_guest_fields [OF guest_coherent_same [OF assms]]
  using assms by (rule answers_task_walk)

text \<open>Entering a page directory in the pid cache, where \<open>g\<close> agrees with it.\<close>

lemma answers_enter_pid:
  assumes "guest_coherent env inst0 g inst" "g pid = Some pgd"
  shows "answers env inst0 g (Option.bind (xa_update_pid_cache env inst pid pgd) (\<lambda>i. Some (pgd, i))) (Some pgd)"
  using xa_update_pid_cache_coherent [OF assms] by (auto simp: answers_def)

lemma answers_pgd_at:
  assumes c: "guest_coherent env inst0 g inst"
    and g: "\<And>r. kernel_long_spec env inst0 v = Some r \<Longrightarrow> g pid = xa_translate_kv2p env inst0 (out_val 0 r)"
  shows "answers env inst0 g
    (do { (r, inst2) \<leftarrow> read_long_kernel_va env inst v;
          pgd \<leftarrow> xa_translate_kv2p env inst2 (out_val 0 r);
          inst3 \<leftarrow> xa_update_pid_cache env inst2 pid pgd;
          Some (pgd, inst3) })
    (do { r \<leftarrow> kernel_long_spec env inst0 v; xa_translate_kv2p env inst0 (out_val 0 r) })"
proof (intro answers_bind [OF answers_read_long [OF c]])
  fix r inst2
  assume r: "kernel_long_spec env inst0 v = Some r" and c2: "guest_coherent env inst0 g inst2"
  show "answers env inst0 g (case (r, inst2) of (r, inst2) \<Rightarrow> do {
      pgd \<leftarrow> xa_translate_kv2p env inst2 (out_val 0 r);
      inst3 \<leftarrow> xa_update_pid_cache env inst2 pid pgd;
      Some (pgd, inst3) }) (xa_translate_kv2p env inst0 (out_val 0 r))"
    unfolding prod.case same_guest_walk(3) [OF guest_coherent_same [OF c2]]
    by (cases "xa_translate_kv2p env inst0 (out_val 0 r)")
      (use answers_enter_pid [OF c2] g [OF r] in \<open>auto intro: answersI(1)\<close>)
qed

lemma answers_linux_pgd:
  assumes "guest_coherent env inst0 g inst" "g pid = linux_pgd_spec env inst0 pid"
  shows "answers env inst0 g (linux_pid_to_pgd env inst pid) (linux_pgd_spec env inst0 pid)"
  unfolding linux_pid_to_pgd_def linux_pgd_spec_def same_guest_fields [OF guest_coherent_same [OF assms(1)]] Let_def
proof (intro answers_bind [OF answers_get_taskstruct [OF assms(1)]])
  let ?l = "linux_inst inst0"
  fix m inst1
  assume m: "task_walk_spec env inst0 (l_pid_offset ?l) (l_tasks_offset ?l) pid (init_task inst0) (init_task inst0) = Some m"
    and c: "guest_coherent env inst0 g inst1"
  note sp = assms(2) [unfolded linux_pgd_spec_def Let_def m]
  show "answers env inst0 g (case (m, inst1) of (m, inst1) \<Rightarrow> (case m of
        None \<Rightarrow> Some (0, inst1)
      | Some (memory, offset) \<Rightarrow> do {
          ptr \<leftarrow> rd_rel (map_bytes memory) offset (l_mm_offset ?l) (l_tasks_offset ?l);
          (r, inst2) \<leftarrow> read_long_kernel_va env inst1 (ptr + l_pgd_offset ?l);
          pgd \<leftarrow> xa_translate_kv2p env inst2 (out_val 0 r);
          inst3 \<leftarrow> xa_update_pid_cache env inst2 pid pgd;
          Some (pgd, inst3) }))
     (case m of
        None \<Rightarrow> Some 0
      | Some (memory, offset) \<Rightarrow> do {
          ptr \<leftarrow> rd_rel (map_bytes memory) offset (l_mm_offset ?l) (l_tasks_offset ?l);
          r \<leftarrow> kernel_long_spec env inst0 (ptr + l_pgd_offset ?l);
          xa_translate_kv2p env inst0 (out_val 0 r) })"
  proof (cases m)
    case None
    with c show ?thesis by (simp add: answers_def)
  next
    case (Some mo)
    then obtain memory offset where mo: "m = Some (memory, offset)" by (cases mo) auto
    show ?thesis unfolding mo prod.case option.case
      by (intro answers_bind_pure answers_pgd_at [OF c]) (use sp in \<open>simp add: mo\<close>)
  qed
qed

lemma answers_windows_pgd:
  assumes "guest_coherent env inst0 g inst" "g pid = windows_pgd_spec env inst0 pid"
  shows "answers env inst0 g (windows_pid_to_pgd env inst pid) (windows_pgd_spec env inst0 pid)"
  unfolding windows_pid_to_pgd_def windows_pgd_spec_def same_guest_fields [OF guest_coherent_same [OF assms(1)]] Let_def
proof (intro answers_bind [OF answers_get_EPROCESS [OF assms(1)]])
  let ?w = "windows_inst inst0"
  fix m inst1
  assume m: "task_walk_spec env inst0 (w_pid_offset ?w) (w_tasks_offset ?w) pid (init_task inst0) (init_task inst0) = Some m"
    and c: "guest_coherent env inst0 g inst1"
  note sp = assms(2) [unfolded windows_pgd_spec_def Let_def m]
  show "answers env inst0 g (case (m, inst1) of (m, inst1) \<Rightarrow> (case m of
        None \<Rightarrow> Some (0, inst1)
      | Some (memory, offset) \<Rightarrow> do {
          pgd \<leftarrow> rd_rel (map_bytes memory) offset (w_pdbase_offset ?w) (w_tasks_offset ?w);
          inst2 \<leftarrow> xa_update_pid_cache env inst1 pid pgd;
          Some (pgd, inst2) }))
     (case m of
        None \<Rightarrow> Some 0
      | Some (memory, offset) \<Rightarrow> rd_rel (map_bytes memory) offset (w_pdbase_offset ?w) (w_tasks_offset ?w))"
  proof (cases m)
    case None
    with c show ?thesis by (simp add: answers_def)
  next
    case (Some mo)
    then obtain memory offset where mo: "m = Some (memory, offset)" by (cases mo) auto
    have "g pid = rd_rel (map_bytes memory) offset (w_pdbase_offset ?w) (w_tasks_offset ?w)"
      using sp unfolding mo by simp
    then show ?thesis unfolding mo prod.case option.case
      by (cases "rd_rel (map_bytes memory) offset (w_pdbase_offset ?w) (w_tasks_offset ?w)")
        (use answers_enter_pid [OF c] in \<open>auto intro: answersI(1)\<close>)
  qed
qed

abbreviation (input) coherent :: "xa_env \<Rightarrow> xa_instance \<Rightarrow> xa_instance \<Rightarrow> bool" where
  "coherent env inst0 inst \<equiv> guest_coherent env inst0 (pgd_spec env inst0) inst"

lemma answers_pid_to_pgd:
  assumes "coherent env inst0 inst"
  shows "answers env inst0 (pgd_spec env inst0) (xa_pid_to_pgd env inst pid) (pgd_spec env inst0 pid)"
proof -
  obtain hit inst1 where c: "xa_check_pid_cache env inst pid = Some (hit, inst1)" "coherent env inst0 inst1"
    "\<And>a. hit = Some a \<Longrightarrow> pgd_spec env inst0 pid = Some a"
    using xa_check_pid_cache_coherent [OF assms, of env pid] by blast
  have os: "os_type inst1 = os_type inst0"
    by (rule same_guest_fields(8) [OF guest_coherent_same [OF c(2)]])
  show ?thesis
  proof (cases hit)
    case (Some a)
    then show ?thesis using c by (simp add: xa_pid_to_pgd_def answers_def)
  next
    case None
    then show ?thesis
      using c(1,2) answers_linux_pgd [OF c(2), of pid] answers_windows_pgd [OF c(2), of pid]
      by (auto simp: xa_pid_to_pgd_def os pgd_spec_def answers_def)
  qed
qed

lemma answers_user_translate:
  assumes "coherent env inst0 inst"
  shows "answers env inst0 (pgd_spec env inst0) (user_translate env v pid inst)
    (guest_tr env inst0 (pgd_spec env inst0) pid v)"
proof (cases "pid = 0")
  case True
  have "guest_tr env inst g 0 v = guest_tr env inst0 g 0 v" for g
    by (simp add: guest_tr_def same_guest_walk [OF guest_coherent_same [OF assms]])
  then show ?thesis
    using assms kernel_translate_tr(1) [of env v inst] kernel_translate_tr(2) [of env v inst] True
    by (auto simp: user_translate_def answers_def)
next
  case False
  have "answers env inst0 (pgd_spec env inst0) (Option.bind (xa_pid_to_pgd env inst pid) (\<lambda>(pgd, inst1).
        if pgd \<noteq> 0 then do { address \<leftarrow> xa_pagetable_lookup env inst1 pgd v; Some (address, inst1) }
        else Some (0, inst1)))
      (Option.bind (pgd_spec env inst0 pid) (\<lambda>pgd. if pgd = 0 then Some 0 else xa_pagetable_lookup env inst0 pgd v))"
  proof (intro answers_bind [OF answers_pid_to_pgd [OF assms]])
    fix pgd inst1
    assume c: "coherent env inst0 inst1"
    show "answers env inst0 (pgd_spec env inst0) (case (pgd, inst1) of (pgd, inst1) \<Rightarrow>
        if pgd \<noteq> 0 then do { address \<leftarrow> xa_pagetable_lookup env inst1 pgd v; Some (address, inst1) }
        else Some (0, inst1)) (if pgd = 0 then Some 0 else xa_pagetable_lookup env inst0 pgd v)"
      unfolding prod.case same_guest_walk(1) [OF guest_coherent_same [OF c]]
      using c by (cases "xa_pagetable_lookup env inst0 pgd v") (auto simp: answers_def)
  qed
  then show ?thesis using False by (simp add: user_translate_def guest_tr_def)
qed

lemma answers_user_va:
  assumes "coherent env inst0 inst"
  shows "answers env inst0 (pgd_spec env inst0) (xa_access_user_va env inst v pid prot)
    (user_va_spec env inst0 v pid prot)"
proof -
  let ?g = "pgd_spec env inst0" and ?tr = "guest_tr env inst0 (pgd_spec env inst0)"
  have sg: "same_guest inst0 inst" and va: "va_coherent ?tr inst" and pc: "pid_coherent ?g (pid_cache inst)"
    using assms by (simp_all add: guest_coherent_def)
  have t: "map_option fst (user_translate env v pid inst1) = ?tr pid v \<and>
      (\<forall>a inst2. user_translate env v pid inst1 = Some (a, inst2) \<longrightarrow>
        va_coherent ?tr inst2 \<and> same_guest inst1 inst2 \<and> pid_coherent ?g (pid_cache inst2))"
    if "va_coherent ?tr inst1" "only_cache inst inst1" "pid_coherent ?g (pid_cache inst1)" for inst1
  proof -
    have sg1: "same_guest inst0 inst1" by (rule same_guest_trans [OF sg only_cache_same_guest [OF that(2)]])
    then have "coherent env inst0 inst1" using that by (simp add: guest_coherent_def)
    from answers_user_translate [OF this, of v pid] same_guest_back [OF sg1] show ?thesis
      by (auto simp: answers_def guest_coherent_def)
  qed
  note a = guest.access_va_spec [where J = "pid_coherent ?g", OF va pc t, simplified]
  have "map_option fst (xa_access_user_va env inst v pid prot) = user_va_spec env inst0 v pid prot"
    unfolding xa_access_user_va_def a(1) user_va_spec_def same_guest_map [OF sg]
    by (simp add: map_conv_bind_option comp_def)
  moreover have "coherent env inst0 inst'" if "xa_access_user_va env inst v pid prot = Some (r, inst')" for r inst'
    using a(2) [OF that [unfolded xa_access_user_va_def]] same_guest_trans [OF sg]
    by (auto simp: guest_coherent_def)
  ultimately show ?thesis by (simp add: answers_def)
qed

section \<open>Reachable instances\<close>

lemma guest_coherent_only_cache:
  assumes "guest_coherent env inst0 g inst" "va_coherent (guest_tr env inst0 g) inst' \<and> only_cache inst inst'"
  shows "guest_coherent env inst0 g inst'"
  using assms same_guest_trans [OF _ only_cache_same_guest] only_cache_pid_cache
  by (auto simp: guest_coherent_def)

text \<open>Looking into the caches and entering a symbol keeps them coherent, and so do the accesses to the
  kernel, whatever the page directories of the processes are.\<close>

lemma answers_stays: "answers env inst0 g f spec \<Longrightarrow> stays (guest_coherent env inst0 g) f"
  by (auto simp: answers_def stays_def)

interpretation kernel: symbol_stable "guest_coherent env inst0 g" env for env inst0 g
proof
  fix env' inst s pid v prot inst'
  assume c: "guest_coherent env inst0 g inst"
  show "stays (guest_coherent env inst0 g) (xa_check_cache_sym env' inst s pid)"
    using guest_coherent_only_cache [OF c] va_coherent_check_sym c by (fastforce simp: stays_def guest_coherent_def)
  show "stays (guest_coherent env inst0 g) (xa_check_cache_virt env' inst v pid)"
    using guest_coherent_only_cache [OF c] va_coherent_hit [of "guest_tr env inst0 g" inst env' v pid] c
    by (fastforce simp: stays_def guest_coherent_def)
  show "stays (guest_coherent env inst0 g) (xa_check_pid_cache env' inst pid)"
    using xa_check_pid_cache_coherent [OF c, of env' pid] by (auto simp: stays_def)
  show "guest_coherent env inst0 g inst'" if "xa_update_cache env inst (Some s) v 0 0 = Some inst'"
    using guest_coherent_only_cache [OF c] va_coherent_update_sym [OF _ that] c by (auto simp: guest_coherent_def)
  show "stays (guest_coherent env inst0 g) (xa_access_kernel_va env inst v prot)"
    using answers_stays [OF answers_kernel_va [OF c]] .
qed (auto simp: guest_coherent_def same_guest_def va_coherent_def)

text \<open>So does every call of the library, with the directories that the process list leads to.\<close>

interpretation coherence: access_stable "coherent env inst0" env for env inst0
  by unfold_locales (auto intro: answers_stays answers_user_va answers_pid_to_pgd answers_task_walk)

definition fresh_caches :: "xa_instance \<Rightarrow> bool" where
  "fresh_caches inst \<longleftrightarrow> cache inst = lru_init \<and> pid_cache inst = lru_init \<and> page_size inst = 4096"

lemma fresh_coherent: "fresh_caches inst \<Longrightarrow> guest_coherent env inst g inst"
  using lru_rep_init
  by (auto simp: fresh_caches_def guest_coherent_def va_coherent_def pid_coherent_def intro!: exI [of _ "[]"])

lemma reachable_coherent:
  assumes "(lib_step env)\<^sup>*\<^sup>* inst0 inst" "fresh_caches inst0"
  shows "coherent env inst0 inst"
  using assms(1) fresh_coherent [OF assms(2)] by (rule coherence.reachable)

text \<open>Of the environment only the mapping functions and the control registers matter to the translation of
  addresses and to accesses of memory.\<close>

lemma machine_access_ma:
  "xc_map_foreign_range env' = xc_map_foreign_range env \<Longrightarrow> mmap_file env' = mmap_file env \<Longrightarrow> xa_access_ma env' = xa_access_ma env"
  by (intro ext) (simp add: xa_access_ma_def xa_mmap_mfn_def xa_map_page_def xa_map_file_range_def Let_def)

lemma machine_translate:
  assumes "xc_map_foreign_range env' = xc_map_foreign_range env" "mmap_file env' = mmap_file env" "vcpu_ctrlreg env' = vcpu_ctrlreg env"
  shows "xa_translate_kv2p env' = xa_translate_kv2p env"
proof -
  have r: "xa_read_long_mach env' = xa_read_long_mach env" "xa_read_long_long_mach env' = xa_read_long_long_mach env"
    by (simp_all add: fun_eq_iff xa_read_long_mach_def xa_read_long_long_mach_def machine_access_ma [OF assms(1,2)])
  have "v2p_nopae env' inst c v = v2p_nopae env inst c v" "v2p_pae env' inst c v = v2p_pae env inst c v" for inst c v
    unfolding v2p_nopae_def v2p_pae_def get_pgd_nopae_def get_pte_nopae_def get_pdpi_def get_pgd_pae_def get_pte_pae_def r
    by (rule refl)+
  moreover have "xa_current_cr3 env' = xa_current_cr3 env" by (intro ext) (simp add: xa_current_cr3_def assms(3))
  ultimately show ?thesis by (intro ext) (simp add: xa_translate_kv2p_def xa_pagetable_lookup_def)
qed

section \<open>A guest with processes\<close>

text \<open>A Linux guest with three tasks, linked through the page at 0x1000: the idle task, process 42
  and process 7. The links are at offset 0 and the pids at offset 4 of a task.\<close>

definition task_page :: "u8 list" where
  "task_page = [0x08, 0x10, 0, 0, 0, 0, 0, 0, 0x10, 0x10, 0, 0, 42, 0, 0, 0, 0x00, 0x10, 0, 0, 7, 0, 0, 0]"

definition task_env :: xa_env where
  "task_env = flat_env (\<lambda>f. task_page)"

definition task_inst :: xa_instance where
  "task_inst = std_inst\<lparr>os_type := XA_OS_LINUX, init_task := 0x1000,
     linux_inst := \<lparr>l_tasks_offset = 0, l_mm_offset = 8, l_pid_offset = 4, l_pgd_offset = 0, l_addr_offset = 0\<rparr>,
     windows_inst := (windows_inst std_inst)\<lparr>w_tasks_offset := 0, w_pid_offset := 4\<rparr>\<rparr>"

lemma task_inst_simps [simp]:
  "plain_inst task_inst" "\<not> pae task_inst" "init_task task_inst = 0x1000" "fresh_caches task_inst"
  "linux_inst task_inst = \<lparr>l_tasks_offset = 0, l_mm_offset = 8, l_pid_offset = 4, l_pgd_offset = 0, l_addr_offset = 0\<rparr>"
  "w_tasks_offset (windows_inst task_inst) = 0" "w_pid_offset (windows_inst task_inst) = 4"
  by (simp_all add: task_inst_def plain_inst_def std_pages_def std_inst_def xa_instance_zero_def fresh_caches_def)

lemma task_va:
  "v < 0x400000 \<Longrightarrow> v \<noteq> 0 \<Longrightarrow> drop_bit 12 v \<noteq> 0 \<Longrightarrow>
    kernel_va_spec task_env task_inst v prot = Some (Some (map_page_of prot task_page, 0xFFF AND v))"
  unfolding kernel_va_spec_def task_env_def by (simp add: flat_kv2p flat_access_ma)

lemma task_list_demo:
  "task_list task_env task_inst 4 0 0x1000 [(0x1000, 0), (0x1008, 42), (0x1010, 7)]"
  by (simp add: task_va map_page_of_def rd_rel_def rd_def task_page_def)

lemma task_step:
  "\<exists>inst'. lib_step task_env task_inst inst' \<and>
    xa_access_kernel_va task_env task_inst 0x1008 PROT_READ = Some (Some (map_page_of PROT_READ task_page, 8), inst')"
proof -
  have "map_option fst (xa_access_kernel_va task_env task_inst 0x1008 PROT_READ)
      = Some (Some (map_page_of PROT_READ task_page, 8))"
    by (subst xa_access_kernel_va_coherent(1) [OF fresh_coherent]) (simp_all add: task_va)
  then show ?thesis by (auto intro: lib_step.kernel_va)
qed

section \<open>Properties\<close>

text \<open>The caches never show: in every state that calls of the library lead to from an instance
  with empty caches, an access to the memory of a process gives the page and offset that a walk of
  the process list and of the page tables gives, fails when that walk finds no page, and is undefined
  only when the walk is.\<close>

theorem xa_access_user_va_transparent:
  assumes "fresh_caches inst0" "(lib_step env)\<^sup>*\<^sup>* inst0 inst"
  shows "map_option fst (xa_access_user_va env inst v pid prot) = user_va_spec env inst0 v pid prot"
  using answers_user_va [OF reachable_coherent [OF assms(2,1)]] by (simp add: answers_def)

theorem xa_access_user_va_transparent_witness:
  "\<exists>inst. lib_step task_env task_inst inst \<and>
    map_option fst (xa_access_user_va task_env inst 0x1010 42 PROT_READ) = user_va_spec task_env task_inst 0x1010 42 PROT_READ"
proof -
  obtain inst where s: "lib_step task_env task_inst inst" using task_step by blast
  with xa_access_user_va_transparent [OF _ r_into_rtranclp [of "lib_step task_env", OF s], where v = "0x1010" and pid = 42 and prot = PROT_READ]
  show ?thesis by auto
qed

text \<open>The page directory of a process is the one its task structure names, whatever the pid cache
  holds and whichever calls came before.\<close>

theorem xa_pid_to_pgd_transparent:
  assumes "fresh_caches inst0" "(lib_step env)\<^sup>*\<^sup>* inst0 inst"
  shows "map_option fst (xa_pid_to_pgd env inst pid) = pgd_spec env inst0 pid"
  using answers_pid_to_pgd [OF reachable_coherent [OF assms(2,1)]] by (simp add: answers_def)

theorem xa_pid_to_pgd_transparent_witness:
  "\<exists>inst. lib_step task_env task_inst inst \<and> map_option fst (xa_pid_to_pgd task_env inst 42) = pgd_spec task_env task_inst 42"
proof -
  obtain inst where s: "lib_step task_env task_inst inst" using task_step by blast
  with xa_pid_to_pgd_transparent [OF _ r_into_rtranclp [of "lib_step task_env", OF s], where pid = 42]
  show ?thesis by auto
qed



text \<open>What a search of the list \<open>ts\<close> of addresses and pids gives.\<close>

definition search_spec :: "xa_env \<Rightarrow> xa_instance \<Rightarrow> (u32 \<times> u32) list \<Rightarrow> u32 \<Rightarrow> (mapping \<times> u32) option option" where
  "search_spec env inst0 ts pid = (case List.find (\<lambda>t. snd t = pid) (butlast ts) of
     None \<Rightarrow> Some None | Some t \<Rightarrow> kernel_va_spec env inst0 (fst t) PROT_READ)"

text \<open>(C4) Searching the process list ends and finds what is there: when the guest's memory holds a
  circular list of processes that starts at \<open>init_task\<close>, then in every reachable state
  \<open>linux_get_taskstruct\<close>, or \<open>windows_get_EPROCESS\<close> on a list with the Windows offsets,
  returns the first process with the pid among all but the last of the list, and NULL when none of those
  has it.\<close>

theorem process_search_finds:
  assumes "fresh_caches inst0" "(lib_step env)\<^sup>*\<^sup>* inst0 inst" "ts \<noteq> []" "fst (hd ts) = init_task inst0"
  shows "(task_list env inst0 (l_pid_offset (linux_inst inst0)) (l_tasks_offset (linux_inst inst0)) (init_task inst0) ts
      \<longrightarrow> map_option fst (linux_get_taskstruct env inst pid) = search_spec env inst0 ts pid) \<and>
    (task_list env inst0 (w_pid_offset (windows_inst inst0)) (w_tasks_offset (windows_inst inst0)) (init_task inst0) ts
      \<longrightarrow> map_option fst (windows_get_EPROCESS env inst pid) = search_spec env inst0 ts pid)"
proof -
  note c = reachable_coherent [OF assms(2,1)]
  note w = task_walk_list [OF c _ assms(3), where pid = pid]
  show ?thesis
    using w assms(4) unfolding linux_get_taskstruct_def windows_get_EPROCESS_def search_spec_def
      same_guest_fields [OF guest_coherent_same [OF c]] by simp
qed

theorem process_search_finds_witness:
  "\<exists>inst. lib_step task_env task_inst inst \<and>
    map_option fst (linux_get_taskstruct task_env inst 42) = Some (Some (map_page_of PROT_READ task_page, 8)) \<and>
    map_option fst (windows_get_EPROCESS task_env inst 42) = Some (Some (map_page_of PROT_READ task_page, 8))"
proof -
  obtain inst where s: "lib_step task_env task_inst inst" using task_step by blast
  with process_search_finds [OF _ r_into_rtranclp [of "lib_step task_env", OF s],
      of "[(0x1000, 0), (0x1008, 42), (0x1010, 7)]" 42]
  show ?thesis using task_list_demo by (auto simp: task_va search_spec_def)
qed

text \<open>The last entry of the circular list is invisible: it is
  never compared, so neither \<open>linux_get_taskstruct\<close> nor \<open>windows_get_EPROCESS\<close>
  finds it, although it is on the list. The initialisation starts the list behind the first process,
  so for a Windows guest this entry is the System process, for Linux the idle task.\<close>

theorem last_process_not_found:
  assumes "fresh_caches inst" "ts \<noteq> []" "fst (hd ts) = init_task inst" "snd (last ts) = pid" "pid \<notin> snd ` set (butlast ts)"
  shows "(task_list env inst (l_pid_offset (linux_inst inst)) (l_tasks_offset (linux_inst inst)) (init_task inst) ts
      \<longrightarrow> map_option fst (linux_get_taskstruct env inst pid) = Some None) \<and>
    (task_list env inst (w_pid_offset (windows_inst inst)) (w_tasks_offset (windows_inst inst)) (init_task inst) ts
      \<longrightarrow> map_option fst (windows_get_EPROCESS env inst pid) = Some None)"
proof -
  have n: "List.find (\<lambda>t. snd t = pid) (butlast ts) = None"
    using assms(5) by (force simp: find_None_iff)
  note w = task_walk_list [OF fresh_coherent [OF assms(1)] _ assms(2), where pid = pid]
  show ?thesis using w assms(3) n by (simp add: linux_get_taskstruct_def windows_get_EPROCESS_def)
qed

theorem last_process_not_found_witness:
  "map_option fst (linux_get_taskstruct task_env task_inst 7) = Some None \<and>
    task_list task_env task_inst 4 0 0x1000 [(0x1000, 0), (0x1008, 42), (0x1010, 7)]"
  using last_process_not_found [of task_inst "[(0x1000, 0), (0x1008, 42), (0x1010, 7)]" 7 task_env] task_list_demo
  by simp

end
