(* ===== verification/Xa_Config.thy ===== *)
theory Xa_Config
  imports Xa_Symbols
begin

text \<open>
  The configuration parser: the scanner of \<open>config/lexicon.l\<close> and the grammar of
  \<open>config/grammar.y\<close> with its actions. As flex does, the scanner takes the longest match, the
  first rule among equals, and passes over a character that no rule matches (it is echoed on standard
  output). As bison does, the parser performs an action when it has seen the right-hand side, and gives
  up at the first token that no rule allows.
\<close>

section \<open>Tokens\<close>

datatype conf_token =
    NUM string | LINUX_TASKS | LINUX_MM | LINUX_PID | LINUX_NAME | LINUX_PGD | LINUX_ADDR
  | WIN_NTOSKRNL | WIN_TASKS | WIN_PDBASE | WIN_PID | WIN_PEB | WIN_IBA | WIN_PH
  | SYSMAPTOK | OSTYPETOK | WORD string | FILENAME string
  | QUOTE | OBRACE | EBRACE | SEMICOLON | EQUALS

definition conf_keywords :: "(string \<times> conf_token) list" where
  "conf_keywords = [(''linux_tasks'', LINUX_TASKS), (''linux_mm'', LINUX_MM), (''linux_pid'', LINUX_PID),
     (''linux_pgd'', LINUX_PGD), (''linux_addr'', LINUX_ADDR), (''ntoskrnl'', WIN_NTOSKRNL),
     (''win_tasks'', WIN_TASKS), (''win_pdbase'', WIN_PDBASE), (''win_pid'', WIN_PID), (''win_peb'', WIN_PEB),
     (''win_iba'', WIN_IBA), (''win_ph'', WIN_PH), (''sysmap'', SYSMAPTOK), (''ostype'', OSTYPETOK)]"

section \<open>The scanner\<close>

definition conf_alpha :: "char \<Rightarrow> bool" where
  "conf_alpha c \<longleftrightarrow> (let n = (of_char c :: nat) in 65 \<le> n \<and> n \<le> 90 \<or> 97 \<le> n \<and> n \<le> 122)"

definition conf_digit :: "char \<Rightarrow> bool" where
  "conf_digit c \<longleftrightarrow> (let n = (of_char c :: nat) in 48 \<le> n \<and> n \<le> 57)"

definition conf_hex :: "char \<Rightarrow> bool" where
  "conf_hex c \<longleftrightarrow> (let n = (of_char c :: nat) in 48 \<le> n \<and> n \<le> 57 \<or> 97 \<le> n \<and> n \<le> 102 \<or> 65 \<le> n \<and> n \<le> 70)"

definition word_char :: "char \<Rightarrow> bool" where
  "word_char c \<longleftrightarrow> conf_alpha c \<or> conf_digit c \<or> c = CHR ''.'' \<or> c = CHR ''-''"

definition file_char :: "char \<Rightarrow> bool" where
  "file_char c \<longleftrightarrow> word_char c \<or> c = CHR ''/''"

text \<open>The length of the longest match of a rule at the start of the input, 0 for none.\<close>

definition match_text :: "string \<Rightarrow> string \<Rightarrow> nat" where
  "match_text k s = (if take (length k) s = k then length k else 0)"

definition match_hex :: "string \<Rightarrow> nat" where
  "match_hex s = (let h = length (takeWhile conf_hex (drop 2 s)) in
     if take 2 s = ''0x'' \<and> 0 < h then 2 + h else 0)"

definition match_num :: "string \<Rightarrow> nat" where
  "match_num s = max (match_hex s) (length (takeWhile conf_digit s))"

definition match_word :: "string \<Rightarrow> nat" where
  "match_word s = (case s of [] \<Rightarrow> 0
     | c # t \<Rightarrow> (let n = length (takeWhile word_char t) in if conf_alpha c \<and> 0 < n then Suc n else 0))"

definition match_file :: "string \<Rightarrow> nat" where
  "match_file s = length (takeWhile file_char s)"

definition blank :: "char \<Rightarrow> bool" where
  "blank c \<longleftrightarrow> c = CHR '' '' \<or> c = CHR 0x09"

definition match_comment :: "string \<Rightarrow> nat" where
  "match_comment s = (case s of [] \<Rightarrow> 0
     | c # t \<Rightarrow> if c = CHR ''#'' \<and> CHR 0x0A \<in> set t then length (takeWhile (\<lambda>c. c \<noteq> CHR 0x0A) t) + 2 else 0)"

text \<open>The rules in their order, each with its match and the token it returns, \<open>None\<close> when it
  returns none.\<close>

definition conf_rules :: "string \<Rightarrow> (nat \<times> conf_token option) list" where
  "conf_rules s = map (\<lambda>(k, t). (match_text k s, Some t)) conf_keywords @
     [(match_num s, Some (NUM (take (match_num s) s))),
      (match_word s, Some (WORD (take (match_word s) s))),
      (match_file s, Some (FILENAME (take (match_file s) s))),
      (match_text [CHR 0x22] s, Some QUOTE), (match_text ''{'' s, Some OBRACE), (match_text ''}'' s, Some EBRACE),
      (match_text '';'' s, Some SEMICOLON), (match_text ''='' s, Some EQUALS),
      (match_text [CHR 0x0A] s, None), (length (takeWhile blank s), None), (match_comment s, None)]"

definition longest :: "(nat \<times> conf_token option) list \<Rightarrow> nat \<times> conf_token option" where
  "longest rs = foldl (\<lambda>b r. if fst b < fst r then r else b) (0, None) rs"

function yylex :: "string \<Rightarrow> conf_token list" where
  "yylex s = (if s = [] then []
     else (let (n, t) = longest (conf_rules s) in
       (case t of None \<Rightarrow> [] | Some tok \<Rightarrow> [tok]) @ yylex (drop (max 1 n) s)))"
  by pat_completeness auto
termination by (relation "measure length") auto

declare yylex.simps [simp del]

section \<open>The grammar\<close>

text \<open>\<open>strtol(s, NULL, 0)\<close> with a 32-bit \<open>long\<close>.\<close>

definition strtol0 :: "string \<Rightarrow> int" where
  "strtol0 s =
     (let (neg, t) = strip_sign (dropWhile isspace s);
          n = int (if strip_0x t \<noteq> t then digits_val 16 (strip_0x t)
                   else if take 1 t = ''0'' then digits_val 8 t else digits_val 10 t)
      in if neg then max (- n) (- (2 ^ 31)) else min n (2 ^ 31 - 1))"

text \<open>\<open>xa_config_entry_t\<close> while it is filled in. The offsets of the two operating systems are a
  union, here its seven words.\<close>

record conf_entry =
  ce_domain_name :: string
  ce_sysmap :: string
  ce_ostype :: string
  ce_offsets :: "u32 list"

abbreviation (input) CONFIG_STR_LENGTH :: nat where "CONFIG_STR_LENGTH \<equiv> 1024"

definition conf_zero :: conf_entry where
  "conf_zero = \<lparr>ce_domain_name = [], ce_sysmap = [], ce_ostype = [], ce_offsets = replicate 7 0\<rparr>"

text \<open>The word of the union that an assignment of a number fills.\<close>

fun conf_slot :: "conf_token \<Rightarrow> nat option" where
  "conf_slot LINUX_TASKS = Some 0"
| "conf_slot LINUX_MM = Some 1"
| "conf_slot LINUX_PID = Some 2"
| "conf_slot LINUX_PGD = Some 3"
| "conf_slot LINUX_ADDR = Some 4"
| "conf_slot WIN_NTOSKRNL = Some 0"
| "conf_slot WIN_TASKS = Some 1"
| "conf_slot WIN_PDBASE = Some 2"
| "conf_slot WIN_PID = Some 3"
| "conf_slot WIN_PEB = Some 4"
| "conf_slot WIN_IBA = Some 5"
| "conf_slot WIN_PH = Some 6"
| "conf_slot t = None"

text \<open>The right-hand sides \<open>EQUALS NUM\<close>, \<open>EQUALS QUOTE FILENAME QUOTE\<close> and
  \<open>EQUALS QUOTE WORD QUOTE\<close>, with the tokens that follow.\<close>

definition conf_number :: "conf_token list \<Rightarrow> (string \<times> conf_token list) option" where
  "conf_number ts = (case ts of e # NUM n # r \<Rightarrow> if e = EQUALS then Some (n, r) else None | _ \<Rightarrow> None)"

definition conf_file :: "conf_token list \<Rightarrow> (string \<times> conf_token list) option" where
  "conf_file ts = (case ts of e # q # FILENAME f # q1 # r \<Rightarrow>
     if e = EQUALS \<and> q = QUOTE \<and> q1 = QUOTE then Some (f, r) else None | _ \<Rightarrow> None)"

definition conf_word :: "conf_token list \<Rightarrow> (string \<times> conf_token list) option" where
  "conf_word ts = (case ts of e # q # WORD w # q1 # r \<Rightarrow>
     if e = EQUALS \<and> q = QUOTE \<and> q1 = QUOTE then Some (w, r) else None | _ \<Rightarrow> None)"

text \<open>\<open>assignment\<close>, which may be empty before a semicolon; \<open>snprintf\<close> cuts a string
  to 1023 characters.\<close>

definition assignment :: "conf_entry \<Rightarrow> conf_token list \<Rightarrow> (conf_entry \<times> conf_token list) option" where
  "assignment tmp ts = (case ts of [] \<Rightarrow> None | t # r \<Rightarrow>
     if t = SEMICOLON then Some (tmp, ts)
     else if t = SYSMAPTOK then do {
       (f, r1) \<leftarrow> conf_file r;
       Some (tmp\<lparr>ce_sysmap := take (CONFIG_STR_LENGTH - 1) f\<rparr>, r1) }
     else if t = OSTYPETOK then do {
       (w, r1) \<leftarrow> conf_word r;
       Some (tmp\<lparr>ce_ostype := take (CONFIG_STR_LENGTH - 1) w\<rparr>, r1) }
     else do {
       i \<leftarrow> conf_slot t;
       (n, r1) \<leftarrow> conf_number r;
       Some (tmp\<lparr>ce_offsets := (ce_offsets tmp)[i := word_of_int (strtol0 n)]\<rparr>, r1) })"

lemma conf_value_length:
  "conf_number ts = Some (n, r) \<Longrightarrow> length r < length ts"
  "conf_file ts = Some (n, r) \<Longrightarrow> length r < length ts"
  "conf_word ts = Some (n, r) \<Longrightarrow> length r < length ts"
  by (auto simp: conf_number_def conf_file_def conf_word_def split: list.split_asm conf_token.split_asm if_split_asm)

lemma assignment_length: "assignment tmp ts = Some (tmp', r) \<Longrightarrow> length r \<le> length ts"
  by (auto simp: assignment_def dest: conf_value_length split: list.split_asm if_split_asm Option.bind_split_asm)

text \<open>\<open>assignments\<close> and the closing brace; \<open>None\<close> is a syntax error.\<close>

function assignments :: "conf_entry \<Rightarrow> conf_token list \<Rightarrow> (conf_entry \<times> conf_token list) option" where
  "assignments tmp ts =
     (if take 1 ts = [EBRACE] then Some (tmp, tl ts)
      else do {
        (tmp1, r) \<leftarrow> assignment tmp ts;
        if take 1 r = [SEMICOLON] then assignments tmp1 (tl r) else None })"
  by pat_completeness auto
termination
proof (relation "measure (length \<circ> snd)")
  fix tmp ts x tmp1 r
  assume "assignment tmp ts = Some x" "(tmp1, r) = x" "take 1 r = [SEMICOLON]"
  then have "length r \<le> length ts" "r \<noteq> []" by (auto dest: assignment_length)
  then show "((tmp1, tl r), tmp, ts) \<in> measure (length \<circ> snd)" by (cases r) auto
qed simp

declare assignments.simps [simp del]

lemma assignments_length: "assignments tmp ts = Some (tmp', r) \<Longrightarrow> length r < length ts"
proof (induction tmp ts rule: assignments.induct)
  case (1 tmp ts)
  show ?case
  proof (cases "take 1 ts = [EBRACE]")
    case True
    then show ?thesis using "1.prems" by (cases ts) (auto simp: assignments.simps)
  next
    case False
    then obtain tmp1 r1 where a: "assignment tmp ts = Some (tmp1, r1)" "take 1 r1 = [SEMICOLON]"
      "assignments tmp1 (tl r1) = Some (tmp', r)"
      using "1.prems" by (subst (asm) assignments.simps) (auto split: Option.bind_split_asm if_split_asm)
    then have "length r < length (tl r1)" using "1.IH" [OF False a(1) refl a(2)] by simp
    moreover have "length r1 \<le> length ts" using a(1) by (rule assignment_length)
    ultimately show ?thesis by simp
  qed
qed

text \<open>\<open>entry_done\<close> on the finished entry.\<close>

definition entry_done :: "string \<Rightarrow> conf_entry \<Rightarrow> conf_entry \<Rightarrow> conf_entry" where
  "entry_done target_domain tmp entry =
     (if strncmp_eq CONFIG_STR_LENGTH (ce_domain_name tmp) target_domain then tmp else entry)"

text \<open>\<open>domains\<close>: the entry after the whole file.\<close>

function conf_domains :: "string \<Rightarrow> conf_entry \<Rightarrow> conf_token list \<Rightarrow> conf_entry option" where
  "conf_domains target_domain entry ts = (case ts of
       [] \<Rightarrow> Some entry
     | t # r \<Rightarrow> (case t of
           WORD w \<Rightarrow>
             if take 1 r = [OBRACE] then do {
               (tmp, r1) \<leftarrow> assignments conf_zero (tl r);
               conf_domains target_domain
                 (entry_done target_domain (tmp\<lparr>ce_domain_name := take (CONFIG_STR_LENGTH - 1) w\<rparr>) entry) r1 }
             else None
         | _ \<Rightarrow> None))"
  by pat_completeness auto
termination by (relation "measure (length \<circ> snd \<circ> snd)") (auto dest!: assignments_length)

declare conf_domains.simps [simp del]

text \<open>The entry as \<open>read_config_file\<close> reads it: both members of the union are read from the same
  words.\<close>

definition config_of :: "conf_entry \<Rightarrow> xa_config_entry" where
  "config_of e = (let off = (\<lambda>i. ce_offsets e ! i) in
     \<lparr>cfg_sysmap = ce_sysmap e, cfg_ostype = ce_ostype e,
      cfg_linux = \<lparr>l_tasks_offset = off 0, l_mm_offset = off 1, l_pid_offset = off 2, l_pgd_offset = off 3, l_addr_offset = off 4\<rparr>,
      cfg_windows = \<lparr>w_ntoskrnl = off 0, w_tasks_offset = off 1, w_pdbase_offset = off 2, w_pid_offset = off 3,
        w_peb_offset = off 4, w_iba_offset = off 5, w_ph_offset = off 6\<rparr>\<rparr>)"

text \<open>\<open>None\<close> when \<open>yyparse\<close> reports an error.\<close>

definition xa_parse_config :: "string \<Rightarrow> string \<Rightarrow> xa_config_entry option" where
  "xa_parse_config conf td = map_option config_of (conf_domains td conf_zero (yylex conf))"

end
