(* ===== verification/Xa_Numbers.thy ===== *)
theory Xa_Numbers
  imports Xa_Symbols
begin

text \<open>
  Decimal numbers as the library prints and reads them, the length of the XenStore paths it builds in
  buffers of 100 characters, and the domains that the XenStore lists by name.
\<close>

section \<open>Decimal numbers\<close>

declare nat_str.simps [simp del]

lemma nat_str_set: "c \<in> set (nat_str n) \<Longrightarrow> \<exists>d<10 :: nat. c = char_of (48 + d)"
proof (induction n rule: nat_str.induct)
  case (1 n)
  then show ?case by (subst (asm) (2) nat_str.simps) (auto split: if_split_asm intro: exI [of _ "n mod 10"])
qed

lemma length_nat_str: "0 < k \<Longrightarrow> n < 10 ^ k \<Longrightarrow> length (nat_str n) \<le> k"
proof (induction k arbitrary: n)
  case (Suc k)
  show ?case
  proof (cases "n < 10")
    case True
    then show ?thesis by (subst nat_str.simps) simp
  next
    case False
    then have "0 < k" using Suc.prems(2) by (cases k) auto
    moreover have "n div 10 < 10 ^ k" using Suc.prems(2) by (simp add: div_less_iff_less_mult mult.commute)
    ultimately show ?thesis using Suc.IH [of "n div 10"] False by (subst nat_str.simps) simp
  qed
qed simp

lemma length_int_str: "length (int_str (sint (w :: u32))) \<le> 11"
proof -
  have "- (2 ^ 31) \<le> sint w" "sint w < 2 ^ 31" using sint_greater_eq [of w] sint_less [of w] by simp_all
  then have "nat (- sint w) < 10 ^ 10" "nat (sint w) < 10 ^ 10" by simp_all
  then show ?thesis using length_nat_str [of 10 "nat (- sint w)"] length_nat_str [of 10 "nat (sint w)"]
    by (simp add: int_str_def)
qed

text \<open>The path of an entry of a domain.\<close>

lemma sprintf100_domain:
  "length rest < 74 \<Longrightarrow> sprintf100 (''/local/domain/'' @ int_str (sint (d :: u32)) @ rest) =
    Some (''/local/domain/'' @ int_str (sint d) @ rest)"
  using length_int_str [of d] by (simp add: sprintf100_def)

lemma digit_char: "d < 10 \<Longrightarrow> (of_char (char_of (48 + d)) :: nat) = 48 + d"
  by (simp add: of_char_of)

lemma digit_val_dec: "d < 10 \<Longrightarrow> digit_val (char_of (48 + d)) = Some d"
  by (simp add: digit_val_def digit_char Let_def)

lemma is_digit_dec: "d < (10 :: nat) \<Longrightarrow> is_digit 10 (char_of (48 + d))"
  by (simp add: is_digit_def digit_val_dec)

lemma takeWhile_nat_str [simp]: "takeWhile (is_digit 10) (nat_str n) = nat_str n"
  using nat_str_set [of _ n] is_digit_dec by (auto simp: takeWhile_eq_all_conv)

lemma digits_val_nat_str: "digits_val 10 (nat_str n) = n"
proof (induction n rule: nat_str.induct)
  case (1 n)
  show ?case
  proof (cases "n < 10")
    case True
    then show ?thesis by (simp add: nat_str.simps [of n] digits_val_def is_digit_dec digit_val_dec)
  next
    case False
    then have e: "nat_str n = nat_str (n div 10) @ [char_of (48 + n mod 10)]" by (simp add: nat_str.simps [of n])
    have "digits_val 10 (nat_str n) = digits_val 10 (nat_str (n div 10)) * 10 + n mod 10"
      unfolding digits_val_def takeWhile_nat_str by (simp add: e digit_val_dec)
    then show ?thesis using "1.IH" [OF False] by simp
  qed
qed

lemma nat_str_Cons: "\<exists>d s. nat_str n = char_of (48 + d) # s \<and> d < (10 :: nat)"
proof -
  have "nat_str n \<noteq> []" by (subst nat_str.simps) simp
  then obtain c s where "nat_str n = c # s" by (cases "nat_str n") auto
  then show ?thesis using nat_str_set [of c n] by auto
qed

text \<open>Printing and reading a number.\<close>

lemma nat_str_plain:
  assumes "c \<in> set (nat_str n)"
  shows "\<not> isspace c" "c \<noteq> CHR ''-''" "c \<noteq> CHR ''+''"
proof -
  obtain d :: nat where d: "d < 10" "c = char_of (48 + d)" using nat_str_set [OF assms] by blast
  then have "(of_char c :: nat) = 48 + d" using digit_char by simp
  then have "(of_char c :: nat) \<in> {48..57}" using d(1) by simp
  then show "\<not> isspace c" "c \<noteq> CHR ''-''" "c \<noteq> CHR ''+''" by (auto simp: isspace_def)
qed

lemma strtol10_int_str:
  assumes "- (2 ^ 31) \<le> i" "i < 2 ^ 31"
  shows "strtol10 (int_str i) = i"
proof (cases "i < 0")
  case True
  have "dropWhile isspace (CHR ''-'' # nat_str n) = CHR ''-'' # nat_str n" for n by (simp add: isspace_def)
  then show ?thesis using True assms by (simp add: strtol10_def int_str_def strip_sign_def digits_val_nat_str)
next
  case False
  obtain c s where c: "nat_str (nat i) = c # s" using nat_str_Cons by blast
  note p = nat_str_plain [of c "nat i", simplified c]
  have "dropWhile isspace (nat_str (nat i)) = nat_str (nat i)" "strip_sign (nat_str (nat i)) = (False, nat_str (nat i))"
    using p by (simp_all add: c strip_sign_def)
  then show ?thesis using False assms by (simp add: strtol10_def int_str_def digits_val_nat_str)
qed

lemma strtol10_domain: "word_of_int (strtol10 (int_str (sint d))) = (d :: u32)"
proof -
  have "- (2 ^ 31) \<le> sint d" "sint d < 2 ^ 31" using sint_greater_eq [of d] sint_less [of d] by simp_all
  then show ?thesis by (simp add: strtol10_int_str)
qed

section \<open>Domains by name\<close>

text \<open>The names of the domains in the XenStore.\<close>

definition named_domains :: "xa_env \<Rightarrow> (u32 \<times> string) list \<Rightarrow> bool" where
  "named_domains env ds \<longleftrightarrow> xs_directory env ''/local/domain'' = map (\<lambda>(d, n). int_str (sint d)) ds \<and>
     (\<forall>(d, n)\<in>set ds. xs_read env (''/local/domain/'' @ int_str (sint d) @ ''/name'') = Some n \<and> length n < 100)"

lemma find_domain_named:
  assumes "\<forall>(d, n)\<in>set ds. xs_read env (''/local/domain/'' @ int_str (sint d) @ ''/name'') = Some n \<and> length n < 100" "length name < 100"
  shows "find_domain env name (map (\<lambda>(d, n). int_str (sint d)) ds) =
    Some (case List.find (\<lambda>(d, n). n = name) ds of None \<Rightarrow> 0 | Some (d, n) \<Rightarrow> d)"
  using assms
proof (induction ds)
  case (Cons x ds)
  obtain d n where x: "x = (d, n)" by (cases x)
  have p: "sprintf100 (''/local/domain/'' @ int_str (sint d) @ ''/name'') = Some (''/local/domain/'' @ int_str (sint d) @ ''/name'')"
    by (rule sprintf100_domain) simp
  have "strncmp_eq 100 name n \<longleftrightarrow> name = n" using Cons.prems x by (simp add: strncmp_eq_def)
  then show ?case using Cons x by (auto simp: p [simplified] strtol10_domain)
qed simp

end
