(* ===== verification/Xa_Core.thy ===== *)
theory Xa_Core
  imports Xa_Frame Xa_Config Xa_Numbers
begin

text \<open>
  Initialisation and destruction of an instance: \<open>xa_core.c\<close>, \<open>linux_core.c\<close>,
  \<open>windows_core.c\<close> and \<open>xa_report_error\<close>. A status is a \<open>bool\<close>,
  True for \<open>XA_SUCCESS\<close>; the result pairs it with the instance as the call leaves it.
\<close>

section \<open>Errors\<close>

datatype xa_severity = XA_EMINOR | XA_ECRITICAL

definition xa_report_error :: "xa_instance \<Rightarrow> xa_severity \<Rightarrow> bool" where
  "xa_report_error inst error_type =
     (if error_mode inst = XA_FAILHARD then False
      else if error_mode inst = XA_FAILSOFT then error_type \<noteq> XA_ECRITICAL
      else False)"

section \<open>Reading the configuration\<close>

definition get_memory_size :: "xa_env \<Rightarrow> xa_instance \<Rightarrow> (bool \<times> xa_instance) option" where
  "get_memory_size env inst =
     (if mode inst = XA_MODE_XEN then do {
        tmp \<leftarrow> sprintf100 (''/local/domain/'' @ int_str (sint (domain_id (m_xen inst))) @ ''/memory/target'');
        s \<leftarrow> xs_read env tmp;
        let n = word_of_int (strtol10 s * 1024);
        Some (n \<noteq> 0, inst\<lparr>m_xen := (m_xen inst)\<lparr>xen_size := n\<rparr>\<rparr>) }
      else if mode inst = XA_MODE_FILE then
        (case image_size env (fhandle (m_file inst)) of
           None \<Rightarrow> Some (False, inst)
         | Some n \<Rightarrow> Some (True, inst\<lparr>m_file := (m_file inst)\<lparr>file_size := n\<rparr>\<rparr>))
      else Some (True, inst))"

text \<open>\<open>if (entry->x) instance->x = entry->x;\<close>\<close>

definition override :: "u32 \<Rightarrow> u32 \<Rightarrow> u32" where
  "override new old = (if new \<noteq> 0 then new else old)"

definition copy_linux_offsets :: "linux_instance \<Rightarrow> linux_instance \<Rightarrow> linux_instance" where
  "copy_linux_offsets e i = \<lparr>l_tasks_offset = override (l_tasks_offset e) (l_tasks_offset i),
     l_mm_offset = override (l_mm_offset e) (l_mm_offset i),
     l_pid_offset = override (l_pid_offset e) (l_pid_offset i),
     l_pgd_offset = override (l_pgd_offset e) (l_pgd_offset i),
     l_addr_offset = override (l_addr_offset e) (l_addr_offset i)\<rparr>"

definition copy_windows_offsets :: "windows_instance \<Rightarrow> windows_instance \<Rightarrow> windows_instance" where
  "copy_windows_offsets e i = \<lparr>w_ntoskrnl = override (w_ntoskrnl e) (w_ntoskrnl i),
     w_tasks_offset = override (w_tasks_offset e) (w_tasks_offset i),
     w_pdbase_offset = override (w_pdbase_offset e) (w_pdbase_offset i),
     w_pid_offset = override (w_pid_offset e) (w_pid_offset i),
     w_peb_offset = override (w_peb_offset e) (w_peb_offset i),
     w_iba_offset = override (w_iba_offset e) (w_iba_offset i),
     w_ph_offset = override (w_ph_offset e) (w_ph_offset i)\<rparr>"

definition apply_config :: "xa_config_entry \<Rightarrow> xa_instance \<Rightarrow> bool \<times> xa_instance" where
  "apply_config entry inst0 =
     (let inst = inst0\<lparr>sysmap := Some (cfg_sysmap entry)\<rparr>
      in if strncmp_eq 1024 (cfg_ostype entry) ''Linux'' then
           (True, inst\<lparr>os_type := XA_OS_LINUX,
              linux_inst := copy_linux_offsets (cfg_linux entry) (linux_inst inst)\<rparr>)
         else if strncmp_eq 1024 (cfg_ostype entry) ''Windows'' then
           (True, inst\<lparr>os_type := XA_OS_WINDOWS,
              windows_inst := copy_windows_offsets (cfg_windows entry) (windows_inst inst)\<rparr>)
         else (False, inst))"

text \<open>A file without an image type passes NULL to the parser.\<close>

definition read_config_file :: "xa_env \<Rightarrow> xa_instance \<Rightarrow> (bool \<times> xa_instance) option" where
  "read_config_file env inst = (case fopen_text env ''/etc/xenaccess.conf'' of
       None \<Rightarrow> Some (False, inst)
     | Some yyin \<Rightarrow> do {
         (named, inst1) \<leftarrow>
           (if mode inst = XA_MODE_XEN then do {
              tmp \<leftarrow> sprintf100 (''/local/domain/'' @ int_str (sint (domain_id (m_xen inst))) @ ''/name'');
              Some (xs_read env tmp \<noteq> None, inst\<lparr>image_type := xs_read env tmp\<rparr>) }
            else Some (True, inst));
         if \<not> named then Some (False, inst1)
         else do {
           td \<leftarrow> image_type inst1;
           Some (case xa_parse_config yyin td of
               None \<Rightarrow> (False, inst1)
             | Some entry \<Rightarrow> apply_config entry inst1) } })"

section \<open>The layout of the guest\<close>

definition get_page_info_xen :: "xa_env \<Rightarrow> xa_instance \<Rightarrow> bool \<times> xa_instance" where
  "get_page_info_xen env inst =
     (let reg = vcpu_ctrlreg env (domain_id (m_xen inst))
      in case (reg 0, reg 3, reg 4) of
           (Some c0, Some c3, Some c4) \<Rightarrow>
             if \<not> xa_get_bit c0 31 then (False, inst)
             else (True, inst\<lparr>pae := xa_get_bit c4 5, pse := xa_get_bit c4 4,
                     inst_cr3 := c3 AND 0xFFFFF000\<rparr>)
         | _ \<Rightarrow> (False, inst))"

definition init_page_offset :: "xa_instance \<Rightarrow> xa_instance" where
  "init_page_offset inst =
     inst\<lparr>page_offset := (if os_type inst = XA_OS_LINUX then 0xc0000000
            else if os_type inst = XA_OS_WINDOWS then 0x80000000 else 0),
          page_shift := 12, page_size := push_bit 12 1\<rparr>"

text \<open>\<open>fnmatch("v*", s, 0) == 0\<close>\<close>

definition starts_with :: "string \<Rightarrow> string \<Rightarrow> bool" where
  "starts_with v s \<longleftrightarrow> take (length v) s = v"

definition xen_version_of :: "string \<Rightarrow> xen_ver" where
  "xen_version_of s =
     (if starts_with ''3.0.4'' s then XA_XENVER_3_0_4
      else if starts_with ''3.1.0'' s then XA_XENVER_3_1_0
      else if starts_with ''3.1.1'' s then XA_XENVER_3_1_1
      else if starts_with ''3.1.2'' s then XA_XENVER_3_1_2
      else if starts_with ''3.1.3'' s then XA_XENVER_3_1_3
      else if starts_with ''3.1.4'' s then XA_XENVER_3_1_4
      else if starts_with ''3.2.0'' s then XA_XENVER_3_2_0
      else if starts_with ''3.2.1'' s then XA_XENVER_3_2_1
      else if starts_with ''3.2.2'' s then XA_XENVER_3_2_2
      else if starts_with ''3.2.3'' s then XA_XENVER_3_2_3
      else if starts_with ''3.3.0'' s then XA_XENVER_3_3_0
      else if starts_with ''3.3.1'' s then XA_XENVER_3_3_1
      else if starts_with ''3.4.0'' s then XA_XENVER_3_4_0
      else XA_XENVER_UNKNOWN)"

definition init_xen_version :: "xa_env \<Rightarrow> xa_instance \<Rightarrow> xa_instance option" where
  "init_xen_version env inst =
     (let major = sint (xc_version env) div 2 ^ 16;
          minor = uint (xc_version env AND 0xFFFF) in do {
     versionStr \<leftarrow> sprintf100 (int_str major @ ''.'' @ int_str minor @ xc_extraversion env);
     Some (inst\<lparr>m_xen := (m_xen inst)\<lparr>xen_version := xen_version_of versionStr\<rparr>\<rparr>) })"

section \<open>Linux\<close>

text \<open>\<open>*(uint32_t *)(memory + local_offset + tasks_offset)\<close>, undefined when
  \<open>memory\<close> is NULL.\<close>

definition read_task_head :: "(mapping \<times> u32) option \<Rightarrow> xa_instance \<Rightarrow> u32 option" where
  "read_task_head m inst = do {
     (memory, local_offset) \<leftarrow> m;
     rd_rel (map_bytes memory) local_offset (l_tasks_offset (linux_inst inst)) 0 }"

definition linux_kpgd :: "xa_env \<Rightarrow> xa_instance \<Rightarrow> (bool \<times> xa_instance) option" where
  "linux_kpgd env inst = do {
     (r, inst1) \<leftarrow> linux_system_map_symbol_to_address env inst ''swapper_pg_dir'';
     let inst2 = inst1\<lparr>kpgd := out_val (kpgd inst1) r\<rparr>;
     if r = XA_FAILURE \<and> \<not> xa_report_error inst2 XA_EMINOR then Some (False, inst2)
     else if \<not> hvm inst2 then do {
       let inst3 = inst2\<lparr>kpgd := kpgd inst2 - page_offset inst2\<rparr>;
       (r2, inst4) \<leftarrow> xa_read_long_phys env inst3 (kpgd inst3);
       let inst5 = inst4\<lparr>kpgd := out_val (kpgd inst4) r2\<rparr>;
       Some (\<not> (r2 = XA_FAILURE \<and> \<not> xa_report_error inst5 XA_EMINOR), inst5) }
     else Some (True, inst2) }"

definition linux_init :: "xa_env \<Rightarrow> xa_instance \<Rightarrow> (bool \<times> xa_instance) option" where
  "linux_init env inst = do {
     (ok, inst1) \<leftarrow> linux_kpgd env inst;
     if \<not> ok then Some (False, inst1)
     else do {
       (m, inst2) \<leftarrow> xa_access_kernel_sym env inst1 ''init_task'' PROT_READ;
       (m2, inst3) \<leftarrow> (if m = None
          then xa_access_kernel_sym env (inst2\<lparr>pae := \<not> pae inst2\<rparr>) ''init_task'' PROT_READ
          else Some (m, inst2));
       if m2 = None \<and> \<not> xa_report_error inst3 XA_EMINOR then Some (False, inst3)
       else do {
         t \<leftarrow> read_task_head m2 inst3;
         Some (True, inst3\<lparr>init_task := t\<rparr>) } } }"

section \<open>Windows\<close>

text \<open>The end the two methods share: store the virtual address and complain when it is that of
  physical page 0.\<close>

definition set_kpgd_virt :: "xa_instance \<Rightarrow> bool \<times> xa_instance" where
  "set_kpgd_virt inst =
     (let inst1 = inst\<lparr>kpgd := kpgd inst + page_offset inst\<rparr>
      in (kpgd inst1 = page_offset inst1 \<longrightarrow> xa_report_error inst1 XA_EMINOR, inst1))"

text \<open>\<open>sysproc\<close> is passed by reference: the result carries its new value.\<close>

definition get_kpgd_method2 ::
  "xa_env \<Rightarrow> xa_instance \<Rightarrow> (bool \<times> u32 \<times> xa_instance) option" where
  "get_kpgd_method2 env inst = do {
     (sysproc, inst1) \<leftarrow> windows_find_eprocess env inst ''System'';
     if sysproc = 0 \<and> \<not> xa_report_error inst1 XA_EMINOR then Some (False, sysproc, inst1)
     else do {
       (r, inst2) \<leftarrow> xa_read_long_phys env inst1 (sysproc + 0x18);
       let inst3 = inst2\<lparr>kpgd := out_val (kpgd inst2) r\<rparr>;
       if r = XA_FAILURE \<and> \<not> xa_report_error inst3 XA_EMINOR then Some (False, sysproc, inst3)
       else (let (ok, inst4) = set_kpgd_virt inst3 in Some (ok, sysproc, inst4)) } }"

definition get_kpgd_method1 ::
  "xa_env \<Rightarrow> xa_instance \<Rightarrow> u32 \<Rightarrow> (bool \<times> u32 \<times> xa_instance) option" where
  "get_kpgd_method1 env inst sysproc0 = do {
     (r, inst1) \<leftarrow> xa_read_long_sym env inst ''PsInitialSystemProcess'';
     let sysproc1 = out_val sysproc0 r;
     if r = XA_FAILURE \<and> \<not> xa_report_error inst1 XA_EMINOR then Some (False, sysproc1, inst1)
     else do {
       sysproc \<leftarrow> xa_translate_kv2p env inst1 sysproc1;
       (r2, inst2) \<leftarrow> xa_read_long_phys env inst1 (sysproc + w_pdbase_offset (windows_inst inst1));
       let inst3 = inst2\<lparr>kpgd := out_val (kpgd inst2) r2\<rparr>;
       if r2 = XA_FAILURE \<and> \<not> xa_report_error inst3 XA_EMINOR then Some (False, sysproc, inst3)
       else (let (ok, inst4) = set_kpgd_virt inst3 in Some (ok, sysproc, inst4)) } }"

definition windows_init :: "xa_env \<Rightarrow> xa_instance \<Rightarrow> (bool \<times> xa_instance) option" where
  "windows_init env inst = do {
     (ok0, inst1) \<leftarrow>
       (if w_ntoskrnl (windows_inst inst) = 0 then do {
          (b, i) \<leftarrow> get_ntoskrnl_base env inst;
          let i' = i\<lparr>windows_inst := (windows_inst i)\<lparr>w_ntoskrnl := b\<rparr>\<rparr>;
          Some (b = 0 \<longrightarrow> xa_report_error i' XA_EMINOR, i') }
        else Some (True, inst));
     if \<not> ok0 then Some (False, inst1)
     else do {
       (ok1, sysproc1, inst2) \<leftarrow> get_kpgd_method1 env inst1 0;
       (ok2, sysproc, inst3) \<leftarrow>
         (if ok1 then Some (True, sysproc1, inst2) else get_kpgd_method2 env inst2);
       if \<not> ok2 \<and> \<not> xa_report_error inst3 XA_EMINOR then Some (False, inst3)
       else do {
         (r, inst4) \<leftarrow> xa_read_long_phys env inst3 (sysproc + w_tasks_offset (windows_inst inst3));
         Some (True, inst4\<lparr>init_task := out_val (init_task inst4) r\<rparr>) } } }"

section \<open>Initialisation\<close>

definition helper_init :: "xa_env \<Rightarrow> xa_instance \<Rightarrow> (bool \<times> xa_instance) option" where
  "helper_init env inst = do {
     (ok1, inst1) \<leftarrow>
       (if mode inst = XA_MODE_XEN then
          (if \<not> xc_domain_getinfo env (domain_id (m_xen inst)) \<and> \<not> xa_report_error inst XA_ECRITICAL
           then Some (False, inst)
           else do { i \<leftarrow> init_xen_version env inst; Some (True, i) })
        else Some (True, inst));
     if \<not> ok1 then Some (False, inst1)
     else do {
       (cfg, inst2) \<leftarrow> read_config_file env inst1;
       if \<not> cfg \<and> \<not> xa_report_error inst2 XA_EMINOR then Some (False, inst2)
       else do {
         let (pg, inst3) = (if mode inst2 = XA_MODE_XEN then get_page_info_xen env inst2
                            else (True, inst2\<lparr>hvm := True, pae := False\<rparr>));
         if \<not> pg \<and> \<not> xa_report_error inst3 XA_ECRITICAL then Some (False, inst3)
         else do {
           let inst4 = init_page_offset inst3;
           inst5 \<leftarrow> (if mode inst4 = XA_MODE_XEN then do {
                       h \<leftarrow> xa_ishvm env (domain_id (m_xen inst4)); Some (inst4\<lparr>hvm := h\<rparr>) }
                     else Some inst4);
           (sz, inst6) \<leftarrow> get_memory_size env inst5;
           if \<not> sz \<and> \<not> xa_report_error inst6 XA_ECRITICAL then Some (False, inst6)
           else if os_type inst6 = XA_OS_LINUX then linux_init env inst6
           else if os_type inst6 = XA_OS_WINDOWS then windows_init env inst6
           else Some (True, inst6) } } } }"

definition xa_init_common :: "xa_instance \<Rightarrow> xa_instance" where
  "xa_init_common inst = inst\<lparr>
     cache := (cache inst)\<lparr>l_head := None, l_tail := None, l_size := 0\<rparr>,
     pid_cache := (pid_cache inst)\<lparr>l_head := None, l_tail := None, l_size := 0\<rparr>\<rparr>"

definition xa_init_vm_private :: "xa_env \<Rightarrow> u32 \<Rightarrow> u32 \<Rightarrow> (bool \<times> xa_instance) option" where
  "xa_init_vm_private env domid err =
     (let inst = xa_instance_zero\<lparr>mode := XA_MODE_XEN, error_mode := err\<rparr>
      in if \<not> xc_interface_open env then Some (False, inst)
         else (let inst1 = xa_init_common inst
           in helper_init env (inst1\<lparr>m_xen := (m_xen inst1)
                \<lparr>domain_id := domid, live_pfn_to_mfn_table := None, nr_pfns := 0\<rparr>\<rparr>)))"

definition xa_init_file_private ::
  "xa_env \<Rightarrow> string \<Rightarrow> string \<Rightarrow> xa_instance \<Rightarrow> u32 \<Rightarrow> (bool \<times> xa_instance) option" where
  "xa_init_file_private env filename itype inst0 err =
     (let inst = inst0\<lparr>mode := XA_MODE_FILE, error_mode := err\<rparr>
      in if \<not> fopen_image env filename then Some (False, inst)
         else (let inst1 = xa_init_common
                 (inst\<lparr>m_file := (m_file inst)\<lparr>fhandle := filename\<rparr>\<rparr>)
           in helper_init env (inst1\<lparr>image_type := Some (strndup itype 256)\<rparr>)))"

definition xa_init_vm_name_strict :: "xa_env \<Rightarrow> string \<Rightarrow> (bool \<times> xa_instance) option" where
  "xa_init_vm_name_strict env name = do {
     domid \<leftarrow> xa_get_domain_id env name; xa_init_vm_private env domid XA_FAILHARD }"

definition xa_init_vm_name_lax :: "xa_env \<Rightarrow> string \<Rightarrow> (bool \<times> xa_instance) option" where
  "xa_init_vm_name_lax env name = do {
     domid \<leftarrow> xa_get_domain_id env name; xa_init_vm_private env domid XA_FAILSOFT }"

definition xa_init_vm_id_strict :: "xa_env \<Rightarrow> u32 \<Rightarrow> (bool \<times> xa_instance) option" where
  "xa_init_vm_id_strict env domid = xa_init_vm_private env domid XA_FAILHARD"

definition xa_init_vm_id_lax :: "xa_env \<Rightarrow> u32 \<Rightarrow> (bool \<times> xa_instance) option" where
  "xa_init_vm_id_lax env domid = xa_init_vm_private env domid XA_FAILSOFT"

definition xa_init_file_strict ::
  "xa_env \<Rightarrow> string \<Rightarrow> string \<Rightarrow> xa_instance \<Rightarrow> (bool \<times> xa_instance) option" where
  "xa_init_file_strict env filename itype inst =
     xa_init_file_private env filename itype inst XA_FAILHARD"

definition xa_init_file_lax ::
  "xa_env \<Rightarrow> string \<Rightarrow> string \<Rightarrow> xa_instance \<Rightarrow> (bool \<times> xa_instance) option" where
  "xa_init_file_lax env filename itype inst =
     xa_init_file_private env filename itype inst XA_FAILSOFT"

section \<open>Destruction\<close>

text \<open>Unmapping the frame table leaves the pointer in place.\<close>

definition helper_destroy :: "xa_instance \<Rightarrow> xa_instance option" where
  "helper_destroy inst = do { i \<leftarrow> xa_destroy_cache inst; xa_destroy_pid_cache i }"

definition xa_destroy :: "xa_env \<Rightarrow> xa_instance \<Rightarrow> (bool \<times> xa_instance) option" where
  "xa_destroy env inst = do {
     i \<leftarrow> helper_destroy (inst\<lparr>m_xen := (m_xen inst)\<lparr>domain_id := 0\<rparr>\<rparr>);
     Some (xc_interface_close env, i) }"

section \<open>The layout is settled first\<close>

definition layout :: "xa_instance \<Rightarrow> u32 \<times> u32 \<times> u32 \<times> u32 \<times> u32 \<times> u32 \<times> u32" where
  "layout inst = (mode inst, error_mode inst, os_type inst, page_offset inst, page_shift inst, page_size inst,
     domain_id (m_xen inst))"

lemma layout_fixed: "fixed inst' = fixed inst \<Longrightarrow> layout inst' = layout inst"
  using fixed_fields [of inst' inst] by (simp add: layout_def)

lemma layout_updates [simp]:
  "layout (inst\<lparr>kpgd := a\<rparr>) = layout inst" "layout (inst\<lparr>init_task := a\<rparr>) = layout inst"
  "layout (inst\<lparr>pae := b\<rparr>) = layout inst" "layout (inst\<lparr>windows_inst := w\<rparr>) = layout inst"
  "layout (inst\<lparr>hvm := b\<rparr>) = layout inst" "layout (inst\<lparr>m_xen := (m_xen inst)\<lparr>xen_size := n\<rparr>\<rparr>) = layout inst"
  "layout (inst\<lparr>m_file := f\<rparr>) = layout inst"
  by (simp_all add: layout_def)

lemma layout_error: "layout inst' = layout inst \<Longrightarrow> xa_report_error inst' e = xa_report_error inst e"
  by (simp add: layout_def xa_report_error_def)

lemma layout_system_map: "linux_system_map_symbol_to_address env inst s = Some (r, inst') \<Longrightarrow> layout inst' = layout inst"
  by (intro layout_fixed staysD [OF fixed_part.system_map [OF refl]])

lemma layout_read_phys: "xa_read_long_phys env inst a = Some (r, inst') \<Longrightarrow> layout inst' = layout inst"
  by (intro layout_fixed staysD [OF fixed_part.read_long_phys [OF refl]])

lemma layout_kernel_sym: "xa_access_kernel_sym env inst s prot = Some (r, inst') \<Longrightarrow> layout inst' = layout inst"
  by (intro layout_fixed staysD [OF fixed_part.kernel_sym [OF refl]])

lemma layout_read_sym: "xa_read_long_sym env inst s = Some (r, inst') \<Longrightarrow> layout inst' = layout inst"
  by (intro layout_fixed staysD [OF fixed_part.readers(1) [OF refl]])

lemma layout_ntoskrnl: "get_ntoskrnl_base env inst = Some (r, inst') \<Longrightarrow> layout inst' = layout inst"
  by (intro layout_fixed staysD [OF fixed_part.ntoskrnl_base [OF refl]])

lemma layout_eprocess: "windows_find_eprocess env inst s = Some (r, inst') \<Longrightarrow> layout inst' = layout inst"
  by (intro layout_fixed staysD [OF fixed_part.find_eprocess [OF refl]])

lemmas layout_calls = layout_system_map layout_read_phys layout_kernel_sym layout_read_sym layout_ntoskrnl layout_eprocess

lemma layout_linux_kpgd: "linux_kpgd env inst = Some (ok, inst') \<Longrightarrow> layout inst' = layout inst"
  by (auto simp: linux_kpgd_def Let_def dest!: layout_calls split: Option.bind_split_asm if_split_asm)

lemma layout_linux_init: "linux_init env inst = Some (ok, inst') \<Longrightarrow> layout inst' = layout inst"
  by (auto simp: linux_init_def dest!: layout_calls layout_linux_kpgd split: Option.bind_split_asm if_split_asm)

lemma layout_set_kpgd [simp]: "layout (snd (set_kpgd_virt inst)) = layout inst"
  by (simp add: set_kpgd_virt_def Let_def)

lemma layout_method1: "get_kpgd_method1 env inst s = Some (ok, s', inst') \<Longrightarrow> layout inst' = layout inst"
  by (auto simp: get_kpgd_method1_def Let_def set_kpgd_virt_def dest!: layout_calls split: Option.bind_split_asm if_split_asm)

lemma layout_method2: "get_kpgd_method2 env inst = Some (ok, s', inst') \<Longrightarrow> layout inst' = layout inst"
  by (auto simp: get_kpgd_method2_def Let_def set_kpgd_virt_def dest!: layout_calls split: Option.bind_split_asm if_split_asm)

lemma layout_windows_init: "windows_init env inst = Some (ok, inst') \<Longrightarrow> layout inst' = layout inst"
  by (auto simp: windows_init_def Let_def dest!: layout_calls layout_method1 layout_method2
      split: Option.bind_split_asm if_split_asm)

lemma read_config_fields:
  assumes "read_config_file env inst = Some (ok, inst')"
  shows "mode inst' = mode inst \<and> error_mode inst' = error_mode inst \<and> m_xen inst' = m_xen inst"
  using assms
  by (auto simp: read_config_file_def apply_config_def Let_def split: Option.bind_split_asm if_split_asm option.split_asm)

lemma page_info_fields:
  assumes "get_page_info_xen env inst = (ok, inst')"
  shows "mode inst' = mode inst \<and> error_mode inst' = error_mode inst \<and> m_xen inst' = m_xen inst"
  using assms by (auto simp: get_page_info_xen_def Let_def split: if_split_asm option.split_asm)

lemma layout_memory_size: "get_memory_size env inst = Some (ok, inst') \<Longrightarrow> layout inst' = layout inst"
  by (auto simp: get_memory_size_def Let_def split: Option.bind_split_asm if_split_asm option.split_asm)

lemma layout_os_init:
  assumes "(if os_type i = XA_OS_LINUX then linux_init env i
      else if os_type i = XA_OS_WINDOWS then windows_init env i else Some (True, i)) = Some (ok, inst')"
  shows "layout inst' = layout i"
  using assms by (auto dest: layout_linux_init layout_windows_init split: if_split_asm)

text \<open>The last part of \<open>helper_init\<close>, from the page offset on.\<close>

lemma layout_init_tail:
  assumes "do {
      inst5 \<leftarrow> (if mode inst4 = XA_MODE_XEN then do {
                  h \<leftarrow> xa_ishvm env (domain_id (m_xen inst4)); Some (inst4\<lparr>hvm := h\<rparr>) }
                else Some inst4);
      (sz, inst6) \<leftarrow> get_memory_size env inst5;
      if \<not> sz \<and> \<not> xa_report_error inst6 XA_ECRITICAL then Some (False, inst6)
      else if os_type inst6 = XA_OS_LINUX then linux_init env inst6
      else if os_type inst6 = XA_OS_WINDOWS then windows_init env inst6
      else Some (True, inst6) } = Some (ok, inst')"
  shows "layout inst' = layout inst4"
  using assms
  by (auto dest!: layout_memory_size layout_linux_init layout_windows_init
      split: Option.bind_split_asm if_split_asm)

lemma xen_version_fields:
  "init_xen_version env inst = Some inst' \<Longrightarrow>
    mode inst' = mode inst \<and> error_mode inst' = error_mode inst \<and> domain_id (m_xen inst') = domain_id (m_xen inst)"
  by (auto simp: init_xen_version_def Let_def split: Option.bind_split_asm)

lemma helper_init_layout:
  assumes "helper_init env inst = Some (True, inst')"
  shows "\<exists>inst3. layout inst' = layout (init_page_offset inst3) \<and> mode inst3 = mode inst \<and>
    error_mode inst3 = error_mode inst \<and> domain_id (m_xen inst3) = domain_id (m_xen inst)"
proof -
  let ?first = "if mode inst = XA_MODE_XEN then
      (if \<not> xc_domain_getinfo env (domain_id (m_xen inst)) \<and> \<not> xa_report_error inst XA_ECRITICAL
       then Some (False, inst)
       else do { i \<leftarrow> init_xen_version env inst; Some (True, i) })
    else Some (True, inst)"
  obtain ok1 inst1 where a: "?first = Some (ok1, inst1)" "ok1"
    using assms by (auto simp: helper_init_def split: Option.bind_split_asm if_split_asm)
  have f1: "mode inst1 = mode inst \<and> error_mode inst1 = error_mode inst \<and> domain_id (m_xen inst1) = domain_id (m_xen inst)"
    using a by (auto dest!: xen_version_fields split: Option.bind_split_asm if_split_asm)
  obtain cfg inst2 where b: "read_config_file env inst1 = Some (cfg, inst2)"
    using assms a by (auto simp: helper_init_def split: Option.bind_split_asm)
  define pi where "pi = (if mode inst2 = XA_MODE_XEN then get_page_info_xen env inst2
      else (True, inst2\<lparr>hvm := True, pae := False\<rparr>))"
  have f3: "mode (snd pi) = mode inst2 \<and> error_mode (snd pi) = error_mode inst2 \<and> m_xen (snd pi) = m_xen inst2"
    using page_info_fields [of env inst2 "fst (get_page_info_xen env inst2)"] by (auto simp: pi_def)
  have "layout inst' = layout (init_page_offset (snd pi))"
  proof (rule layout_init_tail)
    show "do {
      inst5 \<leftarrow> (if mode (init_page_offset (snd pi)) = XA_MODE_XEN then do {
                  h \<leftarrow> xa_ishvm env (domain_id (m_xen (init_page_offset (snd pi))));
                  Some ((init_page_offset (snd pi))\<lparr>hvm := h\<rparr>) }
                else Some (init_page_offset (snd pi)));
      (sz, inst6) \<leftarrow> get_memory_size env inst5;
      if \<not> sz \<and> \<not> xa_report_error inst6 XA_ECRITICAL then Some (False, inst6)
      else if os_type inst6 = XA_OS_LINUX then linux_init env inst6
      else if os_type inst6 = XA_OS_WINDOWS then windows_init env inst6
      else Some (True, inst6) } = Some (True, inst')"
      using assms a b unfolding helper_init_def pi_def [symmetric]
      by (simp add: case_prod_beta pi_def [symmetric] Let_def split: if_split_asm)
  qed
  then show ?thesis using f1 f3 read_config_fields [OF b] by auto
qed

section \<open>Properties\<close>

text \<open>(C26) A successful initialisation settles the layout of the guest: the instance is bound to the
  requested domain and error mode, pages have 4096 bytes, and the page offset is that of the
  guest's operating system, whatever the operating system's own initialisation went through.\<close>

theorem xa_init_vm_layout:
  assumes "xa_init_vm_private env domid err = Some (True, inst)"
  shows "mode inst = XA_MODE_XEN \<and> error_mode inst = err \<and> domain_id (m_xen inst) = domid \<and>
    page_size inst = 4096 \<and> page_shift inst = 12 \<and>
    page_offset inst = (if os_type inst = XA_OS_LINUX then 0xC0000000
      else if os_type inst = XA_OS_WINDOWS then 0x80000000 else 0)"
proof -
  let ?i = "(xa_init_common (xa_instance_zero\<lparr>mode := XA_MODE_XEN, error_mode := err\<rparr>))"
  have "helper_init env (?i\<lparr>m_xen := (m_xen ?i)\<lparr>domain_id := domid, live_pfn_to_mfn_table := None, nr_pfns := 0\<rparr>\<rparr>)
      = Some (True, inst)"
    using assms by (simp add: xa_init_vm_private_def Let_def split: if_split_asm)
  from helper_init_layout [OF this] show ?thesis
    by (auto simp: layout_def init_page_offset_def xa_init_common_def push_bit_of_1)
qed

text \<open>A live domain, with no configuration file.\<close>

definition init_env :: xa_env where
  "init_env = no_env\<lparr>xs_read := (\<lambda>p. if p = ''/local/domain/1/memory/target'' then Some ''16'' else Some ''vm''),
     vcpu_ctrlreg := (\<lambda>d n. Some 0x80000000)\<rparr>"

lemma init_env_runs: "map_option fst (xa_init_vm_private init_env 1 XA_FAILSOFT) = Some True"
  by code_simp

theorem xa_init_vm_layout_witness:
  "\<exists>inst. xa_init_vm_private init_env 1 XA_FAILSOFT = Some (True, inst) \<and>
    mode inst = XA_MODE_XEN \<and> error_mode inst = XA_FAILSOFT \<and> domain_id (m_xen inst) = 1 \<and>
    page_size inst = 4096 \<and> page_shift inst = 12 \<and>
    page_offset inst = (if os_type inst = XA_OS_LINUX then 0xC0000000
      else if os_type inst = XA_OS_WINDOWS then 0x80000000 else 0)"
proof -
  obtain inst where i: "xa_init_vm_private init_env 1 XA_FAILSOFT = Some (True, inst)"
    using init_env_runs by auto
  from xa_init_vm_layout [OF i] i show ?thesis by blast
qed

text \<open>(C27) A domain by its name: when the XenStore lists the domains with their names, opening a domain by a name
  is opening the first domain that has it, and a name that no domain has opens domain 0, the
  privileged one, instead of failing.\<close>

theorem xa_init_vm_name_finds:
  assumes "named_domains env ds" "length name < 100"
  shows "xa_init_vm_name_strict env name =
      xa_init_vm_id_strict env (case List.find (\<lambda>(d, n). n = name) ds of None \<Rightarrow> 0 | Some (d, n) \<Rightarrow> d) \<and>
    xa_init_vm_name_lax env name =
      xa_init_vm_id_lax env (case List.find (\<lambda>(d, n). n = name) ds of None \<Rightarrow> 0 | Some (d, n) \<Rightarrow> d)"
  using assms find_domain_named [of ds env name]
  by (simp add: named_domains_def xa_init_vm_name_strict_def xa_init_vm_name_lax_def xa_get_domain_id_def
      xa_init_vm_id_strict_def xa_init_vm_id_lax_def)

definition two_domains :: xa_env where
  "two_domains = no_env\<lparr>xs_directory := (\<lambda>p. [''0'', ''7'']),
     xs_read := (\<lambda>p. if p = ''/local/domain/0/name'' then Some ''Domain-0'' else if p = ''/local/domain/7/name'' then Some ''fc6'' else None)\<rparr>"

theorem xa_init_vm_name_finds_witness:
  "xa_init_vm_name_lax two_domains ''fc6'' = xa_init_vm_id_lax two_domains 7 \<and>
   xa_init_vm_name_strict two_domains ''fc66'' = xa_init_vm_id_strict two_domains 0"
proof -
  have i: "int_str 0 = ''0''" "int_str 7 = ''7''" by code_simp+
  have "named_domains two_domains [(0, ''Domain-0''), (7, ''fc6'')]" by (simp add: named_domains_def two_domains_def i)
  from xa_init_vm_name_finds [OF this, of "''fc6''"] xa_init_vm_name_finds [OF this, of "''fc66''"] show ?thesis by simp
qed

text \<open>In the lax error mode the fallback for finding the kernel page directory of a Windows guest is
  dead: the first method reports success whenever it returns, even when the symbol
  \<open>PsInitialSystemProcess\<close> could not be read, so \<open>windows_init\<close> never tries
  the second.\<close>

theorem get_kpgd_method1_lax_succeeds:
  assumes "error_mode inst = XA_FAILSOFT" "get_kpgd_method1 env inst sysproc = Some (ok, sysproc', inst')"
  shows "ok"
proof -
  have soft: "xa_report_error i XA_EMINOR" if "layout i = layout inst" for i
    using that assms(1) by (simp add: layout_def xa_report_error_def)
  show ?thesis using assms(2)
    by (auto simp: get_kpgd_method1_def Let_def set_kpgd_virt_def soft dest!: layout_calls
        split: Option.bind_split_asm if_split_asm)
qed

definition lax_inst :: xa_instance where
  "lax_inst = std_inst\<lparr>error_mode := XA_FAILSOFT, os_type := XA_OS_WINDOWS, hvm := True,
     windows_inst := (windows_inst std_inst)\<lparr>w_ntoskrnl := 0x5000\<rparr>\<rparr>"

definition lax_env :: xa_env where
  "lax_env = frames_env (\<lambda>f. if f = 0 then Some [0x81, 0, 0, 0, 0, 0, 0, 0] else None)"

lemma lax_runs:
  "map_option (\<lambda>(ok, s, i). ok) (get_kpgd_method1 lax_env lax_inst 0) \<noteq> None"
  "map_option fst (xa_read_long_sym lax_env lax_inst ''PsInitialSystemProcess'') = Some XA_FAILURE"
  by code_simp+

theorem get_kpgd_method1_lax_succeeds_witness:
  "map_option fst (xa_read_long_sym lax_env lax_inst ''PsInitialSystemProcess'') = Some XA_FAILURE \<and>
    (\<exists>sysproc' inst'. get_kpgd_method1 lax_env lax_inst 0 = Some (True, sysproc', inst'))"
proof -
  obtain ok s' i where r: "get_kpgd_method1 lax_env lax_inst 0 = Some (ok, s', i)"
    using lax_runs(1) by (cases "get_kpgd_method1 lax_env lax_inst 0") auto
  have "error_mode lax_inst = XA_FAILSOFT" by (simp add: lax_inst_def)
  from get_kpgd_method1_lax_succeeds [OF this r] r lax_runs(2) show ?thesis by auto
qed

text \<open>A Linux guest whose \<open>init_task\<close> cannot be mapped: in the strict mode
  \<open>linux_init\<close> fails, but in the lax mode the failure is waved through and the NULL page is
  dereferenced, so the behaviour is undefined.\<close>

lemma linux_init_without_init_task:
  assumes "linux_kpgd env inst = Some (True, inst1)"
    and "xa_access_kernel_sym env inst1 ''init_task'' PROT_READ = Some (None, inst2)"
    and "xa_access_kernel_sym env (inst2\<lparr>pae := \<not> pae inst2\<rparr>) ''init_task'' PROT_READ = Some (None, inst3)"
  shows "linux_init env inst = (if error_mode inst = XA_FAILSOFT then None else Some (False, inst3))"
proof -
  have "layout inst3 = layout inst"
    using layout_linux_kpgd [OF assms(1)] layout_kernel_sym [OF assms(2)] layout_kernel_sym [OF assms(3)] by simp
  then have "error_mode inst3 = error_mode inst" by (simp add: layout_def)
  then show ?thesis using assms by (simp add: linux_init_def xa_report_error_def read_task_head_def)
qed

definition lost_inst :: "u32 \<Rightarrow> xa_instance" where
  "lost_inst err = std_inst\<lparr>error_mode := err, os_type := XA_OS_LINUX, hvm := True, sysmap := Some ''map''\<rparr>"

lemma lost_runs:
  "linux_kpgd no_env (lost_inst XA_FAILSOFT) = Some (True, lost_inst XA_FAILSOFT)"
  "xa_access_kernel_sym no_env (lost_inst XA_FAILSOFT\<lparr>pae := b\<rparr>) ''init_task'' PROT_READ
    = Some (None, lost_inst XA_FAILSOFT\<lparr>pae := b\<rparr>)"
  by (simp_all add: linux_kpgd_def linux_system_map_symbol_to_address_def lost_inst_def no_env_def frames_env_def
      xa_report_error_def out_val_def xa_access_kernel_sym_def linux_access_kernel_symbol_def xa_check_cache_sym_def
      lru_search_def lru_init_def lru_find.simps Let_def std_inst_def xa_instance_zero_def)

theorem linux_init_without_init_task_witness:
  "linux_init no_env (lost_inst XA_FAILSOFT) = None"
proof -
  have p: "(lost_inst XA_FAILSOFT)\<lparr>pae := False\<rparr> = lost_inst XA_FAILSOFT"
    by (simp add: lost_inst_def std_inst_def xa_instance_zero_def)
  have "linux_init no_env (lost_inst XA_FAILSOFT) = (if error_mode (lost_inst XA_FAILSOFT) = XA_FAILSOFT then None
      else Some (False, (lost_inst XA_FAILSOFT)\<lparr>pae := \<not> pae (lost_inst XA_FAILSOFT)\<rparr>))"
    by (rule linux_init_without_init_task [OF lost_runs(1) lost_runs(2) [where b = False, unfolded p] lost_runs(2)])
  then show ?thesis by (simp add: lost_inst_def)
qed

end
