(* ===== verification/Xa_Sysmap.thy ===== *)
theory Xa_Sysmap
  imports Xa_Symbols
begin

text \<open>
  A System.map file and what \<open>linux_system_map_symbol_to_address\<close> finds in it: the row
  search cuts a line into its tokens, compares the third with the symbol and reads the address from
  the first.
\<close>

section \<open>Hexadecimal numbers\<close>

definition hex_char :: "nat \<Rightarrow> char" where
  "hex_char d = char_of (if d < 10 then 48 + d else 87 + d)"

fun hex_digits :: "nat \<Rightarrow> nat \<Rightarrow> string" where
  "hex_digits 0 n = []"
| "hex_digits (Suc k) n = hex_digits k (n div 16) @ [hex_char (n mod 16)]"

lemma of_char_hex: "d < 16 \<Longrightarrow> (of_char (hex_char d) :: nat) = (if d < 10 then 48 + d else 87 + d)"
  by (simp add: hex_char_def of_char_of)

lemma digit_val_hex: "d < 16 \<Longrightarrow> digit_val (hex_char d) = Some d"
  by (simp add: digit_val_def of_char_hex)

lemma hex_digits_set: "c \<in> set (hex_digits k n) \<Longrightarrow> \<exists>d<16. c = hex_char d"
  by (induction k arbitrary: n) (auto intro: exI [of _ "_ mod 16"])

lemma length_hex_digits [simp]: "length (hex_digits k n) = k"
  by (induction k arbitrary: n) auto

lemma is_digit_hex: "d < 16 \<Longrightarrow> is_digit 16 (hex_char d)"
  by (simp add: is_digit_def digit_val_hex)

lemma takeWhile_hex [simp]: "takeWhile (is_digit 16) (hex_digits k n) = hex_digits k n"
  using hex_digits_set [of _ k n] is_digit_hex by (auto simp: takeWhile_eq_all_conv)

lemma digits_val_hex: "digits_val 16 (hex_digits k n) = n mod 16 ^ k"
proof (induction k arbitrary: n)
  case (Suc k)
  have "digits_val 16 (hex_digits (Suc k) n) = digits_val 16 (hex_digits k (n div 16)) * 16 + n mod 16"
    unfolding digits_val_def takeWhile_hex by (simp add: digit_val_hex)
  also have "\<dots> = n mod 16 ^ Suc k" using mod_mult2_eq [of n 16 "16 ^ k"] by (simp add: Suc.IH)
  finally show ?case .
qed (simp add: digits_val_def)

lemma hex_char_neq: "d < 16 \<Longrightarrow> hex_char d = c \<Longrightarrow>
  (of_char c :: nat) \<in> {48..57} \<union> {97..102}"
  using of_char_hex [of d] by (auto split: if_splits)

lemma hex_char_plain:
  assumes "d < 16"
  shows "\<not> isspace (hex_char d)" "hex_char d \<noteq> NUL" "hex_char d \<noteq> CHR ''-''" "hex_char d \<noteq> CHR ''+''"
    "hex_char d \<noteq> CHR ''x''" "hex_char d \<noteq> CHR ''X''"
  using hex_char_neq [OF assms] by (auto simp: isspace_def)

lemma strtoul16_hex: "strtoul16 (hex_digits 8 (unat w)) = w"
proof -
  obtain c s where h: "hex_digits 8 (unat w) = c # s"
    by (metis length_hex_digits length_0_conv neq_Nil_conv zero_neq_numeral)
  have all: "\<exists>d<16. x = hex_char d" if "x \<in> set (c # s)" for x
    using hex_digits_set [of x 8 "unat w"] that by (simp only: h)
  have c: "\<not> isspace c" "c \<noteq> CHR ''-''" "c \<noteq> CHR ''+''" using all [of c] hex_char_plain by auto
  have x: "x \<noteq> CHR ''x'' \<and> x \<noteq> CHR ''X''" if "x \<in> set s" for x
    using all [of x] that hex_char_plain by auto
  have "strip_sign (dropWhile isspace (c # s)) = (False, c # s)" using c by (simp add: strip_sign_def)
  moreover have "strip_0x (c # s) = c # s"
    using x by (auto simp: strip_0x_def split: list.splits)
  moreover have "digits_val 16 (c # s) = unat w"
    using digits_val_hex [of 8 "unat w"] unat_bound32 [of w] by (simp add: h)
  moreover have "\<not> 4294967296 \<le> unat w" by (simp add: not_le)
  ultimately show ?thesis by (simp add: strtoul16_def h Let_def)
qed

section \<open>Rows\<close>

definition token :: "string \<Rightarrow> bool" where
  "token s \<longleftrightarrow> s \<noteq> [] \<and> (\<forall>c\<in>set s. \<not> isspace c \<and> c \<noteq> NUL)"

lemma row_at_append [simp]: "row_at (p @ Some c # q) (length p) = Some c"
  by (simp add: row_at_def)

lemma find_token_skip:
  assumes "\<forall>c\<in>set w. \<not> isspace c" "0 < position" "length p + length w \<le> 200"
  shows "find_token (p @ map Some w @ q) (length p) position
    = find_token (p @ map Some w @ q) (length p + length w) position"
  using assms(1,3)
proof (induction w arbitrary: p)
  case (Cons c w)
  have "find_token (p @ map Some (c # w) @ q) (length p) position
    = find_token ((p @ [Some c]) @ map Some w @ q) (length (p @ [Some c])) position"
    using Cons.prems assms(2) by (subst find_token.simps) simp
  also have "\<dots> = find_token ((p @ [Some c]) @ map Some w @ q) (length (p @ [Some c]) + length w) position"
    using Cons.prems by (intro Cons.IH) simp_all
  finally show ?case by simp
qed simp

lemma find_token_space:
  assumes "\<not> isspace d" "0 < position" "length p < 200"
  shows "find_token (p @ Some (CHR '' '') # Some d # q) (length p) position
    = find_token (p @ Some NUL # Some d # q) (Suc (length p)) (position - 1)"
proof -
  let ?r = "p @ Some NUL # Some d # q"
  have "row_at ((p @ [Some NUL]) @ Some d # q) (length (p @ [Some NUL])) = Some d" by (rule row_at_append)
  then have "blank_spaces ?r (Suc (length p)) = Some (?r, Suc (length p))"
    using assms(1) by (subst blank_spaces.simps) simp
  then have "blank_spaces (p @ Some (CHR '' '') # Some d # q) (length p) = Some (?r, Suc (length p))"
    by (subst blank_spaces.simps) (simp add: isspace_def)
  then show ?thesis using assms(2,3) by (subst find_token.simps) (simp add: isspace_def)
qed

lemma end_token_newline:
  assumes "\<forall>c\<in>set w. \<not> isspace c" "length p + length w < 200"
  shows "end_token (p @ map Some w @ Some (CHR 0x0A) # q) (length p) = Some (p @ map Some w @ Some NUL # q)"
  using assms
proof (induction w arbitrary: p)
  case Nil
  then show ?case by (subst end_token.simps) (simp add: isspace_def)
next
  case (Cons c w)
  have "end_token (p @ map Some (c # w) @ Some (CHR 0x0A) # q) (length p)
    = end_token ((p @ [Some c]) @ map Some w @ Some (CHR 0x0A) # q) (length (p @ [Some c]))"
    using Cons.prems by (subst end_token.simps) simp
  also have "\<dots> = Some ((p @ [Some c]) @ map Some w @ Some NUL # q)"
    using Cons.prems by (intro Cons.IH) simp_all
  finally show ?case by simp
qed

lemma in_set_tlD: "x \<in> set (tl s) \<Longrightarrow> x \<in> set s"
  by (cases s) auto

lemma strncmp_row_name:
  assumes "NUL \<notin> set w" "NUL \<notin> set s" "length w < n"
  shows "strncmp_row (p @ map Some w @ Some NUL # q) (length p) s n = Some (w = s)"
  using assms
proof (induction w arbitrary: p s n)
  case Nil
  then obtain m where "n = Suc m" by (cases n) auto
  with Nil show ?case by (cases s) auto
next
  case (Cons c w)
  then obtain m where n: "n = Suc m" by (cases n) auto
  have "strncmp_row ((p @ [Some c]) @ map Some w @ Some NUL # q) (length (p @ [Some c])) (tl s) m = Some (w = tl s)"
    using Cons.prems n by (intro Cons.IH) (auto dest: in_set_tlD)
  with Cons.prems n show ?case by (cases s) auto
qed

lemma row_string_map: "NUL \<notin> set w \<Longrightarrow> row_string (map Some w @ Some NUL # q) = Some w"
  by (induction w) auto

section \<open>Files\<close>

text \<open>A line of the file: the address, the type of the symbol and its name.\<close>

definition map_line :: "u32 \<times> char \<times> string \<Rightarrow> string" where
  "map_line e = (case e of (a, t, name) \<Rightarrow>
     hex_digits 8 (unat a) @ '' '' @ [t] @ '' '' @ name @ [CHR 0x0A])"

definition map_entry :: "u32 \<times> char \<times> string \<Rightarrow> bool" where
  "map_entry e = (case e of (a, t, name) \<Rightarrow> token [t] \<and> token name \<and> length name \<le> 187)"

lemma fgets_map_line:
  assumes "CHR 0x0A \<notin> set l" "length l < n"
  shows "fgets_line n (l @ CHR 0x0A # rest) = (l @ [CHR 0x0A], rest)"
  using assms
proof (induction l arbitrary: n)
  case Nil
  then obtain m where "n = Suc m" by (cases n) auto
  then show ?case by simp
next
  case (Cons c l)
  then obtain m where "n = Suc m" by (cases n) auto
  with Cons show ?case by auto
qed

lemma hex_digits_plain: "\<forall>c\<in>set (hex_digits k n). \<not> isspace c \<and> c \<noteq> NUL \<and> c \<noteq> CHR 0x0A"
  using hex_digits_set [of _ k n] hex_char_plain by (fastforce simp: isspace_def)

lemma row_of_line:
  assumes "map_entry (a, t, name)"
  defines "h \<equiv> map Some (hex_digits 8 (unat a))" and "n \<equiv> map Some name"
  shows "find_token (h @ Some (CHR '' '') # Some t # Some (CHR '' '') # n @ Some (CHR 0x0A) # q) 0 2
    = Some (h @ Some NUL # Some t # Some NUL # n @ Some (CHR 0x0A) # q, 11, 0)"
proof -
  obtain c cs where name: "name = c # cs" "\<not> isspace c" and t: "\<not> isspace t"
    using assms(1) by (cases name) (auto simp: map_entry_def token_def)
  let ?q = "map Some cs @ Some (CHR 0x0A) # q"
  have h: "length h = 8" by (simp add: h_def)
  have "find_token (h @ Some (CHR '' '') # Some t # Some (CHR '' '') # Some c # ?q) 0 2
      = find_token (h @ Some (CHR '' '') # Some t # Some (CHR '' '') # Some c # ?q) (length h) 2"
    using find_token_skip [of "hex_digits 8 (unat a)" 2 "[]"] hex_digits_plain by (simp add: h_def)
  also have "\<dots> = find_token (h @ Some NUL # Some t # Some (CHR '' '') # Some c # ?q) (Suc (length h)) 1"
    using find_token_space [OF t, of 2 h] h by simp
  also have "\<dots> = find_token (h @ Some NUL # Some t # Some (CHR '' '') # Some c # ?q) (Suc (Suc (length h))) 1"
    using find_token_skip [of "[t]" 1 "h @ [Some NUL]"] t h by simp
  also have "\<dots> = find_token (h @ Some NUL # Some t # Some NUL # Some c # ?q) (Suc (Suc (Suc (length h)))) 0"
    using find_token_space [OF name(2), of 1 "h @ [Some NUL, Some t]"] h by simp
  also have "\<dots> = Some (h @ Some NUL # Some t # Some NUL # Some c # ?q, 11, 0)"
    by (subst find_token.simps) (simp add: h)
  finally show ?thesis by (simp add: n_def name)
qed

lemma get_symbol_row_line:
  assumes e: "map_entry (a, t, name)" and s: "NUL \<notin> set symbol" and r: "length row = 200"
  shows "\<exists>row'. length row' = 200 \<and> row_string row' = Some (hex_digits 8 (unat a)) \<and>
    get_symbol_row (map_line (a, t, name) @ rest) row symbol 2
      = (if name = symbol then Some (XA_SUCCESS row') else get_symbol_row rest row' symbol 2)"
proof -
  let ?h = "map Some (hex_digits 8 (unat a)) :: row" and ?n = "map Some name :: row"
  let ?l = "hex_digits 8 (unat a) @ [CHR '' '', t, CHR '' ''] @ name"
  let ?q = "Some NUL # drop (13 + length name) row"
  let ?row' = "?h @ Some NUL # Some t # Some NUL # ?n @ Some NUL # ?q"
  have len: "length name \<le> 187" and nn: "NUL \<notin> set name" and ns: "\<forall>c\<in>set name. \<not> isspace c"
    using e by (auto simp: map_entry_def token_def)
  have nl: "CHR 0x0A \<notin> set ?l"
    using hex_digits_plain [of 8 "unat a"] e by (auto simp: map_entry_def token_def isspace_def)
  have "fgets_line (200 - 1) (?l @ CHR 0x0A # rest) = (?l @ [CHR 0x0A], rest)"
    using len by (intro fgets_map_line [OF nl]) simp
  then have f: "fgets_line (200 - 1) (map_line (a, t, name) @ rest) = (?l @ [CHR 0x0A], rest)"
    by (simp add: map_line_def)
  have fill: "fill_row (?l @ [CHR 0x0A]) row
      = ?h @ Some (CHR '' '') # Some t # Some (CHR '' '') # ?n @ Some (CHR 0x0A) # ?q"
    by (simp add: fill_row_def)
  have et: "end_token (?h @ Some NUL # Some t # Some NUL # ?n @ Some (CHR 0x0A) # ?q) 11 = Some ?row'"
    using end_token_newline [OF ns, of "?h @ [Some NUL, Some t, Some NUL]" ?q] len by simp
  have cmp: "strncmp_row ?row' 11 symbol 200 = Some (name = symbol)"
    using strncmp_row_name [OF nn s, of 200 "?h @ [Some NUL, Some t, Some NUL]" ?q] len by simp
  have ne: "map_line (a, t, name) @ rest \<noteq> []" by (simp add: map_line_def)
  have "get_symbol_row (map_line (a, t, name) @ rest) row symbol 2
      = (if name = symbol then Some (XA_SUCCESS ?row') else get_symbol_row rest ?row' symbol 2)"
    unfolding get_symbol_row.simps [of "map_line (a, t, name) @ rest"] if_not_P [OF ne] Let_def f fst_conv snd_conv
      fill row_of_line [OF e] bind.bind_lunit prod.case by (simp add: et cmp)
  moreover have "length ?row' = 200" using r len by simp
  moreover have "row_string ?row' = Some (hex_digits 8 (unat a))"
    using hex_digits_plain [of 8 "unat a"] by (intro row_string_map) auto
  ultimately show ?thesis by blast
qed

lemma get_symbol_row_file:
  assumes "\<forall>e\<in>set es. map_entry e" "NUL \<notin> set symbol" "length row = 200"
  shows "case List.find (\<lambda>(a, t, name). name = symbol) es of
      None \<Rightarrow> get_symbol_row (concat (map map_line es)) row symbol 2 = Some XA_FAILURE
    | Some (a, t, name) \<Rightarrow> \<exists>row'. get_symbol_row (concat (map map_line es)) row symbol 2 = Some (XA_SUCCESS row') \<and>
        row_string row' = Some (hex_digits 8 (unat a))"
  using assms(1,3)
proof (induction es arbitrary: row)
  case Nil
  then show ?case by (simp add: get_symbol_row.simps)
next
  case (Cons e es)
  obtain a t name where e: "e = (a, t, name)" by (cases e) auto
  obtain row' where r: "length row' = 200" "row_string row' = Some (hex_digits 8 (unat a))"
    "get_symbol_row (map_line (a, t, name) @ concat (map map_line es)) row symbol 2
      = (if name = symbol then Some (XA_SUCCESS row') else get_symbol_row (concat (map map_line es)) row' symbol 2)"
    using get_symbol_row_line [OF _ assms(2) Cons.prems(2), of a t name] Cons.prems(1) e by auto
  have "concat (map map_line (e # es)) = map_line (a, t, name) @ concat (map map_line es)" by (simp add: e)
  note r' = r(3) [folded this]
  show ?case
  proof (cases "name = symbol")
    case True
    then show ?thesis unfolding r' using r(2) by (simp add: e)
  next
    case False
    then show ?thesis unfolding r' using Cons.IH [OF _ r(1)] Cons.prems(1) by (simp add: e)
  qed
qed

lemma system_map_find:
  assumes "sysmap inst = Some path" "path \<noteq> []" "fopen_text env path = Some (concat (map map_line es))"
    and "\<forall>e\<in>set es. map_entry e" "NUL \<notin> set symbol"
  shows "linux_system_map_symbol_to_address env inst symbol
    = Some (case List.find (\<lambda>(a, t, name). name = symbol) es of
        None \<Rightarrow> XA_FAILURE | Some (a, t, name) \<Rightarrow> XA_SUCCESS a, inst)"
  using get_symbol_row_file [OF assms(4,5), of "replicate 200 None"] assms(1-3)
  by (cases "List.find (\<lambda>(a, t, name). name = symbol) es")
    (auto simp: linux_system_map_symbol_to_address_def strtoul16_hex)

text \<open>(C17) Looking a symbol up in a System.map: when the file lists symbols one per line, with their
  addresses as eight hexadecimal digits, a type and a name that fits the row buffer,
  \<open>linux_system_map_symbol_to_address\<close> gives the address of the first line with exactly
  this name, and fails when there is none.\<close>

theorem system_map_lookup:
  assumes "sysmap inst = Some path" "path \<noteq> []" "fopen_text env path = Some (concat (map map_line es))"
    and "\<forall>e\<in>set es. map_entry e" "NUL \<notin> set symbol"
  shows "linux_system_map_symbol_to_address env inst symbol
    = Some (case List.find (\<lambda>(a, t, name). name = symbol) es of
        None \<Rightarrow> XA_FAILURE | Some (a, t, name) \<Rightarrow> XA_SUCCESS a, inst)"
  using assms by (rule system_map_find)

definition demo_map :: "(u32 \<times> char \<times> string) list" where
  "demo_map = [(0xC0100000, CHR ''T'', ''_text''), (0xC02D1234, CHR ''D'', ''init_task'')]"

definition demo_map_env :: xa_env where
  "demo_map_env = no_env\<lparr>fopen_text := (\<lambda>p. Some (concat (map map_line demo_map)))\<rparr>"

theorem system_map_lookup_witness:
  "linux_system_map_symbol_to_address demo_map_env (std_inst\<lparr>sysmap := Some ''System.map''\<rparr>) ''init_task''
    = Some (XA_SUCCESS 0xC02D1234, std_inst\<lparr>sysmap := Some ''System.map''\<rparr>)"
  by (subst system_map_lookup [where path = "''System.map''" and es = demo_map])
    (simp_all add: demo_map_env_def demo_map_def map_entry_def token_def isspace_def)

section \<open>The name of the file\<close>

lemma sysmap_of_kernel_vmlinuz:
  "CHR ''v'' \<notin> set p \<Longrightarrow> sysmap_of_kernel (p @ ''vmlinu'' @ c # s) = Some (p @ ''System.map'' @ s)"
proof (induction p)
  case (Cons d p)
  then have "take 6 ((d # p) @ ''vmlinu'' @ c # s) \<noteq> ''vmlinu''" by auto
  with Cons show ?case by simp
qed simp

text \<open>The predicted System.map belongs to the kernel: for a guest whose kernel image is
  \<open>vmlinuz\<close> or \<open>vmlinux\<close> with any suffix, in a directory whose path has no
  letter v, the path is that of the kernel with \<open>vmlinu?\<close> replaced by
  \<open>System.map\<close>.\<close>

theorem linux_predict_sysmap_name_correct:
  assumes "xa_get_kernel_name env domid = Some (Some (p @ ''vmlinu'' @ c # s))" "CHR ''v'' \<notin> set p"
  shows "linux_predict_sysmap_name env domid = Some (Some (p @ ''System.map'' @ s))"
proof -
  have "p @ ''vmlinu'' @ c # s \<noteq> ''/usr/lib/xen/boot/hvmloader''"
  proof
    assume h: "p @ ''vmlinu'' @ c # s = ''/usr/lib/xen/boot/hvmloader''"
    then have "takeWhile (\<lambda>x. x \<noteq> CHR ''v'') (p @ ''vmlinu'' @ c # s) = ''/usr/lib/xen/boot/h''" by simp
    moreover have "takeWhile (\<lambda>x. x \<noteq> CHR ''v'') (p @ ''vmlinu'' @ c # s) = p"
      using assms(2) by (subst takeWhile_append2) auto
    ultimately have "p = ''/usr/lib/xen/boot/h''" by (simp only:)
    with h show False by simp
  qed
  then show ?thesis using assms sysmap_of_kernel_vmlinuz [OF assms(2), of c s]
    by (simp add: linux_predict_sysmap_name_def)
qed

definition boot_env :: xa_env where
  "boot_env = no_env\<lparr>xs_read := (\<lambda>p. if p = ''/local/domain/3/vm'' then Some ''/vm/7''
     else Some ''/boot/vmlinuz-2.6.18-xen'')\<rparr>"

theorem linux_predict_sysmap_name_correct_witness:
  "linux_predict_sysmap_name boot_env 3 = Some (Some ''/boot/System.map-2.6.18-xen'')"
proof -
  have "xa_get_kernel_name boot_env 3 = Some (Some (''/boot/'' @ ''vmlinu'' @ CHR ''z'' # ''-2.6.18-xen''))"
    by (simp add: xa_get_kernel_name_def xa_get_vmpath_def boot_env_def sprintf100_def int_str_def no_env_def frames_env_def)
  from linux_predict_sysmap_name_correct [OF this] show ?thesis by simp
qed

end
