(* ===== verification/Xa_Lifecycle.thy ===== *)
theory Xa_Lifecycle
  imports Xa_Coherence Xa_Core Xa_Sysmap
begin

text \<open>
  An instance from its initialisation through the calls of a client to its destruction. The caches are
  well formed throughout and everything is freed at the end; after a successful initialisation they tell
  the truth about the guest, so that the promises of \<open>Xa_Coherence\<close> hold from then on.
\<close>

section \<open>What initialisation leaves in the caches\<close>

definition same_caches :: "xa_instance \<Rightarrow> xa_instance \<Rightarrow> bool" where
  "same_caches inst inst' \<longleftrightarrow> cache inst' = cache inst \<and> pid_cache inst' = pid_cache inst"

lemma same_caches_config: "read_config_file env inst = Some (ok, inst') \<Longrightarrow> same_caches inst inst'"
  by (auto simp: read_config_file_def apply_config_def same_caches_def Let_def
      split: Option.bind_split_asm if_split_asm option.split_asm)

lemma same_caches_version: "init_xen_version env inst = Some inst' \<Longrightarrow> same_caches inst inst'"
  by (auto simp: init_xen_version_def same_caches_def Let_def split: Option.bind_split_asm)

lemma same_caches_page_info: "same_caches inst (snd (get_page_info_xen env inst))"
  by (auto simp: get_page_info_xen_def same_caches_def Let_def split: option.split)

lemma same_caches_size: "get_memory_size env inst = Some (ok, inst') \<Longrightarrow> same_caches inst inst' \<and> page_size inst' = page_size inst"
  by (auto simp: get_memory_size_def same_caches_def Let_def split: Option.bind_split_asm if_split_asm option.split_asm)

lemma same_caches_trans: "same_caches a b \<Longrightarrow> same_caches b c \<Longrightarrow> same_caches a c"
  by (simp add: same_caches_def)

text \<open>Until the operating system's own initialisation the caches are not touched.\<close>

definition os_init :: "xa_env \<Rightarrow> xa_instance \<Rightarrow> (bool \<times> xa_instance) option" where
  "os_init env inst = (if os_type inst = XA_OS_LINUX then linux_init env inst
     else if os_type inst = XA_OS_WINDOWS then windows_init env inst else Some (True, inst))"

text \<open>The end of \<open>helper_init\<close>, from the page layout on.\<close>

definition init_tail :: "xa_env \<Rightarrow> xa_instance \<Rightarrow> (bool \<times> xa_instance) option" where
  "init_tail env inst = (let inst4 = inst in do {
      inst5 \<leftarrow> (if mode inst4 = XA_MODE_XEN then do {
                  h \<leftarrow> xa_ishvm env (domain_id (m_xen inst4)); Some (inst4\<lparr>hvm := h\<rparr>) }
                else Some inst4);
      (sz, inst6) \<leftarrow> get_memory_size env inst5;
      if \<not> sz \<and> \<not> xa_report_error inst6 XA_ECRITICAL then Some (False, inst6)
      else if os_type inst6 = XA_OS_LINUX then linux_init env inst6
      else if os_type inst6 = XA_OS_WINDOWS then windows_init env inst6
      else Some (True, inst6) })"

lemma init_tail_cases:
  assumes "init_tail env inst4 = Some (ok, inst')"
  shows "\<not> ok \<and> same_caches inst4 inst' \<or>
    (\<exists>i. same_caches inst4 i \<and> page_size i = page_size inst4 \<and> os_init env i = Some (ok, inst'))"
proof -
  obtain inst5 where f: "(if mode inst4 = XA_MODE_XEN then do {
        h \<leftarrow> xa_ishvm env (domain_id (m_xen inst4)); Some (inst4\<lparr>hvm := h\<rparr>) } else Some inst4) = Some inst5"
    and r: "do {
      (sz, inst6) \<leftarrow> get_memory_size env inst5;
      if \<not> sz \<and> \<not> xa_report_error inst6 XA_ECRITICAL then Some (False, inst6)
      else if os_type inst6 = XA_OS_LINUX then linux_init env inst6
      else if os_type inst6 = XA_OS_WINDOWS then windows_init env inst6
      else Some (True, inst6) } = Some (ok, inst')"
    using bind_eq_Some_conv [THEN iffD1, OF assms [unfolded init_tail_def Let_def]] by blast
  have 5: "same_caches inst4 inst5" "page_size inst5 = page_size inst4"
    using f by (auto simp: same_caches_def split: Option.bind_split_asm if_split_asm)
  obtain sz inst6 where 6: "get_memory_size env inst5 = Some (sz, inst6)" using r by (auto split: Option.bind_split_asm)
  have s: "same_caches inst4 inst6" "page_size inst6 = page_size inst4"
    using same_caches_size [OF 6] 5 same_caches_trans by auto
  from r 6 have "\<not> ok \<and> inst' = inst6 \<or> os_init env inst6 = Some (ok, inst')"
    by (auto simp: os_init_def split: if_split_asm)
  then show ?thesis using s by blast
qed

lemma helper_init_cases:
  assumes "helper_init env inst = Some (ok, inst')"
  shows "\<not> ok \<and> same_caches inst inst' \<or>
    (\<exists>i. same_caches inst i \<and> page_size i = 4096 \<and> os_init env i = Some (ok, inst'))"
proof -
  let ?first = "if mode inst = XA_MODE_XEN then
      (if \<not> xc_domain_getinfo env (domain_id (m_xen inst)) \<and> \<not> xa_report_error inst XA_ECRITICAL
       then Some (False, inst)
       else do { i \<leftarrow> init_xen_version env inst; Some (True, i) })
    else Some (True, inst)"
  obtain ok1 inst1 where a: "?first = Some (ok1, inst1)"
    using assms by (auto simp: helper_init_def split: Option.bind_split_asm if_split_asm)
  have s1: "same_caches inst inst1"
    using a same_caches_version by (auto simp: same_caches_def split: Option.bind_split_asm if_split_asm)
  show ?thesis
  proof (cases ok1)
    case False
    then show ?thesis using assms a s1 by (auto simp: helper_init_def split: if_split_asm Option.bind_split_asm)
  next
    case True
    then obtain cfg inst2 where b: "read_config_file env inst1 = Some (cfg, inst2)"
      using assms a by (auto simp: helper_init_def split: Option.bind_split_asm)
    have s2: "same_caches inst inst2" using same_caches_trans [OF s1 same_caches_config [OF b]] .
    define pi where "pi = (if mode inst2 = XA_MODE_XEN then get_page_info_xen env inst2
        else (True, inst2\<lparr>hvm := True, pae := False\<rparr>))"
    have s3: "same_caches inst (init_page_offset (snd pi))" "page_size (init_page_offset (snd pi)) = 4096"
      using s2 same_caches_page_info [of inst2 env] by (auto simp: pi_def same_caches_def init_page_offset_def push_bit_of_1)
    have "\<not> ok \<and> (inst' = inst2 \<or> inst' = snd pi) \<or> init_tail env (init_page_offset (snd pi)) = Some (ok, inst')"
      using assms a b True unfolding helper_init_def init_tail_def [symmetric] pi_def [symmetric]
      by (simp add: case_prod_beta pi_def [symmetric] split: if_split_asm)
    moreover have "same_caches inst (snd pi)" using s3(1) by (simp add: same_caches_def init_page_offset_def)
    ultimately show ?thesis using s2 init_tail_cases s3 same_caches_trans [OF s3(1)] by metis
  qed
qed

section \<open>The operating systems\<close>

lemma caches_ok_settings [simp]:
  "caches_ok (inst\<lparr>kpgd := a\<rparr>) = caches_ok inst" "caches_ok (inst\<lparr>init_task := a\<rparr>) = caches_ok inst"
  "caches_ok (inst\<lparr>pae := b\<rparr>) = caches_ok inst" "caches_ok (inst\<lparr>windows_inst := w\<rparr>) = caches_ok inst"
  by (simp_all add: caches_ok_def cache_ok_def pid_cache_ok_def)

lemma caches_ok_same: "caches_ok inst \<Longrightarrow> same_caches inst inst' \<Longrightarrow> caches_ok inst'"
  by (simp add: caches_ok_def cache_ok_def pid_cache_ok_def same_caches_def)

lemma caches_ok_linux: "caches_ok inst \<Longrightarrow> stays caches_ok (linux_init env inst)"
proof -
  assume ok: "caches_ok inst"
  have k: "stays caches_ok (linux_kpgd env inst)" unfolding linux_kpgd_def Let_def
    by (intro stays_bind2 [OF caches.system_map [OF ok]] stays_bind2 [OF caches.read_long_phys] stays_if stays_Some) simp_all
  have r: "stays caches_ok (if m = None then xa_access_kernel_sym env (i\<lparr>pae := b\<rparr>) s p else Some (m, i))" if "caches_ok i" for m i b s p
    using that by (intro stays_if caches.kernel_sym stays_Some) simp_all
  show ?thesis unfolding linux_init_def
    by (intro stays_bind2 [OF k] stays_bind2 [OF caches.kernel_sym] stays_bind2 [OF r] stays_if stays_bind_pure stays_Some) simp_all
qed

text \<open>Results of three parts.\<close>

definition stays3 :: "(xa_instance \<Rightarrow> bool) \<Rightarrow> ('a \<times> 'b \<times> xa_instance) option \<Rightarrow> bool" where
  "stays3 P r \<longleftrightarrow> (\<forall>x y inst'. r = Some (x, y, inst') \<longrightarrow> P inst')"

lemma stays3_Some: "P inst' \<Longrightarrow> stays3 P (Some (x, y, inst'))"
  by (simp add: stays3_def)

lemma stays3_if: "(b \<Longrightarrow> stays3 P r) \<Longrightarrow> (\<not> b \<Longrightarrow> stays3 P s) \<Longrightarrow> stays3 P (if b then r else s)"
  by simp

lemma stays3_bind: "stays P f \<Longrightarrow> (\<And>x inst1. P inst1 \<Longrightarrow> stays3 P (h x inst1)) \<Longrightarrow> stays3 P (Option.bind f (\<lambda>(x, inst1). h x inst1))"
  by (cases f) (auto simp: stays_def stays3_def)

lemma stays3_bind_pure: "(\<And>x. stays3 P (h x)) \<Longrightarrow> stays3 P (Option.bind v h)"
  by (cases v) (auto simp: stays3_def)

lemma stays_bind3: "stays3 P f \<Longrightarrow> (\<And>x y inst1. P inst1 \<Longrightarrow> stays P (h x y inst1)) \<Longrightarrow> stays P (Option.bind f (\<lambda>(x, y, inst1). h x y inst1))"
  by (cases f) (auto simp: stays_def stays3_def)

text \<open>What \<open>windows_init\<close> needs of a predicate: it reads one symbol, and sets three fields.\<close>

locale windows_setup = lookup_stable P for P +
  fixes env :: xa_env
  assumes read_sym: "P inst \<Longrightarrow> stays P (xa_read_long_sym env inst s)"
    and set_kpgd: "P inst \<Longrightarrow> P (inst\<lparr>kpgd := a\<rparr>)"
    and set_init_task: "P inst \<Longrightarrow> P (inst\<lparr>init_task := a\<rparr>)"
    and set_windows: "P inst \<Longrightarrow> P (inst\<lparr>windows_inst := w\<rparr>)"
begin

lemma kpgd_virt: "P inst \<Longrightarrow> stays3 P (let (ok, inst1) = set_kpgd_virt inst in Some (ok, s, inst1))"
  by (simp add: set_kpgd_virt_def Let_def stays3_def set_kpgd)

lemma method1: "P inst \<Longrightarrow> stays3 P (get_kpgd_method1 env inst s)"
  unfolding get_kpgd_method1_def Let_def [of "_ :: u32"] Let_def [of "_ :: xa_instance"]
  by (intro stays3_bind [OF read_sym] stays3_bind [OF read_long_phys] stays3_if stays3_Some stays3_bind_pure kpgd_virt set_kpgd)

lemma method2: "P inst \<Longrightarrow> stays3 P (get_kpgd_method2 env inst)"
  unfolding get_kpgd_method2_def Let_def [of "_ :: xa_instance"]
  by (intro stays3_bind [OF find_eprocess] stays3_bind [OF read_long_phys] stays3_if stays3_Some kpgd_virt set_kpgd)

lemma both_methods: "P inst \<Longrightarrow> stays3 P (if ok then Some (True, s, inst) else get_kpgd_method2 env inst)"
  by (intro stays3_if stays3_Some method2)

lemma image_base:
  "P inst \<Longrightarrow> stays P (if w_ntoskrnl (windows_inst inst) = 0 then do {
     (b, i) \<leftarrow> get_ntoskrnl_base env inst;
     let i' = i\<lparr>windows_inst := (windows_inst i)\<lparr>w_ntoskrnl := b\<rparr>\<rparr>;
     Some (b = 0 \<longrightarrow> xa_report_error i' XA_EMINOR, i') } else Some (True, inst))"
  unfolding Let_def by (intro stays_if stays_bind2 [OF ntoskrnl_base] stays_Some set_windows)

lemma init: "P inst \<Longrightarrow> stays P (windows_init env inst)"
  unfolding windows_init_def
  by (intro stays_bind2 [OF image_base] stays_bind3 [OF method1] stays_bind3 [OF both_methods] stays_bind2 [OF read_long_phys]
      stays_if stays_Some set_init_task)

end

interpretation windows_caches: windows_setup caches_ok env for env
  by unfold_locales (simp_all add: caches.readers)

lemma caches_ok_os_init: "caches_ok inst \<Longrightarrow> stays caches_ok (os_init env inst)"
  unfolding os_init_def by (intro stays_if caches_ok_linux windows_caches.init stays_Some)

lemma caches_ok_helper_init: "caches_ok inst \<Longrightarrow> stays caches_ok (helper_init env inst)"
  unfolding stays_def
proof (intro allI impI)
  fix ok inst'
  assume c: "caches_ok inst" and h: "helper_init env inst = Some (ok, inst')"
  from helper_init_cases [OF h] show "caches_ok inst'"
    using caches_ok_same [OF c] staysD [OF caches_ok_os_init] by blast
qed

lemma caches_ok_empty: "lru_rep (cache inst) [] \<Longrightarrow> lru_rep (pid_cache inst) [] \<Longrightarrow> caches_ok inst"
  by (auto simp: caches_ok_def cache_ok_def pid_cache_ok_def)

section \<open>Opening a guest\<close>

text \<open>An object that holds no cache entries of an earlier use. \<open>xa_init_file_private\<close> does not clear
  the object it is given, and does not even empty the caches when the file cannot be opened.\<close>

definition no_cells :: "xa_instance \<Rightarrow> bool" where
  "no_cells inst \<longleftrightarrow> l_heap (cache inst) = Map.empty \<and> l_heap (pid_cache inst) = Map.empty"

text \<open>The result of a public initialisation function and the instance it leaves.\<close>

inductive opened :: "xa_env \<Rightarrow> bool \<Rightarrow> xa_instance \<Rightarrow> bool" for env where
  vm_name_strict: "xa_init_vm_name_strict env name = Some (ok, inst) \<Longrightarrow> opened env ok inst"
| vm_name_lax: "xa_init_vm_name_lax env name = Some (ok, inst) \<Longrightarrow> opened env ok inst"
| vm_id_strict: "xa_init_vm_id_strict env domid = Some (ok, inst) \<Longrightarrow> opened env ok inst"
| vm_id_lax: "xa_init_vm_id_lax env domid = Some (ok, inst) \<Longrightarrow> opened env ok inst"
| file_strict: "xa_init_file_strict env filename itype inst0 = Some (ok, inst) \<Longrightarrow> fopen_image env filename \<Longrightarrow>
    no_cells inst0 \<Longrightarrow> opened env ok inst"
| file_lax: "xa_init_file_lax env filename itype inst0 = Some (ok, inst) \<Longrightarrow> fopen_image env filename \<Longrightarrow>
    no_cells inst0 \<Longrightarrow> opened env ok inst"

inductive_cases openedE: "opened env ok inst"

text \<open>They all run \<open>helper_init\<close> on an instance with empty caches, or fail before.\<close>

lemma common_empty:
  "no_cells inst \<Longrightarrow> lru_rep (cache (xa_init_common inst)) [] \<and> lru_rep (pid_cache (xa_init_common inst)) []"
  by (simp add: no_cells_def xa_init_common_def lru_rep_def lru_ok_def)

lemma vm_private_helper:
  assumes "xa_init_vm_private env domid err = Some (ok, inst)"
  shows "\<exists>i. lru_rep (cache i) [] \<and> lru_rep (pid_cache i) [] \<and> (helper_init env i = Some (ok, inst) \<or> \<not> ok \<and> inst = i)"
proof -
  let ?z = "xa_instance_zero\<lparr>mode := XA_MODE_XEN, error_mode := err\<rparr>"
  have "no_cells ?z" by (simp add: no_cells_def xa_instance_zero_def lru_init_def)
  note c = common_empty [OF this]
  show ?thesis
  proof (cases "xc_interface_open env")
    case True
    then show ?thesis using assms c by (intro exI [of _ "(xa_init_common ?z)\<lparr>m_xen := (m_xen (xa_init_common ?z))
        \<lparr>domain_id := domid, live_pfn_to_mfn_table := None, nr_pfns := 0\<rparr>\<rparr>"]) (simp add: xa_init_vm_private_def Let_def)
  next
    case False
    then have "\<not> ok \<and> inst = ?z" using assms by (simp add: xa_init_vm_private_def Let_def)
    moreover have "lru_rep (cache ?z) []" "lru_rep (pid_cache ?z) []"
      by (simp_all add: xa_instance_zero_def lru_init_def lru_rep_def lru_ok_def)
    ultimately show ?thesis by blast
  qed
qed

lemma file_private_helper:
  assumes "xa_init_file_private env filename itype inst0 err = Some (ok, inst)" "fopen_image env filename" "no_cells inst0"
  shows "\<exists>i. lru_rep (cache i) [] \<and> lru_rep (pid_cache i) [] \<and> helper_init env i = Some (ok, inst)"
proof -
  let ?i = "inst0\<lparr>mode := XA_MODE_FILE, error_mode := err, m_file := (m_file inst0)\<lparr>fhandle := filename\<rparr>\<rparr>"
  have "no_cells ?i" using assms(3) by (simp add: no_cells_def)
  from common_empty [OF this] show ?thesis using assms(1,2)
    by (intro exI [of _ "(xa_init_common ?i)\<lparr>image_type := Some (strndup itype 256)\<rparr>"])
      (simp add: xa_init_file_private_def Let_def)
qed

lemma opened_helper:
  assumes "opened env ok inst"
  obtains (run) i where "lru_rep (cache i) []" "lru_rep (pid_cache i) []" "helper_init env i = Some (ok, inst)"
    | (early) "lru_rep (cache inst) []" "lru_rep (pid_cache inst) []" "\<not> ok"
proof -
  have "\<exists>i. lru_rep (cache i) [] \<and> lru_rep (pid_cache i) [] \<and> (helper_init env i = Some (ok, inst) \<or> \<not> ok \<and> inst = i)"
    using assms
    by (elim openedE; simp add: xa_init_vm_name_strict_def xa_init_vm_name_lax_def xa_init_vm_id_strict_def xa_init_vm_id_lax_def
        xa_init_file_strict_def xa_init_file_lax_def bind_eq_Some_conv)
      (blast dest: vm_private_helper file_private_helper)+
  then show thesis using run early by blast
qed

lemma opened_caches_ok: "opened env ok inst \<Longrightarrow> caches_ok inst"
  by (erule opened_helper) (use staysD [OF caches_ok_helper_init] caches_ok_empty in blast)+

section \<open>The truth of the caches after initialisation\<close>

text \<open>Caches that say nothing about any guest: no page is entered with an address, and no pid.\<close>

definition guest_free :: "xa_instance \<Rightarrow> bool" where
  "guest_free inst \<longleftrightarrow> (\<forall>tr. va_coherent tr inst) \<and> lru_rep (pid_cache inst) []"

lemma guest_free_coherent: "guest_free inst \<Longrightarrow> guest_coherent env inst g inst"
  by (auto simp: guest_free_def guest_coherent_def pid_coherent_def)

lemma guest_free_cache:
  assumes "guest_free inst" "only_cache inst inst'" "\<And>tr. va_coherent tr inst'"
  shows "guest_free inst'"
  using assms only_cache_pid_cache [OF assms(2)] by (simp add: guest_free_def)

lemma guest_free_settings [simp]:
  "guest_free (inst\<lparr>kpgd := a\<rparr>) = guest_free inst" "guest_free (inst\<lparr>init_task := a\<rparr>) = guest_free inst"
  "guest_free (inst\<lparr>pae := b\<rparr>) = guest_free inst" "guest_free (inst\<lparr>windows_inst := w\<rparr>) = guest_free inst"
  "guest_free (inst\<lparr>sysmap := s\<rparr>) = guest_free inst"
  "guest_free (inst\<lparr>m_xen := (m_xen inst)\<lparr>live_pfn_to_mfn_table := tb, nr_pfns := n\<rparr>\<rparr>) = guest_free inst"
  by (simp_all add: guest_free_def va_coherent_def)

interpretation free_names: name_stable guest_free env for env
proof
  fix env' inst s pid v inst'
  assume c: "guest_free inst"
  show "stays guest_free (xa_check_cache_sym env' inst s pid)"
    unfolding stays_def
  proof (intro allI impI)
    fix x i
    assume h: "xa_check_cache_sym env' inst s pid = Some (x, i)"
    have "va_coherent tr i \<and> only_cache inst i" for tr using va_coherent_check_sym [OF _ h, of tr] c by (simp add: guest_free_def)
    then show "guest_free i" using guest_free_cache [OF c] by blast
  qed
  show "stays guest_free (xa_check_cache_virt env' inst v pid)"
    unfolding stays_def
  proof (intro allI impI)
    fix x i
    assume h: "xa_check_cache_virt env' inst v pid = Some (x, i)"
    have "va_coherent tr i \<and> only_cache inst i" for tr
      using va_coherent_hit [of tr inst env' v pid] h c by (auto simp: guest_free_def)
    then show "guest_free i" using guest_free_cache [OF c] by blast
  qed
  show "stays guest_free (xa_check_pid_cache env' inst pid)"
    unfolding stays_def
  proof (intro allI impI)
    fix x i
    assume h: "xa_check_pid_cache env' inst pid = Some (x, i)"
    have "lru_rep (pid_cache inst) []" using c by (simp add: guest_free_def)
    from xa_check_pid_cache_rep [OF this, of env' pid] h have r: "lru_rep (pid_cache i) []" "only_pid_cache inst i" by auto
    then show "guest_free i"
      using c only_pid_cache_cache [OF r(2)] same_guest_fields(5) [OF only_pid_cache_same_guest [OF r(2)]]
      by (simp add: guest_free_def va_coherent_def)
  qed
  show "guest_free inst'" if "xa_update_cache env inst (Some s) v 0 0 = Some inst'"
    using guest_free_cache [OF c] va_coherent_update_sym [OF _ that] c by (auto simp: guest_free_def)
qed simp_all

text \<open>A Windows guest: the one symbol that is read enters no page.\<close>

definition windows_free :: "xa_instance \<Rightarrow> bool" where
  "windows_free inst \<longleftrightarrow> guest_free inst \<and> os_type inst = XA_OS_WINDOWS"

lemma stays_windows_free:
  assumes "stays guest_free r" "stays (\<lambda>i. fixed i = fixed inst) r" "windows_free inst"
  shows "stays windows_free r"
  using assms fixed_fields(8) unfolding stays_def windows_free_def by metis

interpretation windows_free: windows_setup windows_free env for env
proof
  fix env' inst s pid v
  assume c: "windows_free inst"
  then have f: "guest_free inst" by (simp add: windows_free_def)
  note w = stays_windows_free [OF _ _ c]
  show "stays windows_free (xa_check_cache_sym env' inst s pid)"
    by (intro w free_names.check_sym f fixed_part.check_sym refl)
  show "stays windows_free (xa_check_cache_virt env' inst v pid)"
    by (intro w free_names.check_virt f fixed_part.check_virt refl)
  show "stays windows_free (xa_check_pid_cache env' inst pid)"
    by (intro w free_names.check_pid f fixed_part.check_pid refl)
  have "stays guest_free (xa_read_long_sym env inst s)"
    using c free_names.windows_symbol [OF f]
    by (simp add: xa_read_long_sym_def xa_access_kernel_sym_def windows_free_def stays_read_mapped)
  then show "stays windows_free (xa_read_long_sym env inst s)"
    by (intro w fixed_part.readers refl)
qed (simp_all add: windows_free_def)

text \<open>A Linux guest. When the first attempt to map \<open>init_task\<close> fails, either the caches still say
  nothing about the guest, or the symbol is cached with the address that could not be mapped; then the second
  attempt, with the other kind of page tables, uses that address again and fails too.\<close>

definition stale_symbol :: "xa_env \<Rightarrow> string \<Rightarrow> xa_instance \<Rightarrow> bool" where
  "stale_symbol env s inst \<longleftrightarrow> (\<exists>xs e. lru_rep (cache inst) xs \<and> List.find (sym_hit s 0) xs = Some e \<and>
     xa_access_ma env inst (ce_mach_address e) PROT_READ = None)"

lemma access_ma_pae [simp]: "xa_access_ma env (inst\<lparr>pae := b\<rparr>) = xa_access_ma env inst"
  by (intro ext) (simp add: xa_access_ma_def xa_mmap_mfn_def xa_map_page_def xa_map_file_range_def Let_def)

lemma cached_symbol:
  assumes "lru_rep (cache inst) xs" "List.find (sym_hit s 0) xs = Some e"
  shows "\<exists>inst'. linux_access_kernel_symbol env inst s prot = Some (xa_access_ma env inst (ce_mach_address e) PROT_READ, inst')"
proof -
  obtain i where i: "xa_check_cache_sym env inst s 0 = Some (Some (ce_mach_address e), i)" "only_cache inst i"
    using xa_check_cache_sym_rep [OF assms(1), of env s 0] assms(2) by auto
  have "xa_access_ma env i = xa_access_ma env inst" by (rule same_guest_map(2) [OF only_cache_same_guest [OF i(2)]])
  then show ?thesis using i(1) by (simp add: linux_access_kernel_symbol_def)
qed

lemma stale_symbol_fails:
  assumes "stale_symbol env s inst"
  shows "\<exists>inst'. linux_access_kernel_symbol env (inst\<lparr>pae := b\<rparr>) s prot = Some (None, inst')"
proof -
  obtain xs e where x: "lru_rep (cache (inst\<lparr>pae := b\<rparr>)) xs" "List.find (sym_hit s 0) xs = Some e"
    "xa_access_ma env inst (ce_mach_address e) PROT_READ = None" using assms by (auto simp: stale_symbol_def)
  from cached_symbol [OF x(1,2), of env prot] x(3) show ?thesis by simp
qed

definition empty_caches :: "xa_instance \<Rightarrow> bool" where
  "empty_caches inst \<longleftrightarrow> lru_rep (cache inst) [] \<and> lru_rep (pid_cache inst) [] \<and> page_size inst = 4096"

lemma empty_caches_free: "empty_caches inst \<Longrightarrow> guest_free inst"
  by (auto simp: empty_caches_def guest_free_def va_coherent_def intro!: exI [of _ "[]"])

lemma empty_caches_settings [simp]:
  "empty_caches (inst\<lparr>kpgd := a\<rparr>) = empty_caches inst" "empty_caches (inst\<lparr>sysmap := s\<rparr>) = empty_caches inst"
  "empty_caches (inst\<lparr>m_xen := x\<rparr>) = empty_caches inst"
  by (simp_all add: empty_caches_def)

interpretation empty: lookup_stable empty_caches
proof
  fix env inst s pid v
  assume "empty_caches inst"
  then have c: "lru_rep (cache inst) []" "lru_rep (pid_cache inst) []" "page_size inst = 4096" by (auto simp: empty_caches_def)
  show "stays empty_caches (xa_check_cache_sym env inst s pid)"
    using xa_check_cache_sym_rep [OF c(1), of env s pid] c(2,3) only_cache_pid_cache only_cache_page_size
    by (fastforce simp: stays_def empty_caches_def)
  show "stays empty_caches (xa_check_cache_virt env inst v pid)"
    using xa_check_cache_virt_rep [OF c(1) refl, of env v pid] c(2,3) only_cache_pid_cache only_cache_page_size
    by (fastforce simp: stays_def empty_caches_def)
  show "stays empty_caches (xa_check_pid_cache env inst pid)"
    using xa_check_pid_cache_rep [OF c(2), of env pid] c(1,3) only_pid_cache_cache same_guest_fields(5) [OF only_pid_cache_same_guest]
    by (fastforce simp: stays_def empty_caches_def)
qed simp_all

text \<open>The symbol is entered with its translation, and then, when that is not 0, its page.\<close>

lemma first_page:
  assumes "lru_rep (cache inst) [e]" "lru_rep (pid_cache inst) []" "page_size inst = 4096"
    and "ce_virt_address e = 0" "ce_pid e = 0" "sym_match s e" "ce_mach_address e = a" "a \<noteq> 0"
    and "xa_update_cache env inst None v 0 a = Some inst'" "xa_access_ma env inst' a PROT_READ = None"
  shows "guest_free inst' \<and> v AND NOT 0xFFF = 0 \<or> stale_symbol env s inst'"
proof -
  let ?vl = "v AND NOT 0xFFF" and ?ml = "a AND NOT 0xFFF"
  obtain m where u: "lru_rep (cache inst') (update_seq (now env inst) None v ?vl ?ml 0 m [e])" "only_cache inst inst'"
    using xa_update_cache_inv [OF assms(1,9)] assms(3) by auto
  have p: "lru_rep (pid_cache inst') []" "page_size inst' = 4096"
    using only_cache_pid_cache [OF u(2)] only_cache_page_size [OF u(2)] assms(2,3) by auto
  show ?thesis
  proof (cases "v = 0 \<or> ?vl = 0")
    case True
    then have "\<exists>e'. lru_rep (cache inst') [e'] \<and> ce_virt_address e' = 0"
      using u(1) assms(4) by (auto simp: update_seq_def split: if_split_asm)
    then have "guest_free inst'" using p by (auto simp: guest_free_def va_coherent_def entry_coherent_def intro!: exI [of _ "[_]"])
    then show ?thesis using True by auto
  next
    case False
    then have "lru_rep (cache inst') [e, seq_entry (now env inst) None ?vl ?ml 0 m]"
      using u(1) assms(4) by (simp add: update_seq_def)
    moreover have "sym_hit s 0 e" using assms(5-8) by (simp add: sym_hit_def)
    ultimately have "stale_symbol env s inst'"
      unfolding stale_symbol_def using assms(7,10) by (intro exI [of _ "[e, _]"] exI [of _ e]) auto
    then show ?thesis ..
  qed
qed

lemma lru_search_empty: "lru_rep l [] \<Longrightarrow> lru_search Q l = Some None"
  by (auto simp: lru_rep_def lru_ok_def contents_def lru_search_def lru_find.simps)

lemma symbol_entered:
  assumes "empty_caches inst" "xa_update_cache env inst (Some s) v 0 0 = Some inst1"
  obtains a where "xa_translate_kv2p env inst v = Some a" "only_cache inst inst1"
    "lru_rep (cache inst1) [seq_entry (now env inst) (Some s) (v AND NOT 0xFFF) 0 0 a]"
proof -
  have e: "lru_rep (cache inst) []" "page_size inst = 4096" using assms(1) by (auto simp: empty_caches_def)
  have q: "(if v \<noteq> 0 then lru_search Q (cache inst) else Some None) = Some None" for Q
    by (simp add: lru_search_empty [OF e(1)])
  have "xa_update_cache env inst (Some s) v 0 0 = None" if "xa_translate_kv2p env inst v = None"
    using that by (simp add: xa_update_cache_def q lru_search_empty [OF e(1)] new_cache_entry_def sym_mach_def)
  then obtain a where a: "xa_translate_kv2p env inst v = Some a" using assms(2) by (cases "xa_translate_kv2p env inst v") auto
  then have "Some s = None \<or> sym_mach env inst v 0 = Some a" by (simp add: sym_mach_def)
  from xa_update_cache_rep [OF e(1) this, of 0] assms(2) that [OF a] show thesis by (auto simp: update_seq_def e(2))
qed

text \<open>The access to the symbol's page that follows: the entry is not of a page, so the tables are asked.\<close>

lemma symbol_access:
  assumes "lru_rep (cache inst) [e]" "ce_virt_address e = 0" "xa_translate_kv2p env inst v = Some a"
  obtains inst' where "lru_rep (cache inst') [e]" "only_cache inst inst'"
    "xa_access_kernel_va env inst v prot = (if a = 0 then Some (None, inst')
       else do { i \<leftarrow> xa_update_cache env inst' None v 0 a; Some (xa_access_ma env i a prot, i) })"
proof -
  have "\<not> virt_hit l 0 e" for l using assms(2) by (simp add: virt_hit_def)
  then obtain inst' where c: "xa_check_cache_virt env inst v 0 = Some (None, inst')" "lru_rep (cache inst') [e]" "only_cache inst inst'"
    using xa_check_cache_virt_rep [OF assms(1) refl, of env v 0] by auto
  have "kernel_translate env v inst' = Some (a, inst')"
    using assms(3) only_cache_same_guest [OF c(3)]
    by (simp add: kernel_translate_def xa_translate_kv2p_def same_guest_walk [of inst inst'] Let_def)
  then show thesis using that [OF c(2,3)] c(1) by (simp add: xa_access_kernel_va_def access_va_def)
qed

lemma seq_entry_symbol:
  "s \<noteq> [] \<Longrightarrow> length s < MAX_SYM_LEN \<Longrightarrow> sym_match s (seq_entry t (Some s) vl ml pid m)"
  "ce_virt_address (seq_entry t (Some s) vl ml pid m) = 0" "ce_pid (seq_entry t (Some s) vl ml pid m) = pid"
  "ce_mach_address (seq_entry t (Some s) vl ml pid m) = m"
  by (auto simp: seq_entry_def sym_match_def strncmp_eq_def)

lemma first_access:
  assumes "empty_caches inst" "s \<noteq> []" "length s < MAX_SYM_LEN"
    and "xa_update_cache env inst (Some s) v 0 0 = Some inst1" "xa_access_kernel_va env inst1 v PROT_READ = Some (None, inst')"
  shows "guest_free inst' \<and> (xa_translate_kv2p env inst v = Some 0 \<or> v AND NOT 0xFFF = 0) \<or> stale_symbol env s inst'"
proof -
  obtain a where a: "xa_translate_kv2p env inst v = Some a" "only_cache inst inst1"
    "lru_rep (cache inst1) [seq_entry (now env inst) (Some s) (v AND NOT 0xFFF) 0 0 a]"
    using symbol_entered [OF assms(1,4)] .
  let ?e = "seq_entry (now env inst) (Some s) (v AND NOT 0xFFF) 0 0 a"
  have "xa_translate_kv2p env inst1 v = Some a"
    using a(1) only_cache_same_guest [OF a(2)] by (simp add: xa_translate_kv2p_def same_guest_walk [of inst inst1])
  from symbol_access [OF a(3) seq_entry_symbol(2) this, of PROT_READ] obtain inst2 where
    i: "lru_rep (cache inst2) [?e]" "only_cache inst1 inst2" "xa_access_kernel_va env inst1 v PROT_READ = (if a = 0 then Some (None, inst2)
      else do { i \<leftarrow> xa_update_cache env inst2 None v 0 a; Some (xa_access_ma env i a PROT_READ, i) })" .
  have p: "lru_rep (pid_cache inst2) []" "page_size inst2 = 4096"
    using assms(1) only_cache_pid_cache [OF a(2)] only_cache_page_size [OF a(2)] only_cache_pid_cache [OF i(2)] only_cache_page_size [OF i(2)]
    by (auto simp: empty_caches_def)
  show ?thesis
  proof (cases "a = 0")
    case True
    then have "inst' = inst2" using assms(5) i(3) by simp
    moreover have "guest_free inst2"
      using i(1) p by (auto simp: guest_free_def va_coherent_def entry_coherent_def seq_entry_def intro!: exI [of _ "[_]"])
    ultimately show ?thesis using True a(1) by simp
  next
    case False
    then have "xa_update_cache env inst2 None v 0 a = Some inst'" "xa_access_ma env inst' a PROT_READ = None"
      using assms(5) i(3) by (auto simp: bind_eq_Some_conv)
    then show ?thesis using first_page [OF i(1) p seq_entry_symbol(2,3) seq_entry_symbol(1) [OF assms(2,3)] seq_entry_symbol(4) False] by blast
  qed
qed

lemma first_attempt:
  assumes "empty_caches inst" "s \<noteq> []" "length s < MAX_SYM_LEN" "linux_access_kernel_symbol env inst s PROT_READ = Some (None, inst')"
  shows "guest_free inst' \<or> stale_symbol env s inst'"
proof -
  have "lru_rep (cache inst) []" using assms(1) by (simp add: empty_caches_def)
  then obtain inst1 where c: "xa_check_cache_sym env inst s 0 = Some (None, inst1)"
    using xa_check_cache_sym_rep [of inst "[]" env s 0] by auto
  have e1: "empty_caches inst1" using staysD [OF empty.check_sym [OF assms(1)] c] .
  obtain r inst2 where m: "linux_system_map_symbol_to_address env inst1 s = Some (r, inst2)"
    using assms(4) c by (auto simp: linux_access_kernel_symbol_def split: Option.bind_split_asm)
  have e2: "empty_caches inst2" using staysD [OF empty.system_map [OF e1] m] .
  show ?thesis
  proof (cases r)
    case XA_FAILURE
    then show ?thesis using assms(4) c m empty_caches_free [OF e2] by (simp add: linux_access_kernel_symbol_def)
  next
    case (XA_SUCCESS v)
    then obtain inst3 where "xa_update_cache env inst2 (Some s) v 0 0 = Some inst3" "xa_access_kernel_va env inst3 v PROT_READ = Some (None, inst')"
      using assms(4) c m by (auto simp: linux_access_kernel_symbol_def split: Option.bind_split_asm)
    then show ?thesis using first_access [OF e2 assms(2,3)] by blast
  qed
qed

lemma guest_tr_init_task [simp]: "guest_tr env (inst\<lparr>init_task := t\<rparr>) = guest_tr env inst"
proof -
  have m: "xa_map_page env (inst\<lparr>init_task := t\<rparr>) = xa_map_page env inst"
    by (intro ext) (simp add: xa_map_page_def xa_map_file_range_def)
  have r: "xa_read_long_mach env (inst\<lparr>init_task := t\<rparr>) = xa_read_long_mach env inst"
    "xa_read_long_long_mach env (inst\<lparr>init_task := t\<rparr>) = xa_read_long_long_mach env inst"
    by (simp_all add: fun_eq_iff xa_read_long_mach_def xa_read_long_long_mach_def xa_access_ma_def xa_mmap_mfn_def m)
  have p: "pae (inst\<lparr>init_task := t\<rparr>) = pae inst" by simp
  have l: "xa_pagetable_lookup env (inst\<lparr>init_task := t\<rparr>) = xa_pagetable_lookup env inst"
    by (intro ext, unfold xa_pagetable_lookup_def v2p_pae_def v2p_nopae_def get_pdpi_def get_pgd_pae_def
      get_pte_pae_def get_pgd_nopae_def get_pte_nopae_def pgd_index_def pte_index_def get_large_paddr_def r p, rule refl)
  show ?thesis by (intro ext, unfold guest_tr_def xa_translate_kv2p_def xa_current_cr3_def l) simp
qed

lemma settled_coherent:
  assumes "\<And>g. guest_coherent env i0 g i"
  shows "coherent env (i\<lparr>init_task := t\<rparr>) (i\<lparr>init_task := t\<rparr>)"
proof -
  let ?f = "i\<lparr>init_task := t\<rparr>"
  have c: "guest_coherent env i0 (pgd_spec env ?f) i" using assms .
  have "guest_tr env ?f = guest_tr env i0" using same_guest_tr [OF guest_coherent_same [OF c]] by (simp add: fun_eq_iff)
  then show ?thesis using c by (simp add: guest_coherent_def va_coherent_def)
qed

lemma linux_init_coherent:
  assumes "empty_caches inst" "os_type inst = XA_OS_LINUX" "linux_init env inst = Some (True, inst')"
  shows "coherent env inst' inst'"
proof -
  obtain inst1 where k: "linux_kpgd env inst = Some (True, inst1)"
    using assms(3) by (auto simp: linux_init_def split: Option.bind_split_asm if_split_asm)
  have "stays empty_caches (linux_kpgd env inst)" unfolding linux_kpgd_def Let_def
    by (intro stays_bind2 [OF empty.system_map [OF assms(1)]] stays_bind2 [OF empty.read_long_phys] stays_if stays_Some) simp_all
  then have e1: "empty_caches inst1" using k by (rule staysD)
  have os1: "os_type inst1 = XA_OS_LINUX" using layout_linux_kpgd [OF k] assms(2) by (simp add: layout_def)
  obtain m inst2 where a: "linux_access_kernel_symbol env inst1 ''init_task'' PROT_READ = Some (m, inst2)"
    using assms(3) k os1 by (auto simp: linux_init_def xa_access_kernel_sym_def split: Option.bind_split_asm)
  have c2: "guest_coherent env inst1 g inst2" for g
    using staysD [OF kernel.linux_symbol a] guest_free_coherent [OF empty_caches_free [OF e1]] by blast
  have os2: "os_type inst2 = XA_OS_LINUX" using same_guest_fields(8) [OF guest_coherent_same [OF c2]] os1 by simp
  show ?thesis
  proof (cases m)
    case (Some mo)
    then have "\<exists>t. inst' = inst2\<lparr>init_task := t\<rparr>"
      using assms(3) k os1 a by (auto simp: linux_init_def xa_access_kernel_sym_def split: Option.bind_split_asm if_split_asm)
    then show ?thesis using settled_coherent [OF c2] by blast
  next
    case None
    let ?i = "inst2\<lparr>pae := \<not> pae inst2\<rparr>"
    have os3: "os_type ?i = XA_OS_LINUX" using os2 by simp
    obtain m2 inst3 t where b: "linux_access_kernel_symbol env ?i ''init_task'' PROT_READ = Some (m2, inst3)"
      and r: "inst' = inst3\<lparr>init_task := t\<rparr>" and n: "m2 \<noteq> None"
      using assms(3) k os1 a None os3
      by (auto simp: linux_init_def xa_access_kernel_sym_def read_task_head_def split: Option.bind_split_asm if_split_asm)
    have "\<not> stale_symbol env ''init_task'' inst2" using stale_symbol_fails [of env "''init_task''" inst2 "\<not> pae inst2" PROT_READ] b n by auto
    then have "guest_free inst2" using first_attempt [OF e1 _ _ a [unfolded None]] by simp
    then have "guest_coherent env ?i g ?i" for g by (intro guest_free_coherent) simp
    then have "guest_coherent env ?i g inst3" for g using staysD [OF kernel.linux_symbol b] by blast
    then show ?thesis using settled_coherent r by blast
  qed
qed

lemma os_init_coherent:
  assumes "empty_caches inst" "os_init env inst = Some (True, inst')"
  shows "coherent env inst' inst'"
proof -
  consider "os_type inst = XA_OS_LINUX" | "os_type inst = XA_OS_WINDOWS" "os_type inst \<noteq> XA_OS_LINUX"
    | "os_type inst \<noteq> XA_OS_LINUX" "os_type inst \<noteq> XA_OS_WINDOWS" by blast
  then show ?thesis
  proof cases
    case 1
    then show ?thesis using linux_init_coherent [OF assms(1)] assms(2) by (simp add: os_init_def)
  next
    case 2
    then have "windows_init env inst = Some (True, inst')" using assms(2) by (simp add: os_init_def)
    moreover have "windows_free inst" using empty_caches_free [OF assms(1)] 2 by (simp add: windows_free_def)
    ultimately have "windows_free inst'" using staysD [OF windows_free.init] by blast
    then show ?thesis by (intro guest_free_coherent) (simp add: windows_free_def)
  next
    case 3
    then show ?thesis using assms empty_caches_free guest_free_coherent by (simp add: os_init_def)
  qed
qed

lemma opened_coherent:
  assumes "opened env True inst"
  shows "coherent env inst inst"
  using assms
proof (cases rule: opened_helper)
  case (run i)
  from helper_init_cases [OF run(3)] obtain j where "same_caches i j" "page_size j = 4096" "os_init env j = Some (True, inst)" by auto
  then show ?thesis using os_init_coherent [of j env inst] run(1,2) by (simp add: same_caches_def empty_caches_def)
qed simp

text \<open>The first attempt, when the address has a translation but its page cannot be mapped.\<close>

lemma check_sym_empty: "empty_caches inst \<Longrightarrow> xa_check_cache_sym env inst s pid = Some (None, inst)"
  by (simp add: xa_check_cache_sym_def empty_caches_def lru_search_empty)

lemma unmapped_symbol:
  assumes "empty_caches inst" "s \<noteq> []" "length s < MAX_SYM_LEN"
    and "linux_system_map_symbol_to_address env inst s = Some (XA_SUCCESS v, inst1)" "v AND NOT 0xFFF \<noteq> 0"
    and "xa_translate_kv2p env inst1 v = Some a" "a \<noteq> 0" "xa_access_ma env inst1 a PROT_READ = None"
  shows "\<exists>inst'. linux_access_kernel_symbol env inst s PROT_READ = Some (None, inst') \<and> stale_symbol env s inst'"
proof -
  have e1: "empty_caches inst1" using staysD [OF empty.system_map [OF assms(1)] assms(4)] .
  have "Some s = None \<or> sym_mach env inst1 v 0 = Some a" using assms(6) by (simp add: sym_mach_def)
  then obtain inst2 where u: "xa_update_cache env inst1 (Some s) v 0 0 = Some inst2"
    using xa_update_cache_rep e1 unfolding empty_caches_def by blast
  have "guest_coherent env inst1 g inst2" for g
    using kernel.enter_symbol [OF guest_free_coherent [OF empty_caches_free [OF e1]] u] .
  from xa_access_kernel_va_coherent(1) [OF this, of v PROT_READ]
  have "map_option fst (xa_access_kernel_va env inst2 v PROT_READ) = Some None"
    using assms(6-8) by (simp add: kernel_va_spec_def)
  then obtain inst' where x: "xa_access_kernel_va env inst2 v PROT_READ = Some (None, inst')" by auto
  have "stale_symbol env s inst'" using first_access [OF e1 assms(2,3) u x] assms(5-7) by simp
  then show ?thesis using u x assms(4) check_sym_empty [OF assms(1)] by (simp add: linux_access_kernel_symbol_def)
qed

text \<open>When the page can be mapped both entries stay, and the next lookup of the symbol finds its address.\<close>

lemma only_cache_trans: "only_cache a b \<Longrightarrow> only_cache b c \<Longrightarrow> only_cache a c"
  unfolding only_cache_def by (metis (no_types, lifting) xa_instance.surjective xa_instance.update_convs(15,21))

lemma mapped_symbol:
  assumes "empty_caches inst" "s \<noteq> []" "length s < MAX_SYM_LEN"
    and "linux_system_map_symbol_to_address env inst s = Some (XA_SUCCESS v, inst1)" "v AND NOT 0xFFF \<noteq> 0"
    and "xa_translate_kv2p env inst1 v = Some a" "a \<noteq> 0" "xa_access_ma env inst1 a prot = Some mo"
  shows "\<exists>inst' e p. linux_access_kernel_symbol env inst s prot = Some (Some mo, inst') \<and> only_cache inst1 inst' \<and>
    lru_rep (cache inst') [e, p] \<and> sym_hit s 0 e \<and> ce_mach_address e = a \<and> ce_symbol_name e = s \<and> ce_symbol_name p = []"
proof -
  have e1: "empty_caches inst1" using staysD [OF empty.system_map [OF assms(1)] assms(4)] .
  have "Some s = None \<or> sym_mach env inst1 v 0 = Some a" using assms(6) by (simp add: sym_mach_def)
  then obtain inst2 where u: "xa_update_cache env inst1 (Some s) v 0 0 = Some inst2"
    using xa_update_cache_rep e1 unfolding empty_caches_def by blast
  let ?e = "seq_entry (now env inst1) (Some s) (v AND NOT 0xFFF) 0 0 a"
  have e: "only_cache inst1 inst2" "lru_rep (cache inst2) [?e]" using symbol_entered [OF e1 u] assms(6) by auto
  have t2: "xa_translate_kv2p env inst2 v = Some a"
    using assms(6) only_cache_same_guest [OF e(1)] by (simp add: xa_translate_kv2p_def same_guest_walk [of inst1 inst2])
  obtain inst3 where i: "lru_rep (cache inst3) [?e]" "only_cache inst2 inst3"
    "xa_access_kernel_va env inst2 v prot = do { i \<leftarrow> xa_update_cache env inst3 None v 0 a; Some (xa_access_ma env i a prot, i) }"
    using symbol_access [OF e(2) seq_entry_symbol(2) t2, of prot] assms(7) by auto
  have ps: "page_size inst3 = 4096"
    using e1 only_cache_page_size [OF e(1)] only_cache_page_size [OF i(2)] by (simp add: empty_caches_def)
  obtain inst' where n: "xa_update_cache env inst3 None v 0 a = Some inst'" "only_cache inst3 inst'"
    "lru_rep (cache inst') (update_seq (now env inst3) None v (v AND NOT 0xFFF) (a AND NOT 0xFFF) 0 a [?e])"
    using xa_update_cache_rep [OF i(1), of None env v a a 0] ps by auto
  have "v \<noteq> 0" using assms(5) by auto
  then have l: "lru_rep (cache inst') [?e, seq_entry (now env inst3) None (v AND NOT 0xFFF) (a AND NOT 0xFFF) 0 a]"
    using n(3) assms(5) by (simp add: update_seq_def seq_entry_symbol(2))
  have o: "only_cache inst1 inst'" using only_cache_trans [OF only_cache_trans [OF e(1) i(2)] n(2)] .
  have m: "xa_access_ma env inst' a prot = Some mo" using assms(8) same_guest_map(2) [OF only_cache_same_guest [OF o]] by simp
  have "sym_hit s 0 ?e" using seq_entry_symbol(1) [OF assms(2,3)] seq_entry_symbol(3,4) assms(7) by (simp add: sym_hit_def)
  moreover have "ce_symbol_name ?e = s" using assms(3) by (simp add: seq_entry_def)
  ultimately show ?thesis using l o m n(1) i(3) u check_sym_empty [OF assms(1)] assms(4) seq_entry_symbol(4)
    by (intro exI [of _ inst'] exI [of _ ?e] exI) (auto simp: linux_access_kernel_symbol_def seq_entry_def)
qed

section \<open>Destruction\<close>

lemma xa_destroy_lists:
  assumes "lru_rep (cache inst) xs" "lru_rep (pid_cache inst) ys"
  shows "\<exists>r inst'. xa_destroy env inst = Some (r, inst') \<and> l_heap (cache inst') = Map.empty \<and> l_heap (pid_cache inst') = Map.empty"
  using lru_free_all_rep [OF assms(1)] lru_free_all_rep [OF assms(2)]
  by (simp add: xa_destroy_def helper_destroy_def xa_destroy_cache_def xa_destroy_pid_cache_def)

lemma xa_destroy_frees:
  assumes "caches_ok inst"
  shows "\<exists>r inst'. xa_destroy env inst = Some (r, inst') \<and> l_heap (cache inst') = Map.empty \<and> l_heap (pid_cache inst') = Map.empty"
proof -
  obtain xs ys where "lru_rep (cache inst) xs" "lru_rep (pid_cache inst) ys"
    using assms by (auto simp: caches_ok_def cache_ok_def pid_cache_ok_def)
  then show ?thesis by (rule xa_destroy_lists)
qed

section \<open>Properties\<close>


text \<open>A live domain of which every page maps the first 4 MB onto themselves.\<close>

definition live_env :: xa_env where
  "live_env = init_env\<lparr>xc_map_foreign_range := (\<lambda>d f. Some ([0x81, 0, 0, 0, 7, 0, 0, 0] @ replicate 8 0))\<rparr>"

lemma live_runs:
  "map_option fst (do { (ok, i) \<leftarrow> xa_init_vm_id_lax live_env 1;
     if \<not> ok then None else xa_access_kernel_va live_env i 0x1004 PROT_READ }) \<noteq> None"
  by code_simp

lemma live_steps:
  obtains inst0 inst where "xa_init_vm_id_lax live_env 1 = Some (True, inst0)" "(lib_step live_env)\<^sup>*\<^sup>* inst0 inst"
proof -
  obtain i0 r i where "xa_init_vm_id_lax live_env 1 = Some (True, i0)" "xa_access_kernel_va live_env i0 0x1004 PROT_READ = Some (r, i)"
    using live_runs by (auto split: Option.bind_split_asm if_split_asm)
  then show thesis using that lib_step.kernel_va by blast
qed




text \<open>(C39) The second attempt of \<open>linux_init\<close> with the other kind of page tables is in vain when the
  first has found an address: when \<open>init_task\<close> translates, by tables read as the wrong kind, to a page
  that cannot be mapped, its symbol stays in the cache with that address, and switching PAE does not
  change the outcome, whatever the tables say when they are read as the right kind. Strict initialisation
  fails; in the lax mode the NULL page is dereferenced.\<close>

theorem linux_init_retry_stale:
  assumes "empty_caches inst" "os_type inst = XA_OS_LINUX" "linux_kpgd env inst = Some (True, inst1)"
    and "linux_system_map_symbol_to_address env inst1 ''init_task'' = Some (XA_SUCCESS v, inst2)" "v AND NOT 0xFFF \<noteq> 0"
    and "xa_translate_kv2p env inst2 v = Some a" "a \<noteq> 0" "xa_access_ma env inst2 a PROT_READ = None"
  shows "\<exists>inst'. linux_init env inst = (if error_mode inst = XA_FAILSOFT then None else Some (False, inst'))"
proof -
  have "stays empty_caches (linux_kpgd env inst)" unfolding linux_kpgd_def Let_def
    by (intro stays_bind2 [OF empty.system_map [OF assms(1)]] stays_bind2 [OF empty.read_long_phys] stays_if stays_Some) simp_all
  then have e1: "empty_caches inst1" using assms(3) by (rule staysD)
  obtain inst3 where a: "linux_access_kernel_symbol env inst1 ''init_task'' PROT_READ = Some (None, inst3)"
    "stale_symbol env ''init_task'' inst3"
    using unmapped_symbol [OF e1 _ _ assms(4-8)] by auto
  obtain inst4 where b: "linux_access_kernel_symbol env (inst3\<lparr>pae := \<not> pae inst3\<rparr>) ''init_task'' PROT_READ = Some (None, inst4)"
    using stale_symbol_fails [OF a(2)] by blast
  have os1: "os_type inst1 = XA_OS_LINUX" using layout_linux_kpgd [OF assms(3)] assms(2) by (simp add: layout_def)
  then have s1: "xa_access_kernel_sym env inst1 ''init_task'' PROT_READ = Some (None, inst3)"
    using a(1) by (simp add: xa_access_kernel_sym_def)
  have "os_type inst3 = XA_OS_LINUX" using layout_kernel_sym [OF s1] os1 by (simp add: layout_def)
  then have "xa_access_kernel_sym env (inst3\<lparr>pae := \<not> pae inst3\<rparr>) ''init_task'' PROT_READ = Some (None, inst4)"
    using b by (simp add: xa_access_kernel_sym_def)
  from linux_init_without_init_task [OF assms(3) s1 this] show ?thesis by auto
qed

text \<open>Page tables of one large page, and a System.map with the two symbols; only the tables can be mapped.\<close>

definition retry_env :: xa_env where
  "retry_env = (frames_env (\<lambda>f. if f = 0 then Some [0x81, 0, 0, 0] else None))
     \<lparr>fopen_text := (\<lambda>p. Some (concat (map map_line [(0x2000, CHR ''D'', ''swapper_pg_dir''), (0x1000, CHR ''D'', ''init_task'')])))\<rparr>"

definition retry_inst :: xa_instance where
  "retry_inst = std_inst\<lparr>os_type := XA_OS_LINUX, hvm := True, sysmap := Some ''map''\<rparr>"

lemma retry_lookup:
  "sysmap i = Some ''map'' \<Longrightarrow> linux_system_map_symbol_to_address retry_env i ''swapper_pg_dir'' = Some (XA_SUCCESS 0x2000, i)"
  "sysmap i = Some ''map'' \<Longrightarrow> linux_system_map_symbol_to_address retry_env i ''init_task'' = Some (XA_SUCCESS 0x1000, i)"
  by (subst system_map_find [where path = "''map''" and es = "[(0x2000, CHR ''D'', ''swapper_pg_dir''), (0x1000, CHR ''D'', ''init_task'')]"];
      simp add: retry_env_def map_entry_def token_def isspace_def)+

theorem linux_init_retry_stale_witness:
  "\<exists>inst'. linux_init retry_env retry_inst = Some (False, inst')"
proof -
  let ?i = "retry_inst\<lparr>kpgd := 0x2000\<rparr>" and ?e = "frames_env (\<lambda>f. if f = 0 then Some [0x81, 0, 0, 0] else None)"
  have k: "linux_kpgd retry_env retry_inst = Some (True, ?i)"
    using retry_lookup(1) [of retry_inst] by (simp add: linux_kpgd_def out_val_def retry_inst_def)
  have e: "empty_caches retry_inst" "os_type retry_inst = XA_OS_LINUX" "error_mode retry_inst = XA_FAILHARD" "sysmap ?i = Some ''map''"
    by (simp_all add: empty_caches_def retry_inst_def std_inst_def xa_instance_zero_def)
  have t: "xa_translate_kv2p retry_env ?i 0x1000 = Some 0x1000" "xa_access_ma retry_env ?i 0x1000 PROT_READ = None"
    by (subst machine_translate [of _ ?e] machine_access_ma [of _ ?e], simp_all add: retry_env_def, code_simp)+
  from linux_init_retry_stale [OF e(1,2) k retry_lookup(2) [OF e(4)] _ t(1) _ t(2)] e(3) show ?thesis by simp
qed

end
