(* ===== verification/Xa_Conftext.thy ===== *)
theory Xa_Conftext
  imports Xa_Core
begin

text \<open>
  What the configuration parser makes of a file: a file is a sequence of domain blocks, written as
  tokens with white space and comments between them in any layout. The scanner gives back the tokens,
  the parser the entry of the last block with the domain's name.
\<close>

section \<open>The longest match\<close>

lemma longest_first:
  assumes "\<forall>r\<in>set pre. fst r < n" "\<forall>r\<in>set post. fst r \<le> n" "0 < n"
  shows "longest (pre @ (n, x) # post) = (n, x)"
proof -
  let ?f = "\<lambda>b r. if fst b < fst r then r else (b :: nat \<times> conf_token option)"
  have "fst (foldl ?f b pre) < n" if "fst b < n" for b
    using that assms(1) by (induction pre arbitrary: b) auto
  then have "?f (foldl ?f (0, None) pre) (n, x) = (n, x)" using assms(3) by simp
  moreover have "foldl ?f (n, x) post = (n, x)" using assms(2) by (induction post) auto
  ultimately show ?thesis by (simp add: longest_def)
qed

lemma yylex_step:
  assumes "conf_rules s = pre @ (n, x) # post" "\<forall>r\<in>set pre. fst r < n" "\<forall>r\<in>set post. fst r \<le> n" "0 < n" "s \<noteq> []"
  shows "yylex s = (case x of None \<Rightarrow> [] | Some t \<Rightarrow> [t]) @ yylex (drop n s)"
  by (subst yylex.simps) (use assms longest_first [OF assms(2-4), of x] in \<open>simp add: max_def\<close>)

section \<open>Where a name ends\<close>

text \<open>The rest of the input after a name cannot prolong it.\<close>

definition stops :: "string \<Rightarrow> bool" where
  "stops rest \<longleftrightarrow> rest = [] \<or> \<not> file_char (hd rest) \<and> hd rest \<noteq> CHR ''_''"

lemma char_class:
  "conf_alpha c \<Longrightarrow> word_char c" "conf_digit c \<Longrightarrow> word_char c" "conf_hex c \<Longrightarrow> word_char c" "word_char c \<Longrightarrow> file_char c"
  "conf_alpha c \<Longrightarrow> \<not> conf_digit c"
  by (auto simp: word_char_def file_char_def conf_hex_def conf_alpha_def conf_digit_def Let_def)

lemma length_takeWhile_mono: "(\<And>c. P c \<Longrightarrow> Q c) \<Longrightarrow> length (takeWhile P s) \<le> length (takeWhile Q s)"
  by (induction s) auto

lemma takeWhile_stops:
  assumes "\<And>c. P c \<Longrightarrow> file_char c" "stops rest"
  shows "takeWhile P rest = []" "takeWhile P (w @ rest) = takeWhile P w"
proof -
  show e: "takeWhile P rest = []" using assms by (cases rest) (auto simp: stops_def)
  show "takeWhile P (w @ rest) = takeWhile P w"
    using e by (induction w) auto
qed

lemma match_num_le: "match_num s \<le> length (takeWhile word_char s)"
proof -
  have "match_hex s \<le> length (takeWhile word_char s)"
  proof (cases "take 2 s = ''0x''")
    case True
    then obtain t where "s = CHR ''0'' # CHR ''x'' # t" by (metis append_Cons append_Nil append_take_drop_id)
    moreover have "word_char (CHR ''0'')" "word_char (CHR ''x'')" by code_simp+
    ultimately show ?thesis using length_takeWhile_mono [of conf_hex word_char t] char_class(3)
      by (simp add: match_hex_def Let_def)
  qed (simp add: match_hex_def Let_def)
  then show ?thesis using length_takeWhile_mono [of conf_digit word_char s] char_class(2) by (simp add: match_num_def)
qed

lemma match_word_le: "match_word s \<le> length (takeWhile word_char s)"
  by (cases s) (auto simp: match_word_def Let_def char_class)

lemma match_file_stops: "stops rest \<Longrightarrow> match_file (w @ rest) = length (takeWhile file_char w)"
  by (simp add: match_file_def takeWhile_stops)

lemma word_part_stops: "stops rest \<Longrightarrow> length (takeWhile word_char (w @ rest)) = length (takeWhile word_char w)"
  by (simp add: takeWhile_stops char_class)

text \<open>No rule matches more than the name.\<close>

lemma match_le:
  assumes "stops rest"
  shows "match_num (w @ rest) \<le> length w" "match_word (w @ rest) \<le> length w" "match_file (w @ rest) \<le> length w"
  using match_num_le [of "w @ rest"] match_word_le [of "w @ rest"] length_takeWhile_le [of word_char w]
    length_takeWhile_le [of file_char w] match_file_stops [OF assms, of w] word_part_stops [OF assms, of w]
  by linarith+

lemma match_num_alpha: "conf_alpha c \<Longrightarrow> match_num (c # s) = 0"
  by (auto simp: match_num_def match_hex_def conf_alpha_def conf_digit_def Let_def)

text \<open>The rules that start with a character of their own.\<close>

lemma match_other:
  assumes "file_char c"
  shows "match_text [CHR 0x22] (c # s) = 0" "match_text ''{'' (c # s) = 0" "match_text ''}'' (c # s) = 0"
    "match_text '';'' (c # s) = 0" "match_text ''='' (c # s) = 0" "match_text [CHR 0x0A] (c # s) = 0"
    "\<not> blank c" "match_comment (c # s) = 0"
proof -
  have "\<not> file_char d" if "d \<in> set [CHR 0x22, CHR ''{'', CHR ''}'', CHR '';'', CHR ''='', CHR 0x0A, CHR '' '', CHR 0x09, CHR ''#'']" for d
    using that by (auto simp: file_char_def word_char_def conf_alpha_def conf_digit_def)
  then have "c \<noteq> d" if "d \<in> set [CHR 0x22, CHR ''{'', CHR ''}'', CHR '';'', CHR ''='', CHR 0x0A, CHR '' '', CHR 0x09, CHR ''#'']" for d
    using that assms by blast
  then show "match_text [CHR 0x22] (c # s) = 0" "match_text ''{'' (c # s) = 0" "match_text ''}'' (c # s) = 0"
    "match_text '';'' (c # s) = 0" "match_text ''='' (c # s) = 0" "match_text [CHR 0x0A] (c # s) = 0"
    "\<not> blank c" "match_comment (c # s) = 0"
    by (simp_all add: match_text_def match_comment_def blank_def)
qed

section \<open>Keywords\<close>

definition kw_char :: "char \<Rightarrow> bool" where
  "kw_char c \<longleftrightarrow> conf_alpha c \<or> c = CHR ''_''"

lemma keyword_shape:
  assumes "(k, t) \<in> set conf_keywords"
  shows "\<forall>c\<in>set k. kw_char c" "\<exists>c k'. k = c # k' \<and> conf_alpha c"
proof -
  have "\<forall>(k, t) \<in> set conf_keywords. (\<forall>c\<in>set k. kw_char c) \<and> k \<noteq> [] \<and> conf_alpha (hd k)" by code_simp
  then have "(\<forall>c\<in>set k. kw_char c) \<and> k \<noteq> [] \<and> conf_alpha (hd k)" using assms by blast
  then show "\<forall>c\<in>set k. kw_char c" "\<exists>c k'. k = c # k' \<and> conf_alpha c" by (auto simp: neq_Nil_conv)
qed

lemma keywords_prefix_free:
  assumes "(k, t) \<in> set conf_keywords" "(k', t') \<in> set conf_keywords" "take (length k) k' = k"
  shows "k = k'"
proof -
  have "\<forall>(k, t) \<in> set conf_keywords. \<forall>(k', t') \<in> set conf_keywords. take (length k) k' = k \<longrightarrow> k = k'" by code_simp
  then show ?thesis using assms by blast
qed

lemma distinct_keywords: "distinct (map fst conf_keywords)"
  by code_simp

lemma keyword_within:
  assumes "(k, t) \<in> set conf_keywords" "stops rest" "take (length k) (w @ rest) = k"
  shows "take (length k) w = k"
proof (cases "length k \<le> length w")
  case False
  then obtain c r where r: "rest = c # r" using assms(3) by (cases rest) auto
  have "k ! length w = (w @ rest) ! length w" using assms(3) False by (metis nth_take not_le)
  then have "c \<in> set k" using r False by (metis nth_append_length nth_mem not_le)
  then have "kw_char c" using keyword_shape(1) [OF assms(1)] by blast
  then show ?thesis using assms(2) r char_class by (auto simp: stops_def kw_char_def)
qed (use assms(3) in simp)

lemma keyword_short:
  assumes "(k, t) \<in> set conf_keywords" "stops rest" "k \<noteq> w" "w \<noteq> []"
  shows "match_text k (w @ rest) < length w"
proof (cases "take (length k) (w @ rest) = k")
  case True
  from keyword_within [OF assms(1,2) this] have "take (length k) w = k" .
  then have "length k < length w" using assms(3) by (metis linorder_not_less take_all)
  then show ?thesis by (auto simp: match_text_def)
qed (use assms(4) in \<open>simp add: match_text_def\<close>)

lemma keyword_other:
  assumes "(k, t) \<in> set conf_keywords" "(k', t') \<in> set conf_keywords" "stops rest" "k \<noteq> k'"
  shows "match_text k (k' @ rest) = 0"
  using keyword_within [OF assms(1,3)] keywords_prefix_free [OF assms(1,2)] assms(4) by (auto simp: match_text_def)

section \<open>Tokens and gaps\<close>

text \<open>How a token is written, and the strings that a token with a value can have. A file name needs a
  slash: without one the scanner takes it for a word.\<close>

fun tok_text :: "conf_token \<Rightarrow> string" where
  "tok_text (NUM s) = s"
| "tok_text (WORD s) = s"
| "tok_text (FILENAME s) = s"
| "tok_text QUOTE = [CHR 0x22]"
| "tok_text OBRACE = ''{''"
| "tok_text EBRACE = ''}''"
| "tok_text SEMICOLON = '';''"
| "tok_text EQUALS = ''=''"
| "tok_text t = (case List.find (\<lambda>kt. snd kt = t) conf_keywords of Some kt \<Rightarrow> fst kt | None \<Rightarrow> [])"

definition num_text :: "string \<Rightarrow> bool" where
  "num_text s \<longleftrightarrow> s \<noteq> [] \<and> (\<forall>c\<in>set s. conf_digit c) \<or>
     take 2 s = ''0x'' \<and> drop 2 s \<noteq> [] \<and> (\<forall>c\<in>set (drop 2 s). conf_hex c)"

definition word_text :: "string \<Rightarrow> bool" where
  "word_text s \<longleftrightarrow> 2 \<le> length s \<and> conf_alpha (hd s) \<and> (\<forall>c\<in>set s. word_char c) \<and> s \<notin> fst ` set conf_keywords"

definition file_text :: "string \<Rightarrow> bool" where
  "file_text s \<longleftrightarrow> CHR ''/'' \<in> set s \<and> (\<forall>c\<in>set s. file_char c)"

definition punctuation :: "conf_token \<Rightarrow> bool" where
  "punctuation t \<longleftrightarrow> t \<in> {QUOTE, OBRACE, EBRACE, SEMICOLON, EQUALS}"

fun tok_ok :: "conf_token \<Rightarrow> bool" where
  "tok_ok (NUM s) = num_text s"
| "tok_ok (WORD s) = word_text s"
| "tok_ok (FILENAME s) = file_text s"
| "tok_ok t = (punctuation t \<or> t \<in> snd ` set conf_keywords)"

definition key_rules :: "string \<Rightarrow> (nat \<times> conf_token option) list" where
  "key_rules s = map (\<lambda>(k, t). (match_text k s, Some t)) conf_keywords"

definition rest_rules :: "string \<Rightarrow> (nat \<times> conf_token option) list" where
  "rest_rules s = [(match_text [CHR 0x22] s, Some QUOTE), (match_text ''{'' s, Some OBRACE), (match_text ''}'' s, Some EBRACE),
      (match_text '';'' s, Some SEMICOLON), (match_text ''='' s, Some EQUALS),
      (match_text [CHR 0x0A] s, None), (length (takeWhile blank s), None), (match_comment s, None)]"

lemma conf_rules_parts:
  "conf_rules s = key_rules s @ (match_num s, Some (NUM (take (match_num s) s))) #
     (match_word s, Some (WORD (take (match_word s) s))) # (match_file s, Some (FILENAME (take (match_file s) s))) # rest_rules s"
  by (simp add: conf_rules_def key_rules_def rest_rules_def)

lemma rest_rules_name: "w \<noteq> [] \<Longrightarrow> file_char (hd w) \<Longrightarrow> r \<in> set (rest_rules (w @ rest)) \<Longrightarrow> fst r = 0"
  by (cases w) (auto simp: rest_rules_def match_other)

lemma key_rules_name:
  assumes "stops rest" "w \<notin> fst ` set conf_keywords" "w \<noteq> []" "r \<in> set (key_rules (w @ rest))"
  shows "fst r < length w"
proof -
  obtain k t where k: "(k, t) \<in> set conf_keywords" "r = (match_text k (w @ rest), Some t)"
    using assms(4) by (auto simp: key_rules_def)
  then have "k \<noteq> w" using assms(2) by (metis fst_conv image_eqI)
  from keyword_short [OF k(1) assms(1) this assms(3)] show ?thesis by (simp add: k(2))
qed

section \<open>Scanning one token\<close>

lemma yylex_num:
  assumes "num_text w" "stops rest"
  shows "yylex (w @ rest) = NUM w # yylex rest"
proof -
  have d: "\<not> conf_alpha (hd w) \<and> word_char (hd w) \<and> w \<noteq> [] \<and> match_num (w @ rest) = length w"
  proof (cases "take 2 w = ''0x''")
    case True
    then obtain h where h: "w = CHR ''0'' # CHR ''x'' # h" by (metis append_Cons append_Nil append_take_drop_id)
    then have "h \<noteq> []" "\<forall>c\<in>set h. conf_hex c" using assms(1) by (auto simp: num_text_def conf_digit_def)
    then have "match_hex (w @ rest) = length w"
      using takeWhile_stops(2) [of conf_hex rest h] assms(2) char_class by (simp add: match_hex_def h Let_def takeWhile_eq_all_conv [THEN iffD2])
    moreover have "\<not> conf_alpha (CHR ''0'')" "word_char (CHR ''0'')" by code_simp+
    ultimately show ?thesis using match_le(1) [OF assms(2), of w] h by (simp add: match_num_def)
  next
    case False
    then have a: "w \<noteq> []" "\<forall>c\<in>set w. conf_digit c" using assms(1) by (auto simp: num_text_def)
    then have "takeWhile conf_digit (w @ rest) = w"
      using takeWhile_stops(2) [of conf_digit rest w] assms(2) char_class by (simp add: takeWhile_eq_all_conv [THEN iffD2])
    then have "length w \<le> match_num (w @ rest)" by (simp add: match_num_def)
    then have "match_num (w @ rest) = length w" using match_le(1) [OF assms(2), of w] by linarith
    moreover have "conf_digit (hd w)" using a by (cases w) auto
    ultimately show ?thesis using a(1) char_class by auto
  qed
  then have k: "w \<notin> fst ` set conf_keywords" using keyword_shape(2) by fastforce
  have m: "match_word (w @ rest) \<le> length w" "match_file (w @ rest) \<le> length w" using match_le [OF assms(2)] by auto
  show ?thesis
    by (subst yylex_step [OF conf_rules_parts]) (use d m key_rules_name [OF assms(2) k] rest_rules_name [of w] char_class(4) in auto)
qed

lemma yylex_word:
  assumes "word_text w" "stops rest"
  shows "yylex (w @ rest) = WORD w # yylex rest"
proof -
  obtain c v where w: "w = c # v" "v \<noteq> []" "conf_alpha c" "\<forall>c\<in>set w. word_char c" "w \<notin> fst ` set conf_keywords"
    using assms(1) by (cases w; cases "tl w") (auto simp: word_text_def)
  have "takeWhile word_char (v @ rest) = v"
    using takeWhile_stops(2) [of word_char rest v] assms(2) w(1,4) char_class by (simp add: takeWhile_eq_all_conv [THEN iffD2])
  then have "match_word (w @ rest) = length w" using w(1-3) by (simp add: match_word_def)
  moreover have "match_num (w @ rest) = 0" using w(1,3) by (simp add: match_num_alpha)
  moreover have "match_file (w @ rest) \<le> length w" using match_le [OF assms(2)] by auto
  ultimately show ?thesis
    using yylex_step [of "w @ rest" "key_rules (w @ rest) @ [(match_num (w @ rest), Some (NUM (take (match_num (w @ rest)) (w @ rest))))]"]
      conf_rules_parts [of "w @ rest"] key_rules_name [OF assms(2) w(5)] rest_rules_name [of w _ rest] w char_class
    by auto
qed

lemma yylex_file:
  assumes "file_text w" "stops rest"
  shows "yylex (w @ rest) = FILENAME w # yylex rest"
proof -
  have sl: "\<not> word_char (CHR ''/'')" by code_simp
  have w: "w \<noteq> []" "file_char (hd w)" "takeWhile file_char w = w"
    using assms(1) by (cases w; auto simp: file_text_def takeWhile_eq_all_conv)+
  have "length (takeWhile word_char w) \<noteq> length w"
  proof
    assume "length (takeWhile word_char w) = length w"
    then have "takeWhile word_char w = w" by (metis takeWhile_eq_take take_all order_refl)
    then show False using assms(1) sl by (metis file_text_def set_takeWhileD)
  qed
  then have "length (takeWhile word_char w) < length w" using length_takeWhile_le [of word_char w] by linarith
  then have n: "match_num (w @ rest) < length w" "match_word (w @ rest) < length w"
    using match_num_le [of "w @ rest"] match_word_le [of "w @ rest"] word_part_stops [OF assms(2), of w] by linarith+
  have f: "match_file (w @ rest) = length w" using match_file_stops [OF assms(2), of w] by (simp only: w(3))
  have k: "w \<notin> fst ` set conf_keywords"
  proof
    assume "w \<in> fst ` set conf_keywords"
    then obtain t where "(w, t) \<in> set conf_keywords" by auto
    moreover have "\<not> kw_char (CHR ''/'')" by code_simp
    ultimately show False using keyword_shape(1) assms(1) unfolding file_text_def by blast
  qed
  show ?thesis
    using yylex_step [of "w @ rest" "key_rules (w @ rest) @ [(match_num (w @ rest), Some (NUM (take (match_num (w @ rest)) (w @ rest)))),
        (match_word (w @ rest), Some (WORD (take (match_word (w @ rest)) (w @ rest))))]"]
      conf_rules_parts [of "w @ rest"] key_rules_name [OF assms(2) k w(1)] rest_rules_name [OF w(1,2), of _ rest] n f w(1)
    by auto
qed

lemma yylex_keyword:
  assumes "(k, t) \<in> set conf_keywords" "stops rest"
  shows "yylex (k @ rest) = t # yylex rest"
proof -
  obtain c v where k: "k = c # v" "conf_alpha c" using keyword_shape(2) [OF assms(1)] by blast
  obtain pre post where s: "conf_keywords = pre @ (k, t) # post" using assms(1) by (metis split_list)
  let ?m = "\<lambda>(k', t'). (match_text k' (k @ rest), Some t')"
  have d: "k' \<noteq> k" if "(k', t') \<in> set pre \<union> set post" for k' t'
    using distinct_keywords that unfolding s by (auto simp: rev_image_eqI)
  have z: "match_text k' (k @ rest) = 0" if "(k', t') \<in> set pre \<union> set post" for k' t'
    using keyword_other [OF _ assms(1,2), of k' t'] d [OF that] that unfolding s by auto
  have e: "match_text k (k @ rest) = length k" by (simp add: match_text_def)
  have r: "conf_rules (k @ rest) = map ?m pre @ (length k, Some t) # map ?m post @
    (match_num (k @ rest), Some (NUM (take (match_num (k @ rest)) (k @ rest)))) #
    (match_word (k @ rest), Some (WORD (take (match_word (k @ rest)) (k @ rest)))) #
    (match_file (k @ rest), Some (FILENAME (take (match_file (k @ rest)) (k @ rest)))) # rest_rules (k @ rest)"
    unfolding conf_rules_parts key_rules_def s by (simp add: e)
  show ?thesis
    using yylex_step [OF r] z match_le [OF assms(2), of k] rest_rules_name [of k _ rest] k char_class by fastforce
qed

lemma punctuation_rules:
  assumes "c \<in> set [CHR 0x22, CHR ''{'', CHR ''}'', CHR '';'', CHR ''='', CHR 0x0A, CHR '' '', CHR 0x09, CHR ''#'']"
  shows "match_num (c # s) = 0" "match_word (c # s) = 0" "match_file (c # s) = 0" "r \<in> set (key_rules (c # s)) \<Longrightarrow> fst r = 0"
proof -
  have nf: "\<not> file_char c" using assms by (auto simp: file_char_def word_char_def conf_alpha_def conf_digit_def)
  then show "match_file (c # s) = 0" by (simp add: match_file_def)
  have "\<not> word_char c" using nf char_class by blast
  then show "match_num (c # s) = 0" "match_word (c # s) = 0"
    using match_num_le [of "c # s"] match_word_le [of "c # s"] by auto
  assume "r \<in> set (key_rules (c # s))"
  then obtain k t where k: "(k, t) \<in> set conf_keywords" "r = (match_text k (c # s), Some t)" by (auto simp: key_rules_def)
  obtain d v where "k = d # v" "conf_alpha d" using keyword_shape(2) [OF k(1)] by blast
  then show "fst r = 0" using nf char_class by (auto simp: k(2) match_text_def)
qed

lemma yylex_single:
  assumes "c \<in> set [CHR 0x22, CHR ''{'', CHR ''}'', CHR '';'', CHR ''='', CHR 0x0A, CHR '' '', CHR 0x09, CHR ''#'']"
    and "rest_rules (c # s) = pre @ (n, x) # post" "\<forall>r\<in>set pre. fst r = 0" "\<forall>r\<in>set post. fst r = 0" "0 < n"
  shows "yylex (c # s) = (case x of None \<Rightarrow> [] | Some t \<Rightarrow> [t]) @ yylex (drop n (c # s))"
proof -
  note z = punctuation_rules [OF assms(1)]
  have p: "\<forall>r\<in>set (key_rules (c # s) @ [(0, Some (NUM [])), (0, Some (WORD [])), (0, Some (FILENAME []))] @ pre). fst r < n"
    using z(4) assms(3,5) by force
  have r: "conf_rules (c # s) = (key_rules (c # s) @ [(0, Some (NUM [])), (0, Some (WORD [])), (0, Some (FILENAME []))] @ pre)
      @ (n, x) # post"
    by (simp add: conf_rules_parts z assms(2))
  show ?thesis by (rule yylex_step [OF r p]) (use assms(4,5) in auto)
qed

lemma yylex_punctuation:
  assumes "punctuation t"
  shows "yylex (tok_text t @ rest) = t # yylex rest"
proof -
  have "t = QUOTE \<or> t = OBRACE \<or> t = EBRACE \<or> t = SEMICOLON \<or> t = EQUALS" using assms by (simp add: punctuation_def)
  moreover note r = rest_rules_def match_text_def match_comment_def blank_def
  have "yylex (CHR 0x22 # rest) = QUOTE # yylex rest"
    by (subst yylex_single [where pre = "[]" and n = 1]) (auto simp: r)
  moreover have "yylex (CHR ''{'' # rest) = OBRACE # yylex rest"
    by (subst yylex_single [where pre = "[_]" and n = 1]) (auto simp: r)
  moreover have "yylex (CHR ''}'' # rest) = EBRACE # yylex rest"
    by (subst yylex_single [where pre = "[_, _]" and n = 1]) (auto simp: r)
  moreover have "yylex (CHR '';'' # rest) = SEMICOLON # yylex rest"
    by (subst yylex_single [where pre = "[_, _, _]" and n = 1]) (auto simp: r)
  moreover have "yylex (CHR ''='' # rest) = EQUALS # yylex rest"
    by (subst yylex_single [where pre = "[_, _, _, _]" and n = 1]) (auto simp: r)
  ultimately show ?thesis by auto
qed

text \<open>What may stand between tokens: blanks, line ends and comments.\<close>

datatype gap = Blank char | Comment string

fun gap_text :: "gap \<Rightarrow> string" where
  "gap_text (Blank c) = [c]"
| "gap_text (Comment s) = CHR ''#'' # s @ [CHR 0x0A]"

fun gap_ok :: "gap \<Rightarrow> bool" where
  "gap_ok (Blank c) = (blank c \<or> c = CHR 0x0A)"
| "gap_ok (Comment s) = (CHR 0x0A \<notin> set s)"

lemma yylex_newline: "yylex (CHR 0x0A # s) = yylex s"
  by (subst yylex_single [where pre = "[_, _, _, _, _]" and n = 1])
    (auto simp: rest_rules_def match_text_def match_comment_def blank_def)

lemma yylex_blanks: "blank c \<Longrightarrow> yylex (c # s) = yylex (dropWhile blank s)"
  by (subst yylex_single [where pre = "[_, _, _, _, _, _]" and n = "Suc (length (takeWhile blank s))"])
    (auto simp: rest_rules_def match_text_def match_comment_def blank_def dropWhile_eq_drop)

lemma yylex_blank: "blank c \<Longrightarrow> yylex (c # s) = yylex s"
proof -
  assume c: "blank c"
  have "yylex (dropWhile blank s) = yylex s"
  proof (cases s)
    case (Cons d r)
    then show ?thesis using yylex_blanks [of d r] by (cases "blank d") simp_all
  qed simp
  then show ?thesis using yylex_blanks [OF c] by simp
qed

lemma yylex_comment: "CHR 0x0A \<notin> set t \<Longrightarrow> yylex (CHR ''#'' # t @ CHR 0x0A # s) = yylex s"
proof -
  assume "CHR 0x0A \<notin> set t"
  then have "takeWhile (\<lambda>c. c \<noteq> CHR 0x0A) (t @ CHR 0x0A # s) = t" by (auto simp: takeWhile_append)
  then show ?thesis
    by (subst yylex_single [where pre = "[_, _, _, _, _, _, _]" and n = "length t + 2"])
      (auto simp: rest_rules_def match_text_def match_comment_def blank_def)
qed

lemma yylex_gap: "gap_ok g \<Longrightarrow> yylex (gap_text g @ s) = yylex s"
  by (cases g) (auto simp: yylex_newline yylex_blank yylex_comment)

lemma yylex_gaps: "\<forall>g\<in>set gs. gap_ok g \<Longrightarrow> yylex (concat (map gap_text gs) @ s) = yylex s"
  by (induction gs) (auto simp: yylex_gap)

lemma stops_gap: "gap_ok g \<Longrightarrow> stops (gap_text g @ s)"
  by (cases g) (auto simp: stops_def file_char_def word_char_def conf_alpha_def conf_digit_def blank_def)

lemma stops_punctuation: "punctuation t \<Longrightarrow> stops (tok_text t @ s)"
  by (auto simp: punctuation_def stops_def file_char_def word_char_def conf_alpha_def conf_digit_def)

lemma keyword_text: "(k, t) \<in> set conf_keywords \<Longrightarrow> tok_text t = k"
  by (auto simp: conf_keywords_def)

lemma yylex_token:
  assumes "tok_ok t" "punctuation t \<or> stops rest"
  shows "yylex (tok_text t @ rest) = t # yylex rest"
proof (cases "punctuation t")
  case True
  then show ?thesis by (rule yylex_punctuation)
next
  case False
  then have st: "stops rest" using assms(2) by simp
  have kw: "yylex (tok_text t @ rest) = t # yylex rest" if "t \<in> snd ` set conf_keywords"
  proof -
    from that obtain k where k: "(k, t) \<in> set conf_keywords" by auto
    have "tok_text t = k" using k by (rule keyword_text)
    then show ?thesis using yylex_keyword [OF k st] by simp
  qed
  show ?thesis
  proof (cases "t \<in> snd ` set conf_keywords")
    case True
    then show ?thesis by (rule kw)
  next
    case False
    then consider s where "t = NUM s" "num_text s" | s where "t = WORD s" "word_text s" | s where "t = FILENAME s" "file_text s"
      using assms(1) \<open>\<not> punctuation t\<close> by (cases t) simp_all
    then show ?thesis using st by cases (simp_all add: yylex_num yylex_word yylex_file)
  qed
qed

section \<open>Layouts\<close>

text \<open>A layout gives each token with the gap after it; two tokens that are not punctuation need a
  gap between them.\<close>

type_synonym layout = "(conf_token \<times> gap list) list"

definition conf_text :: "gap list \<Rightarrow> layout \<Rightarrow> string" where
  "conf_text gs lay = concat (map gap_text gs) @ concat (map (\<lambda>(t, gs). tok_text t @ concat (map gap_text gs)) lay)"

fun spaced :: "layout \<Rightarrow> bool" where
  "spaced [] = True"
| "spaced ((t, gs) # lay) \<longleftrightarrow> tok_ok t \<and> (\<forall>g\<in>set gs. gap_ok g) \<and>
     (punctuation t \<or> gs \<noteq> [] \<or> lay = [] \<or> punctuation (fst (hd lay))) \<and> spaced lay"

lemma yylex_spaced: "spaced lay \<Longrightarrow> yylex (conf_text [] lay) = map fst lay"
proof (induction lay)
  case Nil
  then show ?case by (simp add: conf_text_def yylex.simps)
next
  case (Cons x lay)
  obtain t gs where x: "x = (t, gs)" by (cases x)
  let ?r = "concat (map gap_text gs) @ conf_text [] lay"
  have p: "tok_ok t" "\<forall>g\<in>set gs. gap_ok g" "spaced lay" using Cons.prems x by simp_all
  have "punctuation t \<or> stops ?r"
  proof (cases gs)
    case Nil
    show ?thesis
    proof (cases lay)
      case (Cons y lay')
      then show ?thesis using Cons.prems x Nil stops_punctuation [of "fst y"]
        by (cases y) (auto simp: conf_text_def)
    qed (simp add: Nil conf_text_def stops_def)
  next
    case (Cons g gs')
    then show ?thesis using p(2) stops_gap [of g] by simp
  qed
  then have "yylex (tok_text t @ ?r) = t # yylex ?r" using p(1) by (rule yylex_token [rotated])
  moreover have "yylex ?r = map fst lay" using yylex_gaps [OF p(2)] Cons.IH p(3) by simp
  ultimately show ?case by (simp add: conf_text_def x)
qed

lemma yylex_conf_text: "\<forall>g\<in>set gs. gap_ok g \<Longrightarrow> spaced lay \<Longrightarrow> yylex (conf_text gs lay) = map fst lay"
  using yylex_gaps [of gs "conf_text [] lay"] yylex_spaced [of lay] by (simp add: conf_text_def)

section \<open>Domain blocks\<close>

datatype setting = Number conf_token string | Sysmap string | Ostype string | Nothing

fun setting_tokens :: "setting \<Rightarrow> conf_token list" where
  "setting_tokens (Number t n) = [t, EQUALS, NUM n, SEMICOLON]"
| "setting_tokens (Sysmap f) = [SYSMAPTOK, EQUALS, QUOTE, FILENAME f, QUOTE, SEMICOLON]"
| "setting_tokens (Ostype w) = [OSTYPETOK, EQUALS, QUOTE, WORD w, QUOTE, SEMICOLON]"
| "setting_tokens Nothing = [SEMICOLON]"

fun setting_ok :: "setting \<Rightarrow> bool" where
  "setting_ok (Number t n) \<longleftrightarrow> conf_slot t \<noteq> None"
| "setting_ok (Sysmap f) \<longleftrightarrow> length f < CONFIG_STR_LENGTH"
| "setting_ok (Ostype w) \<longleftrightarrow> length w < CONFIG_STR_LENGTH"
| "setting_ok Nothing \<longleftrightarrow> True"

fun apply_setting :: "conf_entry \<Rightarrow> setting \<Rightarrow> conf_entry" where
  "apply_setting e (Number t n) = e\<lparr>ce_offsets := (ce_offsets e)[the (conf_slot t) := word_of_int (strtol0 n)]\<rparr>"
| "apply_setting e (Sysmap f) = e\<lparr>ce_sysmap := f\<rparr>"
| "apply_setting e (Ostype w) = e\<lparr>ce_ostype := w\<rparr>"
| "apply_setting e Nothing = e"

type_synonym domain_block = "string \<times> setting list"

definition block_tokens :: "domain_block \<Rightarrow> conf_token list" where
  "block_tokens d = WORD (fst d) # OBRACE # concat (map setting_tokens (snd d)) @ [EBRACE]"

definition block_ok :: "domain_block \<Rightarrow> bool" where
  "block_ok d \<longleftrightarrow> length (fst d) < CONFIG_STR_LENGTH \<and> (\<forall>x\<in>set (snd d). setting_ok x)"

definition block_entry :: "domain_block \<Rightarrow> conf_entry" where
  "block_entry d = (foldl apply_setting conf_zero (snd d))\<lparr>ce_domain_name := fst d\<rparr>"

lemma assignment_setting:
  assumes "setting_ok x"
  shows "\<exists>r. setting_tokens x @ ts = fst r # snd r \<and> fst r \<noteq> EBRACE \<and>
    assignment e (setting_tokens x @ ts) = Some (apply_setting e x, SEMICOLON # ts)"
proof (cases x)
  case (Number t n)
  then obtain i where i: "conf_slot t = Some i" using assms by auto
  then have "t \<noteq> SEMICOLON" "t \<noteq> SYSMAPTOK" "t \<noteq> OSTYPETOK" "t \<noteq> EBRACE" by auto
  then show ?thesis using Number i by (simp add: assignment_def conf_number_def)
qed (use assms in \<open>simp_all add: assignment_def conf_file_def conf_word_def\<close>)

lemma assignments_settings:
  "\<forall>x\<in>set xs. setting_ok x \<Longrightarrow>
    assignments e (concat (map setting_tokens xs) @ ts) = assignments (foldl apply_setting e xs) ts"
proof (induction xs arbitrary: e)
  case (Cons x xs)
  let ?r = "concat (map setting_tokens xs) @ ts"
  have "setting_ok x" using Cons.prems by simp
  from assignment_setting [OF this, of ?r e] obtain t r where
    "setting_tokens x @ ?r = t # r" "t \<noteq> EBRACE" "assignment e (setting_tokens x @ ?r) = Some (apply_setting e x, SEMICOLON # ?r)"
    by auto
  then have "assignments e (setting_tokens x @ ?r) = assignments (apply_setting e x) ?r"
    by (subst assignments.simps) simp
  then show ?case using Cons by simp
qed simp

text \<open>The entry for the domain after a sequence of blocks.\<close>

lemma conf_domains_blocks:
  assumes "\<forall>d\<in>set ds. block_ok d" "length td < CONFIG_STR_LENGTH"
  shows "conf_domains td e (concat (map block_tokens ds) @ ts)
    = conf_domains td (foldl (\<lambda>e d. if fst d = td then block_entry d else e) e ds) ts"
  using assms(1)
proof (induction ds arbitrary: e)
  case (Cons d ds)
  let ?r = "concat (map block_tokens ds) @ ts"
  have d: "length (fst d) < CONFIG_STR_LENGTH" "\<forall>x\<in>set (snd d). setting_ok x" using Cons.prems by (auto simp: block_ok_def)
  have n: "strncmp_eq CONFIG_STR_LENGTH (fst d) td \<longleftrightarrow> fst d = td"
    using d(1) assms(2) by (simp add: strncmp_eq_def)
  have "entry_done td (block_entry d) e = (if fst d = td then block_entry d else e)"
    by (simp add: entry_done_def block_entry_def n)
  moreover have "conf_domains td e (block_tokens d @ ?r) = conf_domains td (entry_done td (block_entry d) e) ?r"
    using d assignments_settings [OF d(2), of conf_zero "EBRACE # ?r"]
    by (subst conf_domains.simps) (simp add: block_tokens_def block_entry_def assignments.simps [of _ "EBRACE # _"])
  ultimately show ?case using Cons by simp
qed simp

lemma foldl_last_find:
  "foldl (\<lambda>e d. if P d then f d else e) e ds = (case List.find P (rev ds) of None \<Rightarrow> e | Some d \<Rightarrow> f d)"
proof (induction ds arbitrary: e rule: rev_induct)
  case (snoc d ds)
  then show ?case by simp
qed simp

lemma parse_config_blocks:
  assumes "\<forall>g\<in>set gs. gap_ok g" "spaced lay" "map fst lay = concat (map block_tokens ds)"
    and "\<forall>d\<in>set ds. block_ok d" "length td < CONFIG_STR_LENGTH"
  shows "xa_parse_config (conf_text gs lay) td = Some (config_of
    (case List.find (\<lambda>d. fst d = td) (rev ds) of None \<Rightarrow> conf_zero | Some d \<Rightarrow> block_entry d))"
proof -
  have "conf_domains td conf_zero (concat (map block_tokens ds)) = Some (foldl (\<lambda>e d. if fst d = td then block_entry d else e) conf_zero ds)"
    using conf_domains_blocks [OF assms(4,5), of conf_zero "[]"] by (simp add: conf_domains.simps)
  then show ?thesis
    unfolding xa_parse_config_def yylex_conf_text [OF assms(1,2)] assms(3) foldl_last_find by simp
qed

section \<open>Properties\<close>

text \<open>(C18) Reading the configuration file: whatever blanks, line ends and comments stand between the
  tokens, a file of domain blocks is accepted, and the entry found for a domain is that of the last block
  with its name, with the strings and numbers assigned there; a domain without a block gets an empty
  entry.\<close>

theorem xa_parse_config_blocks:
  assumes "\<forall>g\<in>set gs. gap_ok g" "spaced lay" "map fst lay = concat (map block_tokens ds)"
    and "\<forall>d\<in>set ds. block_ok d" "length td < CONFIG_STR_LENGTH"
  shows "xa_parse_config (conf_text gs lay) td = Some (config_of
    (case List.find (\<lambda>d. fst d = td) (rev ds) of None \<Rightarrow> conf_zero | Some d \<Rightarrow> block_entry d))"
  using assms by (rule parse_config_blocks)

text \<open>The block of a paravirtualised Linux domain, after a comment.\<close>

definition fc6_block :: domain_block where
  "fc6_block = (''fc6'', [Ostype ''Linux'', Sysmap ''/boot/System.map'', Number LINUX_TASKS ''0x82'', Number LINUX_PID ''192''])"

definition fc6_layout :: layout where
  "fc6_layout = map (\<lambda>t. (t, if t = SEMICOLON then [Blank (CHR 0x0A), Blank (CHR 0x09)]
     else if t = OSTYPETOK \<or> t = EQUALS then [Blank (CHR '' '')] else [])) (block_tokens fc6_block)"

theorem xa_parse_config_blocks_witness:
  "xa_parse_config (conf_text [Comment ''PV linux''] fc6_layout) ''fc6'' = Some
    \<lparr>cfg_sysmap = ''/boot/System.map'', cfg_ostype = ''Linux'',
     cfg_linux = \<lparr>l_tasks_offset = 130, l_mm_offset = 0, l_pid_offset = 192, l_pgd_offset = 0, l_addr_offset = 0\<rparr>,
     cfg_windows = \<lparr>w_ntoskrnl = 130, w_tasks_offset = 0, w_pdbase_offset = 192, w_pid_offset = 0,
       w_peb_offset = 0, w_iba_offset = 0, w_ph_offset = 0\<rparr>\<rparr>"
proof -
  have lay: "map fst fc6_layout = concat (map block_tokens [fc6_block])" by (simp add: fc6_layout_def comp_def)
  have sp: "spaced fc6_layout" by code_simp
  have n: "strtol0 ''0x82'' = 130" "strtol0 ''192'' = 192" by code_simp+
  show ?thesis
    by (subst xa_parse_config_blocks [OF _ sp lay])
      (simp_all add: fc6_block_def block_ok_def block_entry_def config_of_def conf_zero_def n)
qed

text \<open>A System.map file must be named with a slash: a name without one, of letters, digits, points and
  dashes, is a word for the scanner, and a \<open>sysmap\<close> assignment to it makes the parser give up,
  whatever stands before and after it in the file.\<close>

theorem sysmap_needs_slash:
  assumes "\<forall>g\<in>set gs. gap_ok g" "spaced lay"
    and "map fst lay = concat (map block_tokens ds) @ [WORD w, OBRACE] @ concat (map setting_tokens xs)
      @ [SYSMAPTOK, EQUALS, QUOTE, WORD f] @ ts"
    and "\<forall>d\<in>set ds. block_ok d" "\<forall>x\<in>set xs. setting_ok x" "length td < CONFIG_STR_LENGTH"
  shows "xa_parse_config (conf_text gs lay) td = None"
proof -
  let ?s = "[SYSMAPTOK, EQUALS, QUOTE, WORD f] @ ts"
  have "assignments e ?s = None" for e by (simp add: assignments.simps assignment_def conf_file_def)
  then have "assignments conf_zero (concat (map setting_tokens xs) @ ?s) = None" using assignments_settings [OF assms(5)] by simp
  then have "conf_domains td e ([WORD w, OBRACE] @ concat (map setting_tokens xs) @ ?s) = None" for e
    by (subst conf_domains.simps) simp
  then show ?thesis
    unfolding xa_parse_config_def yylex_conf_text [OF assms(1,2)] assms(3) conf_domains_blocks [OF assms(4,6)] by simp
qed

definition plain_layout :: layout where
  "plain_layout = map (\<lambda>t. (t, [])) [WORD ''fc6'', OBRACE, SYSMAPTOK, EQUALS, QUOTE, WORD ''System.map'', QUOTE, SEMICOLON, EBRACE]"

theorem sysmap_needs_slash_witness:
  "xa_parse_config (conf_text [] plain_layout) ''fc6'' = None \<and>
   conf_text [] plain_layout = ''fc6{sysmap='' @ [CHR 0x22] @ ''System.map'' @ [CHR 0x22] @ '';}''"
proof
  have sp: "spaced plain_layout" by code_simp
  show "xa_parse_config (conf_text [] plain_layout) ''fc6'' = None"
    by (rule sysmap_needs_slash [OF _ sp, of _ "[]" "''fc6''" "[]" "''System.map''" "[QUOTE, SEMICOLON, EBRACE]"])
      (simp_all add: plain_layout_def)
  show "conf_text [] plain_layout = ''fc6{sysmap='' @ [CHR 0x22] @ ''System.map'' @ [CHR 0x22] @ '';}''" by code_simp
qed

end
