(* ===== verification/Xa_Confdebug.thy ===== *)
theory Xa_Confdebug
  imports Xa_Conftext
begin

text \<open>
  The input layer of the configuration parser in a build with \<open>XA_DEBUG\<close>: \<open>grammar.y\<close> then
  reads the file line by line into a buffer of its own, prints each line, and hands the scanner single
  characters. The lemmas show that a first parse sees exactly the file, and that a second parse of the same
  process sees nothing, because the end of the first file is remembered.
\<close>

section \<open>The static variables\<close>

text \<open>The variables of \<open>grammar.y\<close>, the part of the file \<open>yyin\<close> that is not read yet, whether
  reading it fails at its end, and what was printed.\<close>

record conf_input =
  ci_eof :: bool
  ci_nRow :: nat
  ci_nBuffer :: nat
  ci_lBuffer :: nat
  ci_nTokenStart :: int
  ci_nTokenLength :: int
  ci_nTokenNextStart :: int
  ci_buffer :: string
  ci_yyin :: string
  ci_error :: bool
  ci_stdout :: string

abbreviation (input) lMaxBuffer :: nat where "lMaxBuffer \<equiv> 1000"

definition conf_input_start :: "string \<Rightarrow> conf_input" where
  "conf_input_start text = \<lparr>ci_eof = False, ci_nRow = 0, ci_nBuffer = 0, ci_lBuffer = 0, ci_nTokenStart = 0,
     ci_nTokenLength = 0, ci_nTokenNextStart = 0, ci_buffer = [], ci_yyin = text, ci_error = False, ci_stdout = []\<rparr>"

text \<open>\<open>fgets\<close> into \<open>n\<close> characters: a line with its end, or as much of it as fits.\<close>

definition fgets :: "nat \<Rightarrow> string \<Rightarrow> (string \<times> string) option" where
  "fgets n s = (if s = [] then None
     else (let l = length (takeWhile (\<lambda>c. c \<noteq> CHR 0x0A) s); k = min (n - 1) (Suc l) in Some (take k s, drop k s)))"

section \<open>Printing\<close>

text \<open>\<open>%6d\<close>\<close>

definition pad6 :: "string \<Rightarrow> string" where
  "pad6 s = replicate (6 - length s) (CHR '' '') @ s"

definition ruler_mark :: "nat \<Rightarrow> char" where
  "ruler_mark i = (if i mod 10 = 0 then CHR '':'' else if i mod 5 = 0 then CHR ''+'' else CHR ''.'')"

definition ruler :: string where
  "ruler = ''       |'' @ concat (map (\<lambda>i. [ruler_mark i, CHR 0x0A]) [1..<71])"

definition DumpRow :: "conf_input \<Rightarrow> conf_input" where
  "DumpRow s = s\<lparr>ci_stdout := ci_stdout s @
     (if ci_nRow s = 0 then ruler
      else pad6 (nat_str (ci_nRow s)) @ '' |'' @ take (ci_lBuffer s) (ci_buffer s))\<rparr>"

definition printError :: "string \<Rightarrow> conf_input \<Rightarrow> conf_input" where
  "printError errorstring s =
     (let start = ci_nTokenStart s; end = start + ci_nTokenLength s - 1; l = int (ci_lBuffer s);
          dots = (\<lambda>n. replicate (nat n) (CHR ''.''))
      in s\<lparr>ci_stdout := ci_stdout s @
        (if ci_eof s then ''...... !'' @ dots l @ ''^-EOF'' @ [CHR 0x0A]
         else ''...... !'' @ dots (start - 1) @ replicate (nat (end - start + 1)) (CHR ''^'') @ dots (l - (end + 1)) @
           ''   token'' @ int_str start @ '':'' @ int_str end @ [CHR 0x0A]) @
        ''Error: '' @ errorstring @ [CHR 0x0A]\<rparr>)"

section \<open>Reading\<close>

definition getNextLine :: "conf_input \<Rightarrow> int \<times> conf_input" where
  "getNextLine s =
     (let s1 = s\<lparr>ci_nBuffer := 0, ci_nTokenStart := -1, ci_nTokenNextStart := 1, ci_eof := False\<rparr>
      in case fgets lMaxBuffer (ci_yyin s) of
           None \<Rightarrow> if ci_error s then (-1, s1) else (1, s1\<lparr>ci_eof := True\<rparr>)
         | Some (line, rest) \<Rightarrow>
             (0, DumpRow (s1\<lparr>ci_buffer := line, ci_yyin := rest, ci_nRow := ci_nRow s + 1,
               ci_lBuffer := length (takeWhile (\<lambda>c. c \<noteq> CHR 0x00) line)\<rparr>)))"

lemma fgets_shorter: "fgets n s = Some (line, rest) \<Longrightarrow> 1 < n \<Longrightarrow> length rest < length s"
  by (auto simp: fgets_def Let_def split: if_split_asm)

lemma DumpRow_fields [simp]: "ci_yyin (DumpRow s) = ci_yyin s" "ci_eof (DumpRow s) = ci_eof s" "ci_error (DumpRow s) = ci_error s"
  "ci_nBuffer (DumpRow s) = ci_nBuffer s" "ci_lBuffer (DumpRow s) = ci_lBuffer s" "ci_buffer (DumpRow s) = ci_buffer s"
  by (simp_all add: DumpRow_def)

lemma getNextLine_shorter: "getNextLine s = (0, s') \<Longrightarrow> length (ci_yyin s') < length (ci_yyin s)"
  by (auto simp: getNextLine_def Let_def dest: fgets_shorter split: option.split_asm if_split_asm)

text \<open>\<open>None\<close> is the result 0, the end of the input. The \<open>debug\<close> message is never printed, since
  nothing sets the variable.\<close>

function GetNextChar :: "conf_input \<Rightarrow> char option \<times> conf_input" where
  "GetNextChar s =
     (if ci_eof s then (None, s)
      else if ci_nBuffer s < ci_lBuffer s
      then (Some (ci_buffer s ! ci_nBuffer s), s\<lparr>ci_nBuffer := ci_nBuffer s + 1\<rparr>)
      else (let (frc, s1) = getNextLine s in if frc \<noteq> 0 then (None, s1) else GetNextChar s1))"
  by pat_completeness auto
termination by (relation "measure (length \<circ> ci_yyin)") (auto dest: getNextLine_shorter [OF sym])

definition BeginToken :: "string \<Rightarrow> conf_input \<Rightarrow> conf_input" where
  "BeginToken t s = s\<lparr>ci_nTokenStart := ci_nTokenNextStart s, ci_nTokenLength := int (length t),
     ci_nTokenNextStart := int (ci_nBuffer s)\<rparr>"

declare GetNextChar.simps [simp del]

section \<open>What is still to be read\<close>

text \<open>The rest of the line and of the file. A line holds no NUL, behind which it would be cut off.\<close>

definition unread :: "conf_input \<Rightarrow> string" where
  "unread s = (if ci_eof s then [] else take (ci_lBuffer s - ci_nBuffer s) (drop (ci_nBuffer s) (ci_buffer s)) @ ci_yyin s)"

definition input_ok :: "conf_input \<Rightarrow> bool" where
  "input_ok s \<longleftrightarrow> ci_lBuffer s \<le> length (ci_buffer s) \<and> CHR 0x00 \<notin> set (ci_yyin s) \<and> \<not> ci_error s"

lemma fgets_split: "fgets n s = Some (line, rest) \<Longrightarrow> s = line @ rest"
  by (auto simp: fgets_def Let_def split: if_split_asm)

lemma takeWhile_free: "c \<notin> set xs \<Longrightarrow> takeWhile (\<lambda>d. d \<noteq> c) xs = xs"
  by (auto simp: takeWhile_eq_all_conv)

lemma getNextLine_ok:
  assumes "input_ok s" "\<not> ci_nBuffer s < ci_lBuffer s" "\<not> ci_eof s"
  obtains (more) s' where "getNextLine s = (0, s')" "input_ok s'" "unread s' = unread s" "\<not> ci_eof s'"
    | (eof) s' where "getNextLine s = (1, s')" "ci_eof s'" "unread s = []"
proof (cases "fgets lMaxBuffer (ci_yyin s)")
  case None
  then have "ci_yyin s = []" by (simp add: fgets_def Let_def split: if_split_asm)
  then have "unread s = []" using assms(2,3) by (simp add: unread_def)
  moreover have "getNextLine s = (1, s\<lparr>ci_nBuffer := 0, ci_nTokenStart := -1, ci_nTokenNextStart := 1, ci_eof := True\<rparr>)"
    using None assms(1) by (simp add: getNextLine_def input_ok_def)
  ultimately show thesis using eof by simp
next
  case (Some p)
  obtain line rest where p: "p = (line, rest)" by (cases p)
  then have y: "ci_yyin s = line @ rest" using Some fgets_split by simp
  then have l: "takeWhile (\<lambda>c. c \<noteq> CHR 0x00) line = line" using assms(1) by (intro takeWhile_free) (simp add: input_ok_def)
  obtain s' where "getNextLine s = (0, s')" "ci_nBuffer s' = 0" "ci_lBuffer s' = length line" "ci_buffer s' = line"
    "ci_yyin s' = rest" "\<not> ci_eof s'" "ci_error s' = ci_error s"
    using Some p l by (simp add: getNextLine_def Let_def)
  then show thesis using assms y by (intro more [of s']) (simp_all add: unread_def input_ok_def)
qed

lemma take_drop_Cons:
  assumes "n < l" "l \<le> length xs"
  shows "take (l - n) (drop n xs) = xs ! n # take (l - Suc n) (drop (Suc n) xs)"
proof -
  have "drop n xs = xs ! n # drop (Suc n) xs" using assms by (simp add: Cons_nth_drop_Suc)
  moreover have "l - n = Suc (l - Suc n)" using assms by simp
  ultimately show ?thesis by simp
qed

lemma GetNextChar_unread:
  assumes "input_ok s"
  shows "case unread s of
      [] \<Rightarrow> \<exists>s'. GetNextChar s = (None, s') \<and> ci_eof s'
    | c # cs \<Rightarrow> \<exists>s'. GetNextChar s = (Some c, s') \<and> input_ok s' \<and> unread s' = cs \<and> \<not> ci_eof s'"
  using assms
proof (induction s rule: GetNextChar.induct)
  case step: (1 s)
  show ?case
  proof (cases "ci_eof s")
    case True
    then show ?thesis by (simp add: unread_def GetNextChar.simps)
  next
    case False
    show ?thesis
    proof (cases "ci_nBuffer s < ci_lBuffer s")
      case True
      then show ?thesis using step.prems \<open>\<not> ci_eof s\<close>
        by (simp add: GetNextChar.simps [of s] unread_def input_ok_def take_drop_Cons)
    next
      case full: False
      show ?thesis
      proof (cases rule: getNextLine_ok [OF step.prems full False])
        case (1 s')
        then have "GetNextChar s = GetNextChar s'" using full False by (simp add: GetNextChar.simps [of s])
        then show ?thesis using step.IH [OF False full 1(1) [symmetric] refl, simplified, OF 1(2)] 1(3) by (simp split: list.split_asm list.split)
      next
        case (2 s')
        then have "GetNextChar s = (None, s')" using full False by (simp add: GetNextChar.simps [of s])
        then show ?thesis using 2 by simp
      qed
    qed
  qed
qed

text \<open>Noting where a token starts does not move the input.\<close>

lemma BeginToken_unread: "unread (BeginToken t s) = unread s" "input_ok (BeginToken t s) = input_ok s"
  by (simp_all add: BeginToken_def unread_def input_ok_def)

section \<open>Parsing\<close>

text \<open>The characters that \<open>YY_INPUT\<close> hands to the scanner up to the end of the input.\<close>

lemma GetNextChar_decreases:
  "GetNextChar s = (Some c, s') \<Longrightarrow>
    length (ci_yyin s') + (ci_lBuffer s' - ci_nBuffer s') < length (ci_yyin s) + (ci_lBuffer s - ci_nBuffer s)"
proof (induction s rule: GetNextChar.induct)
  case step: (1 s)
  have eof: "\<not> ci_eof s" using step.prems by (auto simp: GetNextChar.simps [of s])
  show ?case
  proof (cases "ci_nBuffer s < ci_lBuffer s")
    case True
    then show ?thesis using step.prems eof by (auto simp: GetNextChar.simps [of s])
  next
    case False
    obtain s1 where g: "getNextLine s = (0, s1)" "GetNextChar s1 = (Some c, s')"
      using step.prems eof False by (cases "getNextLine s") (auto simp: GetNextChar.simps [of s] split: if_split_asm)
    obtain line rest where f: "fgets lMaxBuffer (ci_yyin s) = Some (line, rest)" "ci_yyin s1 = rest" "ci_nBuffer s1 = 0"
      "ci_lBuffer s1 = length (takeWhile (\<lambda>c. c \<noteq> CHR 0x00) line)"
      using g(1) by (auto simp: getNextLine_def Let_def split: option.split_asm if_split_asm)
    have "ci_lBuffer s1 \<le> length line" unfolding f(4) by (rule length_takeWhile_le)
    then have "length (ci_yyin s1) + (ci_lBuffer s1 - ci_nBuffer s1) \<le> length (ci_yyin s)"
      using fgets_split [OF f(1)] f(2,3) by simp
    then show ?thesis using step.IH [OF eof False g(1) [symmetric] refl] g(2) by simp
  qed
qed

function input_chars :: "conf_input \<Rightarrow> string \<times> conf_input" where
  "input_chars s = (case GetNextChar s of
       (None, s1) \<Rightarrow> ([], s1)
     | (Some c, s1) \<Rightarrow> (let (cs, s2) = input_chars s1 in (c # cs, s2)))"
  by pat_completeness auto
termination
  by (relation "measure (\<lambda>s. length (ci_yyin s) + (ci_lBuffer s - ci_nBuffer s))") (auto dest: GetNextChar_decreases [OF sym])

declare input_chars.simps [simp del]

lemma input_chars_unread: "input_ok s \<Longrightarrow> \<exists>s'. input_chars s = (unread s, s') \<and> ci_eof s'"
proof (induction s rule: input_chars.induct)
  case (1 s)
  show ?case
  proof (cases "unread s")
    case Nil
    then show ?thesis using GetNextChar_unread [OF "1.prems"] by (auto simp: input_chars.simps [of s])
  next
    case (Cons c cs)
    then obtain s1 where s1: "GetNextChar s = (Some c, s1)" "input_ok s1" "unread s1 = cs"
      using GetNextChar_unread [OF "1.prems"] by auto
    then show ?thesis using "1.IH" [OF s1(1) [symmetric] refl s1(2)] Cons by (auto simp: input_chars.simps [of s])
  qed
qed

text \<open>A parse with this input; \<open>None\<close> when \<open>yyparse\<close> reports an error, in which case it stops
  before the end.\<close>

definition xa_parse_config_debug :: "conf_input \<Rightarrow> string \<Rightarrow> (xa_config_entry \<times> conf_input) option" where
  "xa_parse_config_debug s td = (let (conf, s1) = input_chars s in map_option (\<lambda>e. (e, s1)) (xa_parse_config conf td))"

text \<open>The first parse of a process gives what a build without \<open>XA_DEBUG\<close> gives. A second one reads
  nothing of its file and gives the empty entry, whatever the file and the domain: the variable
  \<open>eof\<close> is still set, and \<open>getNextLine\<close>, which would clear it, is not called.\<close>

theorem debug_first_parse:
  assumes "CHR 0x00 \<notin> set text"
  shows "map_option fst (xa_parse_config_debug (conf_input_start text) td) = xa_parse_config text td"
proof -
  have "input_ok (conf_input_start text)" "unread (conf_input_start text) = text"
    using assms by (simp_all add: input_ok_def conf_input_start_def unread_def)
  then obtain s' where "input_chars (conf_input_start text) = (text, s')" using input_chars_unread by metis
  then show ?thesis by (simp add: xa_parse_config_debug_def option.map_comp comp_def option.map_ident)
qed

theorem debug_second_parse_empty:
  assumes "CHR 0x00 \<notin> set text" "xa_parse_config_debug (conf_input_start text) td = Some (e, s)"
  shows "map_option fst (xa_parse_config_debug (s\<lparr>ci_yyin := text'\<rparr>) td') = Some (config_of conf_zero)"
proof -
  have "input_ok (conf_input_start text)" using assms(1) by (simp add: input_ok_def conf_input_start_def)
  then have "ci_eof s" using input_chars_unread assms(2) by (fastforce simp: xa_parse_config_debug_def)
  then have "input_chars (s\<lparr>ci_yyin := text'\<rparr>) = ([], s\<lparr>ci_yyin := text'\<rparr>)"
    by (simp add: input_chars.simps GetNextChar.simps)
  moreover have "xa_parse_config [] td' = Some (config_of conf_zero)"
    by (simp add: xa_parse_config_def yylex.simps conf_domains.simps)
  ultimately show ?thesis by (simp add: xa_parse_config_debug_def)
qed

end
