(* ===== verification/Xa_P2m.thy ===== *)
theory Xa_P2m
  imports Xa_Frame
begin

text \<open>
  The table that maps the frames of a paravirtualised guest to machine frames
  (\<open>helper_pfn_to_mfn\<close> of \<open>xa_memory.c\<close>). The specification
  \<open>p2m_walk\<close> follows the three levels that Xen keeps in the guest's own memory; the code
  maps the second and third level as two flat arrays and keeps the last. The lemmas show that the
  flat array answers as the walk does, and that keeping it does not show: an access to physical
  memory answers the same before and after the table has been loaded.
\<close>

section \<open>Arrays of words over mapped pages\<close>

lemma rd_drop: "k \<le> length bs \<Longrightarrow> rd n (drop k bs) off = rd n bs (k + off)"
  by (auto simp: rd_def add.commute)

lemma rd_words_nth:
  "rd_words bs n = Some ws \<Longrightarrow> length ws = n \<and> (\<forall>i<n. rd32 bs (4 * i) = Some (ws ! i))"
proof (induction bs n arbitrary: ws rule: rd_words.induct)
  case (1 bs)
  then show ?case by simp
next
  case (2 bs n)
  from "2.prems" obtain w vs where w: "rd32 bs 0 = Some w" "rd_words (drop 4 bs) n = Some vs" "ws = w # vs"
    by (auto split: Option.bind_split_asm)
  note ih = "2.IH" [OF w(1,2)]
  have "rd32 bs (4 * i) = Some (ws ! i)" if "i < Suc n" for i
  proof (cases i)
    case 0
    then show ?thesis using w by simp
  next
    case (Suc j)
    have "rd32 (drop 4 bs) (4 * j) = Some (vs ! j)" using ih that Suc by simp
    moreover have "4 \<le> length bs" using w(1) by (simp add: rd_def split: if_split_asm)
    ultimately show ?thesis using Suc w(3) by (simp add: rd_drop)
  qed
  then show ?case using ih w(3) by simp
qed

lemma rd32_concat:
  assumes "\<forall>p\<in>set ps. length p = 4096" "k < length ps" "j < 1024"
  shows "rd32 (concat ps) (4 * (1024 * k + j)) = rd32 (ps ! k) (4 * j)"
  using assms
proof (induction ps arbitrary: k)
  case Nil
  then show ?case by simp
next
  case (Cons p ps)
  have p: "length p = 4096" using Cons.prems(1) by simp
  show ?case
  proof (cases k)
    case 0
    have "4 * j + 4 \<le> 4096" using Cons.prems(3) by simp
    then show ?thesis using 0 p by (simp add: rd_def)
  next
    case (Suc l)
    have "rd32 (concat ps) (4 * (1024 * l + j)) = rd32 (ps ! l) (4 * j)"
      using Cons.IH Cons.prems Suc by simp
    moreover have "rd32 (p @ concat ps) (4096 + (4 * (1024 * l + j))) = rd32 (concat ps) (4 * (1024 * l + j))"
      using p by (simp add: rd_def)
    ultimately show ?thesis using Suc by (simp add: algebra_simps)
  qed
qed

section \<open>The three levels\<close>

text \<open>What libxc documents of \<open>xc_map_foreign_batch\<close>: it maps the frames of the array one
  after the other.\<close>

definition batch_maps :: "xa_env \<Rightarrow> u32 \<Rightarrow> bool" where
  "batch_maps env d \<longleftrightarrow> (\<forall>fs bs. xc_map_foreign_batch env d fs = Some bs \<longrightarrow>
     (\<exists>ps. map (xc_map_foreign_range env d) fs = map Some ps \<and> bs = concat ps \<and> (\<forall>p\<in>set ps. length p = 4096)))"

definition p2m_walk :: "xa_env \<Rightarrow> u32 \<Rightarrow> u32 \<Rightarrow> nat \<Rightarrow> u32 option" where
  "p2m_walk env d root pfn = do {
     t \<leftarrow> xc_map_foreign_range env d root;
     l1 \<leftarrow> rd32 t (4 * (pfn div 2 ^ 20));
     p \<leftarrow> xc_map_foreign_range env d l1;
     l2 \<leftarrow> rd32 p (4 * (pfn div 2 ^ 10 mod 2 ^ 10));
     q \<leftarrow> xc_map_foreign_range env d l2;
     rd32 q (4 * (pfn mod 2 ^ 10)) }"

lemma batch_maps_nth:
  assumes "batch_maps env d" "xc_map_foreign_batch env d fs = Some bs" "i < 1024 * length fs"
  shows "\<exists>p. xc_map_foreign_range env d (fs ! (i div 1024)) = Some p \<and> rd32 bs (4 * i) = rd32 p (4 * (i mod 1024))"
proof -
  obtain ps where ps: "map (xc_map_foreign_range env d) fs = map Some ps" "bs = concat ps" "\<forall>p\<in>set ps. length p = 4096"
    using assms(1,2) unfolding batch_maps_def by blast
  have len: "length ps = length fs" using ps(1) map_eq_imp_length_eq by metis
  have k: "i div 1024 < length ps" using assms(3) len by (simp add: less_mult_imp_div_less mult.commute)
  have "xc_map_foreign_range env d (fs ! (i div 1024)) = Some (ps ! (i div 1024))"
    using arg_cong [OF ps(1), of "\<lambda>l. l ! (i div 1024)"] k len by simp
  moreover have "rd32 bs (4 * i) = rd32 (ps ! (i div 1024)) (4 * (i mod 1024))"
    using rd32_concat [OF ps(3) k, of "i mod 1024"] ps(2) by (simp add: mult_div_mod_eq)
  ultimately show ?thesis by blast
qed

lemma div_less_ceil:
  assumes "(k :: nat) < n" "0 < d"
  shows "k div d < (n + d - 1) div d"
proof -
  have "(k + d) div d \<le> (n + d - 1) div d" using assms by (intro div_le_mono) simp
  moreover have "(k + d) div d = Suc (k div d)" using assms(2) by (simp add: div_add_self2)
  ultimately show ?thesis by (simp only: Suc_le_eq)
qed

lemma ceil_div_unat:
  assumes "unat (nr :: u32) + 2 ^ 20 \<le> 2 ^ 32"
  shows "unat ((nr + fpp * fpp - 1) div (fpp * fpp)) = (unat nr + 2 ^ 20 - 1) div 2 ^ 20"
    and "unat ((nr + fpp - 1) div fpp) = (unat nr + 2 ^ 10 - 1) div 2 ^ 10"
proof -
  have "nr + fpp * fpp - 1 = 0xFFFFF + nr" "nr + fpp - 1 = 0x3FF + nr" by simp_all
  moreover have "unat (0xFFFFF + nr) = 0xFFFFF + unat nr" "unat (0x3FF + nr) = 0x3FF + unat nr"
    using assms by (simp_all add: unat_word_ariths)
  ultimately show "unat ((nr + fpp * fpp - 1) div (fpp * fpp)) = (unat nr + 2 ^ 20 - 1) div 2 ^ 20"
    "unat ((nr + fpp - 1) div fpp) = (unat nr + 2 ^ 10 - 1) div 2 ^ 10"
    by (simp_all add: unat_div)
qed

lemma load_p2m_table_walk:
  assumes "load_p2m_table env inst = Some (XA_SUCCESS (tbl, nr))" "mode inst = XA_MODE_XEN"
    and "batch_maps env (domain_id (m_xen inst))" "unat nr + 2 ^ 20 \<le> 2 ^ 32" "pfn < unat nr"
    and "xa_mmap_mfn env inst PROT_READ (shared_info_frame (m_xen inst)) = Some shinfo"
  shows "rd32 tbl (4 * pfn) =
    p2m_walk env (domain_id (m_xen inst)) (shinfo_frame_list_list env (map_bytes shinfo)) pfn"
proof -
  let ?d = "domain_id (m_xen inst)"
  obtain t fl ms1 ms2 where t: "xc_map_foreign_range env ?d (shinfo_frame_list_list env (map_bytes shinfo)) = Some t"
    and m1: "rd_words t (unat ((nr + fpp * fpp - 1) div (fpp * fpp))) = Some ms1"
    and fl: "xc_map_foreign_batch env ?d ms1 = Some fl"
    and m2: "rd_words fl (unat ((nr + fpp - 1) div fpp)) = Some ms2"
    and tbl: "xc_map_foreign_batch env ?d ms2 = Some tbl"
    using assms(1,2,6)
    by (auto simp: load_p2m_table_def Let_def xa_mmap_mfn_def xa_map_page_def map_page_of_def
        split: option.split_asm Option.bind_split_asm)
  note c = ceil_div_unat [OF assms(4)]
  note w1 = rd_words_nth [OF m1] and w2 = rd_words_nth [OF m2]
  have l1: "length ms1 = (unat nr + 2 ^ 20 - 1) div 2 ^ 20" using w1 c(1) by simp
  have l2: "length ms2 = (unat nr + 2 ^ 10 - 1) div 2 ^ 10" using w2 c(2) by simp
  have k2: "pfn div 2 ^ 10 < length ms2" and k1: "pfn div 2 ^ 20 < length ms1"
    unfolding l1 l2 by (rule div_less_ceil [OF assms(5)], simp)+
  have b2: "pfn < 1024 * length ms2" using k2 by simp
  have b1: "pfn div 2 ^ 10 < 1024 * length ms1" using k1 by simp
  obtain q where q: "xc_map_foreign_range env ?d (ms2 ! (pfn div 1024)) = Some q"
    "rd32 tbl (4 * pfn) = rd32 q (4 * (pfn mod 1024))"
    using batch_maps_nth [OF assms(3) tbl b2] by blast
  obtain p where p: "xc_map_foreign_range env ?d (ms1 ! (pfn div 2 ^ 10 div 1024)) = Some p"
    "rd32 fl (4 * (pfn div 2 ^ 10)) = rd32 p (4 * (pfn div 2 ^ 10 mod 1024))"
    using batch_maps_nth [OF assms(3) fl b1] by blast
  have "rd32 p (4 * (pfn div 2 ^ 10 mod 1024)) = Some (ms2 ! (pfn div 2 ^ 10))" using w2 k2 p(2) by simp
  moreover have "rd32 t (4 * (pfn div 2 ^ 20)) = Some (ms1 ! (pfn div 2 ^ 20))" using w1 k1 by simp
  moreover have "pfn div 2 ^ 10 div 1024 = pfn div 2 ^ 20" by (simp add: div_mult2_eq [symmetric])
  ultimately show ?thesis using t p q by (simp add: p2m_walk_def)
qed

section \<open>Keeping the table does not show\<close>

text \<open>Two instances that agree but for the table that has been loaded.\<close>

definition same_frames :: "xa_env \<Rightarrow> xa_instance \<Rightarrow> xa_instance \<Rightarrow> bool" where
  "same_frames env inst inst' \<longleftrightarrow> inst' = inst \<or>
     (\<exists>tbl nr. live_pfn_to_mfn_table (m_xen inst) = None \<and> load_p2m_table env inst = Some (XA_SUCCESS (tbl, nr)) \<and>
        inst' = inst\<lparr>m_xen := (m_xen inst)\<lparr>live_pfn_to_mfn_table := Some tbl, nr_pfns := nr\<rparr>\<rparr>)"

lemma same_frames_refl [simp]: "same_frames env inst inst"
  by (simp add: same_frames_def)

lemma same_frames_pfn:
  "same_frames env inst inst' \<Longrightarrow>
    map_option fst (helper_pfn_to_mfn env inst' pfn) = map_option fst (helper_pfn_to_mfn env inst pfn)"
  by (auto simp: same_frames_def helper_pfn_to_mfn_def split: Option.bind_split)

lemma same_frames_step:
  assumes "helper_pfn_to_mfn env inst pfn = Some (mfn, inst')"
  shows "same_frames env inst inst'"
  using assms
  by (auto simp: same_frames_def helper_pfn_to_mfn_def
      split: if_split_asm option.split_asm Option.bind_split_asm xa_ret.split_asm)

lemma same_frames_map: "same_frames env inst inst' \<Longrightarrow> xa_map_page env inst' prot f = xa_map_page env inst prot f"
  by (auto simp: same_frames_def xa_map_page_def xa_map_file_range_def)

lemma same_frames_fields: "same_frames env inst inst' \<Longrightarrow> mode inst' = mode inst \<and> page_size inst' = page_size inst \<and>
    page_shift inst' = page_shift inst \<and> xen_size (m_xen inst') = xen_size (m_xen inst)"
  by (auto simp: same_frames_def)

lemma same_frames_trans:
  assumes "same_frames env inst inst1" "same_frames env inst1 inst2"
  shows "same_frames env inst inst2"
  using assms by (auto simp: same_frames_def)

lemma access_pa_same_frames:
  assumes "xa_access_pa env inst a prot = Some (r, inst')"
  shows "same_frames env inst inst'"
  using assms same_frames_step
  by (auto simp: xa_access_pa_def xa_mmap_pfn_def Let_def
      split: Option.bind_split_asm if_split_asm)

lemma same_frames_access_pa:
  assumes "same_frames env inst inst'"
  shows "map_option fst (xa_access_pa env inst' a prot) = map_option fst (xa_access_pa env inst a prot)"
proof -
  note f = same_frames_fields [OF assms]
  have "map_option fst (xa_mmap_pfn env inst' prot pfn) = map_option fst (xa_mmap_pfn env inst prot pfn)" for pfn
  proof (cases "mode inst = XA_MODE_XEN")
    case True
    have n: "same_frames env inst i2 \<and> same_frames env inst i1" 
      if "helper_pfn_to_mfn env inst pfn = Some (m, i1)" "helper_pfn_to_mfn env inst' pfn = Some (m', i2)" for m m' i1 i2
      using that same_frames_step same_frames_trans [OF assms] by blast
    show ?thesis using same_frames_pfn [OF assms, of pfn] True f n
      by (cases "helper_pfn_to_mfn env inst pfn"; cases "helper_pfn_to_mfn env inst' pfn")
        (auto simp: xa_mmap_pfn_def same_frames_map)
  next
    case False
    then show ?thesis using f same_frames_map [OF assms] by (auto simp: xa_mmap_pfn_def)
  qed
  from this [of "drop_bit (unat (page_shift inst)) a"] show ?thesis using f
    by (cases "xa_mmap_pfn env inst prot (drop_bit (unat (page_shift inst)) a)";
        cases "xa_mmap_pfn env inst' prot (drop_bit (unat (page_shift inst)) a)")
      (auto simp: xa_access_pa_def)
qed

section \<open>Properties\<close>


text \<open>Every frame of this guest holds the number of the next frame.\<close>

definition chain_page :: "u32 \<Rightarrow> u8 list" where
  "chain_page f = le_bytes 4 (f + 1) @ replicate 4092 0"

definition chain_env :: xa_env where
  "chain_env = (frames_env (\<lambda>f. Some (chain_page f)))\<lparr>xc_map_foreign_batch := (\<lambda>d fs. Some (concat (map chain_page fs))),
     shinfo_max_pfn := (\<lambda>b. 1), shinfo_frame_list_list := (\<lambda>b. 2)\<rparr>"

lemma chain_page [simp]: "length (chain_page f) = 4096" "rd32 (chain_page f) 0 = Some (f + 1)"
  using rd_append_exact [of "[]" 0 "le_bytes 4 (f + 1)" 4 "replicate 4092 0", where ?'a = 32] by (simp_all add: chain_page_def)

lemma rd_words_chain [simp]: "rd_words (chain_page f) (Suc 0) = Some [f + 1]"
  by simp

lemma chain_batch: "batch_maps chain_env d"
proof -
  have "\<exists>ps. map (\<lambda>f. Some (chain_page f)) fs = map Some ps \<and> concat (map chain_page fs) = concat ps \<and>
      (\<forall>p\<in>set ps. length p = 4096)" for fs
    by (rule exI [of _ "map chain_page fs"]) simp
  then show ?thesis by (simp add: batch_maps_def chain_env_def frames_env_def)
qed

lemma chain_load:
  "xa_mmap_mfn chain_env std_inst PROT_READ (shared_info_frame (m_xen std_inst)) = Some (map_page_of PROT_READ (chain_page 0))"
  "load_p2m_table chain_env std_inst = Some (XA_SUCCESS (chain_page 4, 1))"
  "helper_pfn_to_mfn chain_env std_inst 0 = Some (5, std_inst\<lparr>m_xen := (m_xen std_inst)
     \<lparr>live_pfn_to_mfn_table := Some (chain_page 4), nr_pfns := 1\<rparr>\<rparr>)"
  by (simp_all add: chain_env_def frames_env_def std_inst_def xa_instance_zero_def xa_mmap_mfn_def xa_map_page_def
      map_page_of_def load_p2m_table_def helper_pfn_to_mfn_def ceil_div_unat)


end
