(* ===== verification/Xa_Exports.thy ===== *)
theory Xa_Exports
  imports Xa_Pe Xa_Pagetable
begin

text \<open>
  What \<open>windows_export_to_rva\<close> finds: on a fully virtualised guest, where a frame number
  needs no translation, the functions of \<open>windows_peparse.c\<close> read the export table as it
  lies in memory, but a name matches when it is a prefix of the symbol.
\<close>

section \<open>Physical memory of a fully virtualised guest\<close>

lemma pfn_not_minus_one: "drop_bit 12 (a :: u32) \<noteq> -1"
proof
  assume "drop_bit 12 a = -1"
  then have "bit (drop_bit 12 a) 31" by simp
  then have "bit a 43" by (simp add: bit_drop_bit_eq)
  then show False using bit_imp_le_length [of a 43] by simp
qed

lemma hvm_access_pa:
  assumes "plain_inst inst" "hvm inst"
  shows "xa_access_pa env inst a prot = Some (xa_access_ma env inst a prot, inst)"
  using assms pfn_not_minus_one [of a]
  by (simp add: xa_access_pa_def xa_access_ma_def xa_mmap_pfn_def xa_mmap_mfn_def helper_pfn_to_mfn_def
      plain_inst_def std_pages_def)

lemma hvm_read_long_phys:
  assumes "plain_inst inst" "hvm inst" "xa_read_long_mach env inst a = Some r"
  shows "xa_read_long_phys env inst a = Some (r, inst)" "read_phys env inst a d = Some (out_val d r, inst)"
proof -
  show "xa_read_long_phys env inst a = Some (r, inst)"
    using assms(3) by (auto simp: xa_read_long_phys_def hvm_access_pa [OF assms(1,2)] xa_read_long_mach_def
        split: option.splits Option.bind_split_asm)
  then show "read_phys env inst a d = Some (out_val d r, inst)" by (simp add: read_phys_def)
qed

section \<open>Exports in memory\<close>

text \<open>Entry \<open>i\<close> of the name table is \<open>s\<close>; entry \<open>i\<close> of the ordinal
  table leads to the function at \<open>rva\<close>.\<close>

definition name_at :: "xa_env \<Rightarrow> xa_instance \<Rightarrow> export_table \<Rightarrow> u32 \<Rightarrow> string \<Rightarrow> bool" where
  "name_at env inst et i s \<longleftrightarrow> (\<exists>p. p \<noteq> 0 \<and>
     read_phys env inst (w_ntoskrnl (windows_inst inst) + et_address_of_names et + i * 4) 0 = Some (p, inst) \<and>
     rva_to_string env inst p = Some (Some s, inst))"

definition function_at :: "xa_env \<Rightarrow> xa_instance \<Rightarrow> export_table \<Rightarrow> u32 \<Rightarrow> u32 \<Rightarrow> bool" where
  "function_at env inst et i rva \<longleftrightarrow> (\<exists>j.
     xa_read_long_phys env inst (w_ntoskrnl (windows_inst inst) + et_address_of_name_ordinals et + i * 2)
       = Some (XA_SUCCESS j, inst) \<and>
     xa_read_long_phys env inst (w_ntoskrnl (windows_inst inst) + et_address_of_functions et + (j AND 0xFFFF) * 4)
       = Some (XA_SUCCESS rva, inst))"

definition matches :: "string \<Rightarrow> string \<Rightarrow> bool" where
  "matches symbol s \<longleftrightarrow> take (length s) symbol = s"

lemma strncmp_matches: "strncmp_eq (length s) s symbol \<longleftrightarrow> matches symbol s"
  by (auto simp: strncmp_eq_def matches_def)

lemma find_upt_Cons:
  "List.find (\<lambda>k. P ((s # names) ! k)) [0..<length (s # names)]
    = (if P s then Some 0 else map_option Suc (List.find (\<lambda>k. P (names ! k)) [0..<length names]))"
proof -
  have u: "[0..<length (s # names)] = 0 # map Suc [0..<length names]" by (simp add: upt_conv_Cons map_Suc_upt del: upt_Suc)
  have "List.find Q (map Suc xs) = map_option Suc (List.find (\<lambda>x. Q (Suc x)) xs)" for Q xs
    by (induction xs) auto
  then show ?thesis unfolding u find.simps by simp
qed

lemma aon_loop_find:
  assumes "\<forall>k<length names. name_at env inst et (i + of_nat k) (names ! k)"
  shows "aon_loop env symbol et (length names) i inst = Some (
    case List.find (\<lambda>k. matches symbol (names ! k)) [0..<length names] of
      None \<Rightarrow> -1 | Some k \<Rightarrow> i + of_nat k, inst)"
  using assms
proof (induction names arbitrary: i)
  case (Cons s names)
  have s: "name_at env inst et i s" using Cons.prems by force
  have tl: "\<forall>k<length names. name_at env inst et (i + 1 + of_nat k) (names ! k)"
  proof (intro allI impI)
    fix k assume "k < length names"
    then show "name_at env inst et (i + 1 + of_nat k) (names ! k)"
      using Cons.prems [rule_format, of "Suc k"] by (simp add: algebra_simps)
  qed
  obtain p where p: "p \<noteq> 0"
    "read_phys env inst (w_ntoskrnl (windows_inst inst) + et_address_of_names et + i * 4) 0 = Some (p, inst)"
    "rva_to_string env inst p = Some (Some s, inst)"
    using s unfolding name_at_def by blast
  have "aon_loop env symbol et (length (s # names)) i inst
      = (if matches symbol s then Some (i, inst) else aon_loop env symbol et (length names) (i + 1) inst)"
    using p by (simp add: strncmp_matches)
  then show ?case unfolding find_upt_Cons Cons.IH [OF tl]
    by (cases "List.find (\<lambda>k. matches symbol (names ! k)) [0..<length names]") simp_all
qed simp

lemma get_aon_index_find:
  assumes "\<forall>k<length names. name_at env inst et (of_nat k) (names ! k)"
    and "unat (et_number_of_names et) = length names"
  shows "get_aon_index env inst symbol et = Some (
    case List.find (\<lambda>k. matches symbol (names ! k)) [0..<length names] of
      None \<Rightarrow> -1 | Some k \<Rightarrow> of_nat k, inst)"
  using aon_loop_find [of names env inst et 0 symbol] assms
  by (simp add: get_aon_index_def split: option.split)

lemma find_upt_first:
  assumes "i < n" "P i" "\<forall>k<i. \<not> P k"
  shows "List.find P [0..<n] = Some i"
  using assms by (auto simp: find_Some_iff intro!: exI [of _ i])

lemma small_index: "i < unat (n :: u32) \<Longrightarrow> (of_nat i :: u32) \<noteq> -1"
proof
  assume i: "i < unat n" and "(of_nat i :: u32) = -1"
  then have "unat (of_nat i :: u32) = 4294967295" by (simp add: unsigned_minus_1_eq_mask mask_eq_exp_minus_1)
  moreover have "unat n < 4294967296" by (rule unat_bound32)
  ultimately show False using i by (simp add: unat_of_nat)
qed

lemma low_half_index: "(j :: u32) AND 0xFFFF \<noteq> -1"
proof
  assume "j AND 0xFFFF = -1"
  then have "bit (j AND 0xFFFF) 16" by simp
  then show False by (simp add: bit_and_iff bit_numeral_rec)
qed

lemma export_of_match:
  assumes "get_export_table env inst (w_ntoskrnl (windows_inst inst)) = Some (XA_SUCCESS et, inst)"
    and "\<forall>k<length names. name_at env inst et (of_nat k) (names ! k)"
    and "unat (et_number_of_names et) = length names"
    and "i < length names" "matches symbol (names ! i)" "\<forall>k<i. \<not> matches symbol (names ! k)"
    and "function_at env inst et (of_nat i) rva"
  shows "windows_export_to_rva env inst symbol = Some (XA_SUCCESS rva, inst)"
proof -
  have n: "get_aon_index env inst symbol et = Some (of_nat i, inst)"
    using get_aon_index_find [OF assms(2,3), of symbol] find_upt_first [OF assms(4,5,6)] by simp
  obtain j where j: "xa_read_long_phys env inst (w_ntoskrnl (windows_inst inst) + et_address_of_name_ordinals et + of_nat i * 2)
       = Some (XA_SUCCESS j, inst)"
     "xa_read_long_phys env inst (w_ntoskrnl (windows_inst inst) + et_address_of_functions et + (j AND 0xFFFF) * 4)
       = Some (XA_SUCCESS rva, inst)"
    using assms(7) by (auto simp: function_at_def)
  have "(of_nat i :: u32) \<noteq> -1" using assms(3,4) by (intro small_index [of _ "et_number_of_names et"]) simp
  then show ?thesis using assms(1) n j low_half_index [of j]
    by (simp add: windows_export_to_rva_def get_aof_index_def get_export_rva_def)
qed

section \<open>A kernel image\<close>

text \<open>A page with the headers of an image at 0x1000 that exports \<open>Ps\<close> at 0x3000 and
  \<open>PsLookup\<close> at 0x2000.\<close>

definition pe_page :: "u8 list" where
  "pe_page = [77, 90] @ replicate 58 0 @ [64, 0, 0, 0, 80, 69] @ replicate 118 0 @ [56, 1] @ replicate 146 0 @ [2, 0, 0, 0, 2, 0, 0, 0, 112, 1, 0, 0, 96, 1, 0, 0, 104, 1, 0, 0, 120, 1, 0, 0, 124, 1, 0, 0, 1] @ replicate 8 0 @ [32, 0, 0, 0, 48, 0, 0, 80, 115, 0, 0, 80, 115, 76, 111, 111, 107, 117, 112] @ replicate 8 0"

definition pe_env :: xa_env where
  "pe_env = flat_env (\<lambda>f. pe_page)"

definition pe_inst :: xa_instance where
  "pe_inst = std_inst\<lparr>hvm := True, windows_inst := (windows_inst std_inst)\<lparr>w_ntoskrnl := 0x1000\<rparr>\<rparr>"

definition pe_table :: export_table where
  "pe_table = \<lparr>et_characteristics = 0, et_time_date_stamp = 0, et_major_version = 0, et_minor_version = 0,
     et_name = 0, et_base = 0, et_number_of_functions = 2, et_number_of_names = 2,
     et_address_of_functions = 368, et_address_of_names = 352, et_address_of_name_ordinals = 360\<rparr>"

lemma pe_inst_simps [simp]: "plain_inst pe_inst" "hvm pe_inst" "w_ntoskrnl (windows_inst pe_inst) = 0x1000"
  "page_size pe_inst = 4096"
  by (simp_all add: pe_inst_def plain_inst_def std_pages_def std_inst_def xa_instance_zero_def)

lemma pe_words:
  "xa_read_long_mach pe_env pe_inst 0x103C = Some (XA_SUCCESS 64)"
  "xa_read_long_mach pe_env pe_inst 0x1160 = Some (XA_SUCCESS 376)"
  "xa_read_long_mach pe_env pe_inst 0x1164 = Some (XA_SUCCESS 380)"
  "xa_read_long_mach pe_env pe_inst 0x116A = Some (XA_SUCCESS 0)"
  "xa_read_long_mach pe_env pe_inst 0x1168 = Some (XA_SUCCESS 1)"
  "xa_read_long_mach pe_env pe_inst 0x1170 = Some (XA_SUCCESS 0x2000)"
  "xa_read_long_mach pe_env pe_inst 0x1174 = Some (XA_SUCCESS 0x3000)"
  by code_simp+

lemma pe_strings:
  "strn_bytes (drop 376 pe_page) 3719 = Some ''Ps''"
  "strn_bytes (drop 380 pe_page) 3715 = Some ''PsLookup''"
  by code_simp+

lemma pe_page_access:
  "xa_access_pa pe_env pe_inst a prot = Some (Some (map_page_of prot
    (if drop_bit 12 a = 0 then flat_page else pe_page), 0xFFF AND a), pe_inst)"
  by (simp add: hvm_access_pa pe_env_def flat_access_ma)

lemma pe_table_parts:
  "copy_export_table pe_page 312 = Some pe_table" "rd32 pe_page 184 = Some 312" "length pe_page = 396"
  by code_simp+

lemma pe_get_table: "get_export_table pe_env pe_inst 0x1000 = Some (XA_SUCCESS pe_table, pe_inst)"
proof -
  obtain oh where "copy_optional_header pe_page 88 = Some oh" "dd_virtual_address (oh_idd oh ! 0) = 312"
    by (rule copy_optional_header_export [of 88 pe_page 312]) (simp_all add: pe_table_parts)
  then show ?thesis
    by (simp add: get_export_table_def hvm_read_long_phys(2) [OF _ _ pe_words(1)] pe_page_access map_page_of_def
        out_val_def pe_table_parts)
qed

lemma pe_names:
  "name_at pe_env pe_inst pe_table 0 ''Ps''" "name_at pe_env pe_inst pe_table 1 ''PsLookup''"
  unfolding name_at_def
  by (rule exI [of _ 376], simp add: pe_table_def hvm_read_long_phys(2) [OF _ _ pe_words(2)] rva_to_string_def
        out_val_def pe_page_access map_page_of_def pe_strings)
    (rule exI [of _ 380], simp add: pe_table_def hvm_read_long_phys(2) [OF _ _ pe_words(3)] rva_to_string_def
        out_val_def pe_page_access map_page_of_def pe_strings)

lemma pe_functions:
  "function_at pe_env pe_inst pe_table 0 0x3000" "function_at pe_env pe_inst pe_table 1 0x2000"
  unfolding function_at_def
  by (rule exI [of _ 1], simp add: pe_table_def hvm_read_long_phys(1) [OF _ _ pe_words(5)]
        hvm_read_long_phys(1) [OF _ _ pe_words(7)])
    (rule exI [of _ 0], simp add: pe_table_def hvm_read_long_phys(1) [OF _ _ pe_words(4)]
        hvm_read_long_phys(1) [OF _ _ pe_words(6)])

lemma pe_all_names: "\<forall>k<length [''Ps'', ''PsLookup'']. name_at pe_env pe_inst pe_table (of_nat k) ([''Ps'', ''PsLookup''] ! k)"
  using pe_names by (auto simp: less_Suc_eq)

section \<open>Properties\<close>

text \<open>(C21) Resolving an export of the Windows kernel: when the export table lists the symbol and no
  earlier name in the table is a prefix of it, \<open>windows_export_to_rva\<close> returns the
  address that its ordinal selects from the function table.\<close>

theorem windows_export_to_rva_finds:
  assumes "get_export_table env inst (w_ntoskrnl (windows_inst inst)) = Some (XA_SUCCESS et, inst)"
    and "\<forall>k<length names. name_at env inst et (of_nat k) (names ! k)"
    and "unat (et_number_of_names et) = length names"
    and "i < length names" "names ! i = symbol" "\<forall>k<i. \<not> matches symbol (names ! k)"
    and "function_at env inst et (of_nat i) rva"
  shows "windows_export_to_rva env inst symbol = Some (XA_SUCCESS rva, inst)"
  using assms by (intro export_of_match [of env inst et names i]) (simp_all add: matches_def)

theorem windows_export_to_rva_finds_witness:
  "windows_export_to_rva pe_env pe_inst ''Ps'' = Some (XA_SUCCESS 0x3000, pe_inst)"
  by (rule windows_export_to_rva_finds [of _ _ pe_table "[''Ps'', ''PsLookup'']" 0])
    (use pe_get_table pe_all_names pe_functions in \<open>simp_all add: pe_table_def matches_def\<close>)

text \<open>(C38) Names are compared over the length of the exported name only, so an export whose name is a
  proper prefix of the symbol and comes first answers in its place: the lookup succeeds with the
  address of the other function.\<close>

theorem windows_export_prefix_wins:
  assumes "get_export_table env inst (w_ntoskrnl (windows_inst inst)) = Some (XA_SUCCESS et, inst)"
    and "\<forall>k<length names. name_at env inst et (of_nat k) (names ! k)"
    and "unat (et_number_of_names et) = length names"
    and "i < length names" "symbol = names ! i @ rest" "rest \<noteq> []" "\<forall>k<i. \<not> matches symbol (names ! k)"
    and "function_at env inst et (of_nat i) rva"
  shows "windows_export_to_rva env inst symbol = Some (XA_SUCCESS rva, inst)"
  using assms by (intro export_of_match [of env inst et names i]) (simp_all add: matches_def)

theorem windows_export_prefix_wins_witness:
  "windows_export_to_rva pe_env pe_inst ''PsLookup'' = Some (XA_SUCCESS 0x3000, pe_inst)"
  by (rule windows_export_prefix_wins [of _ _ pe_table "[''Ps'', ''PsLookup'']" 0 _ "''Lookup''"])
    (use pe_get_table pe_all_names pe_functions in \<open>simp_all add: pe_table_def matches_def\<close>)

end
