(* ===== verification/Xa_Scan.thy ===== *)
theory Xa_Scan
  imports Xa_P2m Xa_Exports
begin

text \<open>
  The two scans of physical memory with which a Windows guest is taken in: the search for the kernel image
  (\<open>get_ntoskrnl_base\<close>) and the search for a process by name (\<open>windows_find_eprocess\<close>). Loading
  the frame table of a paravirtualised guest on the way does not change what the checks say, so each
  scan ends and finds the first match.
\<close>

section \<open>Runs that agree\<close>

text \<open>Two runs from instances that differ in the frame table only.\<close>

definition agree :: "(xa_instance \<Rightarrow> bool) \<Rightarrow> ('a \<times> xa_instance) option \<Rightarrow> ('a \<times> xa_instance) option \<Rightarrow> bool" where
  "agree Q = rel_option (\<lambda>(x, i) (y, j). x = y \<and> Q i \<and> Q j)"

lemma agree_Some: "Q i \<Longrightarrow> Q j \<Longrightarrow> agree Q (Some (x, i)) (Some (x, j))"
  by (simp add: agree_def)

lemma agree_None: "agree Q None None"
  by (simp add: agree_def)

lemma agree_bind:
  assumes "agree Q f f'" "\<And>x i j. Q i \<Longrightarrow> Q j \<Longrightarrow> agree Q (h x i) (h' x j)"
  shows "agree Q (Option.bind f (\<lambda>(x, i). h x i)) (Option.bind f' (\<lambda>(x, i). h' x i))"
  using assms by (cases f; cases f') (auto simp: agree_def)

lemma agree_bind_pure: "(\<And>x. agree Q (h x) (h' x)) \<Longrightarrow> agree Q (Option.bind v h) (Option.bind v h')"
  by (cases v) (auto simp: agree_None)

lemma agree_if: "(b \<Longrightarrow> agree Q r r') \<Longrightarrow> (\<not> b \<Longrightarrow> agree Q s s') \<Longrightarrow> agree Q (if b then r else s) (if b then r' else s')"
  by simp

lemma agree_option:
  "agree Q r r' \<Longrightarrow> (\<And>x. agree Q (h x) (h' x)) \<Longrightarrow>
    agree Q (case v of None \<Rightarrow> r | Some x \<Rightarrow> h x) (case v of None \<Rightarrow> r' | Some x \<Rightarrow> h' x)"
  by (cases v) auto

lemma agree_ret:
  "agree Q r r' \<Longrightarrow> (\<And>x. agree Q (h x) (h' x)) \<Longrightarrow>
    agree Q (case v of XA_FAILURE \<Rightarrow> r | XA_SUCCESS x \<Rightarrow> h x) (case v of XA_FAILURE \<Rightarrow> r' | XA_SUCCESS x \<Rightarrow> h' x)"
  by (cases v) auto

lemma agree_prod: "(\<And>a b. p = (a, b) \<Longrightarrow> agree Q (h a b) (h' a b)) \<Longrightarrow> agree Q (case p of (a, b) \<Rightarrow> h a b) (case p of (a, b) \<Rightarrow> h' a b)"
  by (cases p) auto

lemmas agree_rules = agree_prod agree_option agree_ret agree_if agree_None agree_Some agree_bind_pure

lemma agree_fst: "agree Q f f' \<Longrightarrow> map_option fst f = map_option fst f'"
  by (cases f; cases f') (auto simp: agree_def)

lemma agree_left: "agree Q (Some (x, i)) f' \<Longrightarrow> Q i"
  by (cases f') (auto simp: agree_def)

section \<open>The checks\<close>

lemma same_frames_windows: "same_frames env inst i \<Longrightarrow> windows_inst i = windows_inst inst"
  by (auto simp: same_frames_def)

lemma agree_access_pa:
  assumes "same_frames env inst i" "same_frames env inst j"
  shows "agree (same_frames env inst) (xa_access_pa env i a prot) (xa_access_pa env j a prot)"
proof -
  have "map_option fst (xa_access_pa env i a prot) = map_option fst (xa_access_pa env j a prot)"
    using same_frames_access_pa assms by metis
  moreover have "same_frames env inst k" if "xa_access_pa env i a prot = Some (r, k) \<or> xa_access_pa env j a prot = Some (r, k)" for r k
    using that access_pa_same_frames same_frames_trans assms by blast
  ultimately show ?thesis by (cases "xa_access_pa env i a prot"; cases "xa_access_pa env j a prot") (auto simp: agree_def)
qed

lemma agree_read_long_phys:
  assumes "same_frames env inst i" "same_frames env inst j"
  shows "agree (same_frames env inst) (xa_read_long_phys env i a) (xa_read_long_phys env j a)"
  unfolding xa_read_long_phys_def by (intro agree_bind [OF agree_access_pa] agree_rules assms)

lemma agree_read_phys:
  assumes "same_frames env inst i" "same_frames env inst j"
  shows "agree (same_frames env inst) (read_phys env i a d) (read_phys env j a d)"
  unfolding read_phys_def by (intro agree_bind [OF agree_read_long_phys] agree_rules assms)

lemma agree_rva_to_string:
  assumes "same_frames env inst i" "same_frames env inst j"
  shows "agree (same_frames env inst) (rva_to_string env i r) (rva_to_string env j r)"
  unfolding rva_to_string_def same_frames_windows [OF assms(1)] same_frames_windows [OF assms(2)]
    conjunct1 [OF conjunct2 [OF same_frames_fields [OF assms(1)]]] conjunct1 [OF conjunct2 [OF same_frames_fields [OF assms(2)]]]
  by (intro agree_bind [OF agree_access_pa] agree_rules assms)

lemma agree_export_table:
  assumes "same_frames env inst i" "same_frames env inst j"
  shows "agree (same_frames env inst) (get_export_table env i b) (get_export_table env j b)"
  unfolding get_export_table_def Let_def
  by (intro agree_bind [OF agree_read_phys] agree_bind [OF agree_access_pa] agree_rules assms)

lemma agree_valid_start:
  assumes "same_frames env inst i" "same_frames env inst j"
  shows "agree (same_frames env inst) (valid_ntoskrnl_start env i a) (valid_ntoskrnl_start env j a)"
  unfolding valid_ntoskrnl_start_def Let_def
  by (intro agree_bind [OF agree_read_phys] agree_bind [OF agree_export_table] agree_bind [OF agree_rva_to_string] agree_rules assms)

lemma agree_eprocess_name:
  assumes "same_frames env inst i" "same_frames env inst j"
  shows "agree (same_frames env inst) (windows_get_eprocess_name env i a) (windows_get_eprocess_name env j a)"
  unfolding windows_get_eprocess_name_def by (intro agree_bind [OF agree_access_pa] agree_rules assms)

section \<open>The kernel image\<close>

text \<open>The check as the guest answers it, and the scans in its terms.\<close>

definition image_at :: "xa_env \<Rightarrow> xa_instance \<Rightarrow> u32 \<Rightarrow> bool" where
  "image_at env inst a \<longleftrightarrow> map_option fst (valid_ntoskrnl_start env inst a) = Some True"

lemma valid_start_run:
  assumes "same_frames env inst i" "valid_ntoskrnl_start env inst a \<noteq> None"
  obtains i' where "valid_ntoskrnl_start env i a = Some (image_at env inst a, i')" "same_frames env inst i'"
proof -
  have a: "agree (same_frames env inst) (valid_ntoskrnl_start env i a) (valid_ntoskrnl_start env inst a)"
    using assms(1) by (rule agree_valid_start) simp
  from agree_fst [OF a] assms(2) obtain ok i' where r: "valid_ntoskrnl_start env i a = Some (ok, i')"
    by (cases "valid_ntoskrnl_start env i a") auto
  moreover obtain j where "valid_ntoskrnl_start env inst a = Some (ok, j)" using agree_fst [OF a, symmetric] r by auto
  then have "ok = image_at env inst a" by (simp add: image_at_def)
  moreover have "same_frames env inst i'" using agree_left a r by metis
  ultimately show thesis using that by blast
qed

lemma known_base_find:
  assumes "\<forall>a\<in>set ps. valid_ntoskrnl_start env inst a \<noteq> None" "same_frames env inst i"
  shows "\<exists>i'. known_base env ps i = Some (List.find (image_at env inst) ps, i') \<and> same_frames env inst i'"
  using assms
proof (induction ps arbitrary: i)
  case (Cons p ps)
  have p: "valid_ntoskrnl_start env inst p \<noteq> None" using Cons.prems(1) by (metis list.set_intros(1))
  from valid_start_run [OF Cons.prems(2) p] obtain i1 where
    "valid_ntoskrnl_start env i p = Some (image_at env inst p, i1)" "same_frames env inst i1" .
  then show ?case using Cons.IH [of i1] Cons.prems(1) by auto
qed simp

text \<open>The first page from page \<open>k\<close> on, below page \<open>n\<close>.\<close>

definition first_image :: "xa_env \<Rightarrow> xa_instance \<Rightarrow> nat \<Rightarrow> nat \<Rightarrow> u32" where
  "first_image env inst k n = (case List.find (\<lambda>j. image_at env inst (of_nat (4096 * j))) [k..<n] of
     Some j \<Rightarrow> of_nat (4096 * j) | None \<Rightarrow> 0)"

lemma search_base_find:
  assumes "page_size inst = 4096" "\<forall>k<n. valid_ntoskrnl_start env inst (of_nat (4096 * k)) \<noteq> None" "n = 0x40000"
    and "same_frames env inst i" "k + m = n" "0 < m"
  shows "\<exists>i'. search_base env (of_nat (4096 * k)) i = Some (first_image env inst k n, i') \<and> same_frames env inst i'"
  using assms(4-6)
proof (induction m arbitrary: k i)
  case (Suc m)
  have k: "k < n" using Suc.prems(2) by simp
  then have v: "valid_ntoskrnl_start env inst (of_nat (4096 * k)) \<noteq> None" using assms(2) by blast
  from valid_start_run [OF Suc.prems(1) v] obtain i1 where
    r: "valid_ntoskrnl_start env i (of_nat (4096 * k)) = Some (image_at env inst (of_nat (4096 * k)), i1)" "same_frames env inst i1" .
  have u: "[k..<n] = k # [Suc k..<n]" using k by (simp add: upt_conv_Cons)
  have ps: "page_size i1 = 4096" using same_frames_fields [OF r(2)] assms(1) by simp
  have nx: "of_nat (4096 * k) + 4096 = (of_nat (4096 * Suc k) :: u32)" by simp
  have b: "4096 * Suc k \<le> 0x40000000" using k assms(3) by simp
  then have un: "unat (of_nat (4096 * Suc k) :: u32) = 4096 * Suc k" by (simp only: unat_of_nat) simp
  have stop: "of_nat (4096 * Suc k) = (0 :: u32) \<or> 0x40000000 \<le> (of_nat (4096 * Suc k) :: u32) \<longleftrightarrow> m = 0"
  proof -
    have "of_nat (4096 * Suc k) \<noteq> (0 :: u32)" using un by (metis mult_eq_0_iff nat.distinct(1) unat_0 zero_neq_numeral)
    moreover have "0x40000000 \<le> (of_nat (4096 * Suc k) :: u32) \<longleftrightarrow> 0x40000000 \<le> 4096 * Suc k"
      unfolding word_le_nat_alt un by simp
    ultimately show ?thesis using Suc.prems(2) assms(3) by auto
  qed
  define A B where "A = (of_nat (4096 * k) :: u32)" and "B = (of_nat (4096 * Suc k) :: u32)"
  note r = r [folded A_def] and stop = stop [folded B_def] and nx = nx [folded A_def B_def]
  have f: "first_image env inst k n = (if image_at env inst A then A else first_image env inst (Suc k) n)"
    by (simp add: first_image_def u A_def)
  have "\<exists>i'. search_base env B i1 = Some (first_image env inst (Suc k) n, i') \<and> same_frames env inst i'" if "m \<noteq> 0"
    using Suc.IH [OF r(2), of "Suc k"] Suc.prems(2) that by (simp add: B_def)
  moreover have "first_image env inst (Suc k) n = 0" if "m = 0" using Suc.prems(2) that by (simp add: first_image_def)
  ultimately show ?case unfolding A_def [symmetric] using r stop ps nx f by (subst search_base.simps) auto
qed simp

section \<open>Processes by name\<close>

text \<open>The signature of a process structure at an address. A failed read leaves the word of the address
  before it, which is passed on as \<open>v\<close>.\<close>

definition word_at :: "xa_env \<Rightarrow> xa_instance \<Rightarrow> u32 \<Rightarrow> u32 option" where
  "word_at env inst a = (case map_option fst (xa_read_long_phys env inst a) of Some (XA_SUCCESS v) \<Rightarrow> Some v | _ \<Rightarrow> None)"

definition process_at :: "xa_env \<Rightarrow> xa_instance \<Rightarrow> string \<Rightarrow> u32 \<Rightarrow> bool" where
  "process_at env inst name a \<longleftrightarrow> word_at env inst a \<in> {Some 0x001b0003, Some 0x00200003} \<and>
     (\<exists>s. map_option fst (windows_get_eprocess_name env inst a) = Some (Some s) \<and> strncmp_eq 50 s name)"

text \<open>Every word below the end can be read, and so can every name behind a signature.\<close>

definition scannable :: "xa_env \<Rightarrow> xa_instance \<Rightarrow> nat \<Rightarrow> bool" where
  "scannable env inst n \<longleftrightarrow> (\<forall>k<n. word_at env inst (of_nat (8 * k)) \<noteq> None \<and>
     (word_at env inst (of_nat (8 * k)) \<in> {Some 0x001b0003, Some 0x00200003} \<longrightarrow>
        windows_get_eprocess_name env inst (of_nat (8 * k)) \<noteq> None))"

lemma read_phys_run:
  assumes "same_frames env inst i" "word_at env inst a = Some v"
  obtains i' where "read_phys env i a d = Some (v, i')" "same_frames env inst i'"
proof -
  have a: "agree (same_frames env inst) (xa_read_long_phys env i a) (xa_read_long_phys env inst a)"
    using assms(1) by (rule agree_read_long_phys) simp
  have "map_option fst (xa_read_long_phys env inst a) = Some (XA_SUCCESS v)"
    using assms(2) by (auto simp: word_at_def split: option.split_asm xa_ret.split_asm)
  then obtain i' where r: "xa_read_long_phys env i a = Some (XA_SUCCESS v, i')" using agree_fst [OF a] by auto
  then have "same_frames env inst i'" using agree_left a by metis
  then show thesis using that [of i'] r by (simp add: read_phys_def out_val_def)
qed

lemma eprocess_name_run:
  assumes "same_frames env inst i" "windows_get_eprocess_name env inst a \<noteq> None"
  obtains p i' where "windows_get_eprocess_name env i a = Some (p, i')" "same_frames env inst i'"
    "map_option fst (windows_get_eprocess_name env inst a) = Some p"
proof -
  have a: "agree (same_frames env inst) (windows_get_eprocess_name env i a) (windows_get_eprocess_name env inst a)"
    using assms(1) by (rule agree_eprocess_name) simp
  from agree_fst [OF a] assms(2) obtain p i' where r: "windows_get_eprocess_name env i a = Some (p, i')"
    by (cases "windows_get_eprocess_name env i a") auto
  then have "same_frames env inst i'" "map_option fst (windows_get_eprocess_name env inst a) = Some p"
    using agree_left a agree_fst [OF a] by (metis, simp)
  then show thesis using that r by blast
qed

definition first_process :: "xa_env \<Rightarrow> xa_instance \<Rightarrow> string \<Rightarrow> nat \<Rightarrow> nat \<Rightarrow> u32" where
  "first_process env inst name k n = (case List.find (\<lambda>j. process_at env inst name (of_nat (8 * j))) [k..<n] of
     Some j \<Rightarrow> of_nat (8 * j) | None \<Rightarrow> 0)"

lemma find_eprocess_from:
  assumes "scannable env inst n" "8 * n < 2 ^ 32" "same_frames env inst i" "k + m = n"
  shows "\<exists>i'. find_eprocess_loop env name (of_nat (8 * n)) (of_nat (8 * k)) v i = Some (first_process env inst name k n, i')"
  using assms(3,4)
proof (induction m arbitrary: k i v)
  case 0
  then show ?case by (subst find_eprocess_loop.simps) (simp add: first_process_def)
next
  case (Suc m)
  define A B E where "A = (of_nat (8 * k) :: u32)" and "B = (of_nat (8 * Suc k) :: u32)" and "E = (of_nat (8 * n) :: u32)"
  have "8 * k < 2 ^ 32" "8 * k < 8 * n" using assms(2) Suc.prems(2) by auto
  then have le: "\<not> E \<le> A" unfolding A_def E_def word_le_nat_alt unat_of_nat using assms(2) by simp
  have k: "k < n" using Suc.prems(2) by simp
  obtain w where w: "word_at env inst A = Some w" using assms(1) k unfolding scannable_def A_def by blast
  obtain i1 where r1: "read_phys env i A v = Some (w, i1)" "same_frames env inst i1"
    using read_phys_run [OF Suc.prems(1) w] by blast
  have u: "[k..<n] = k # [Suc k..<n]" using k by (simp add: upt_conv_Cons)
  have f: "first_process env inst name k n = (if process_at env inst name A then A else first_process env inst name (Suc k) n)"
    by (simp add: first_process_def u A_def)
  have nx: "A + 8 = B" by (simp add: A_def B_def)
  have ih: "\<exists>i'. find_eprocess_loop env name E B x j = Some (first_process env inst name (Suc k) n, i')" if "same_frames env inst j" for x j
    using Suc.IH [OF that, of "Suc k" x] Suc.prems(2) unfolding B_def E_def by simp
  show ?case
  proof (cases "w = 0x001b0003 \<or> w = 0x00200003")
    case True
    then have nm: "windows_get_eprocess_name env inst A \<noteq> None" using assms(1) k w unfolding scannable_def A_def by auto
    obtain p i2 where r2: "windows_get_eprocess_name env i1 A = Some (p, i2)" "same_frames env inst i2"
      "map_option fst (windows_get_eprocess_name env inst A) = Some p"
      using eprocess_name_run [OF r1(2) nm] by blast
    have "process_at env inst name A \<longleftrightarrow> (case p of Some s \<Rightarrow> strncmp_eq 50 s name | None \<Rightarrow> False)"
      using w r2(3) True by (auto simp: process_at_def split: option.split)
    then show ?thesis unfolding A_def [symmetric] E_def [symmetric]
      using le r1 r2 f nx True ih [OF r2(2)] by (subst find_eprocess_loop.simps) auto
  next
    case False
    then have "\<not> process_at env inst name A" using w by (simp add: process_at_def)
    then show ?thesis unfolding A_def [symmetric] E_def [symmetric]
      using le r1 f nx False ih [OF r1(2)] by (subst find_eprocess_loop.simps) auto
  qed
qed

section \<open>Properties\<close>


text \<open>A guest with a kernel image at 0x4d4000, the third of the known addresses, and no other page.\<close>

definition nt_page :: "u8 list" where
  "nt_page = [77, 90] @ replicate 58 0 @ [64, 0, 0, 0, 80, 69] @ replicate 118 0 @ [56, 1] @ replicate 138 0 @ [96, 1] @ replicate 26 0 @
     [0x6E, 0x74, 0x6F, 0x73, 0x6B, 0x72, 0x6E, 0x6C, 0x2E, 0x65, 0x78, 0x65, 0]"

definition nt_env :: xa_env where
  "nt_env = frames_env (\<lambda>f. if f = 0x4D4 then Some nt_page else None)"

definition nt_inst :: xa_instance where
  "nt_inst = std_inst\<lparr>hvm := True\<rparr>"

lemma nt_image: "map_option fst (valid_ntoskrnl_start nt_env nt_inst 0x4D4000) = Some True"
  by code_simp

lemma nt_elsewhere: "drop_bit 12 a \<noteq> 0x4D4 \<Longrightarrow> valid_ntoskrnl_start nt_env nt_inst a = Some (False, nt_inst)"
  by (simp add: valid_ntoskrnl_start_def read_phys_def xa_read_long_phys_def hvm_access_pa xa_access_ma_def
      xa_mmap_mfn_def xa_map_page_def nt_env_def frames_env_def nt_inst_def plain_inst_def std_pages_def std_inst_def
      xa_instance_zero_def out_val_def)

lemma nt_checked: "valid_ntoskrnl_start nt_env nt_inst (of_nat (4096 * k)) \<noteq> None" if "k < 0x40000"
proof (cases "k = 0x4D4")
  case True
  then show ?thesis using nt_image by auto
next
  case False
  have "unat (drop_bit 12 (of_nat (4096 * k) :: u32)) = k"
    using that unfolding unat_drop_bit_eq unat_of_nat by (simp add: drop_bit_eq_div)
  then have "drop_bit 12 (of_nat (4096 * k) :: u32) \<noteq> 0x4D4" using False by auto
  then show ?thesis using nt_elsewhere by simp
qed


text \<open>(C24) Finding a process of a Windows guest by name: when the words of the guest's memory can be read,
  and the names behind the signatures of process structures, \<open>windows_find_eprocess\<close> returns, with the
  lowest multiple of 8 at which a structure with that name starts, or 0.\<close>

theorem windows_find_eprocess_finds:
  assumes "mode inst = XA_MODE_XEN" "xen_size (m_xen inst) = of_nat (8 * n)" "8 * n < 2 ^ 32" "scannable env inst n"
  shows "map_option fst (windows_find_eprocess env inst name) = Some (first_process env inst name 0 n)"
proof -
  obtain i where "find_eprocess_loop env name (of_nat (8 * n)) (of_nat (8 * 0)) 0 inst = Some (first_process env inst name 0 n, i)"
    using find_eprocess_from [OF assms(4,3) same_frames_refl, of 0 n name 0] by auto
  then show ?thesis using assms(1,2) by (simp add: windows_find_eprocess_def)
qed

text \<open>A guest of three words with a process structure at the second.\<close>

definition eprocess_page :: "u8 list" where
  "eprocess_page = [0, 0, 0, 0, 0, 0, 0, 0, 0x03, 0, 0x1b, 0] @ replicate 368 0 @ [0x53, 0x79, 0x73, 0x74, 0x65, 0x6D, 0]"

definition eprocess_env :: xa_env where
  "eprocess_env = frames_env (\<lambda>f. if f = 0 then Some eprocess_page else None)"

definition eprocess_inst :: xa_instance where
  "eprocess_inst = std_inst\<lparr>hvm := True, m_xen := (m_xen std_inst)\<lparr>xen_size := 24\<rparr>\<rparr>"

lemma eprocess_words:
  "word_at eprocess_env eprocess_inst 0 = Some 0" "word_at eprocess_env eprocess_inst 8 = Some 0x001b0003"
  "word_at eprocess_env eprocess_inst 16 = Some 0"
  "map_option fst (windows_get_eprocess_name eprocess_env eprocess_inst 8) = Some (Some ''System'')"
  by code_simp+

theorem windows_find_eprocess_finds_witness:
  "map_option fst (windows_find_eprocess eprocess_env eprocess_inst ''System'') = Some 8"
proof -
  have u: "k < 3 \<longleftrightarrow> k = 0 \<or> k = 1 \<or> k = 2" for k :: nat by auto
  have "windows_get_eprocess_name eprocess_env eprocess_inst 8 \<noteq> None" using eprocess_words(4) by auto
  then have "scannable eprocess_env eprocess_inst 3" unfolding scannable_def u using eprocess_words(1-3) by auto
  then have "map_option fst (windows_find_eprocess eprocess_env eprocess_inst ''System'') =
      Some (first_process eprocess_env eprocess_inst ''System'' 0 3)"
    by (intro windows_find_eprocess_finds) (simp_all add: eprocess_inst_def std_inst_def xa_instance_zero_def)
  moreover have "[0..<3] = [0, 1, 2]" by (simp add: upt_rec)
  moreover have "\<not> process_at eprocess_env eprocess_inst ''System'' 0" "process_at eprocess_env eprocess_inst ''System'' 8"
    using eprocess_words by (auto simp: process_at_def strncmp_eq_def)
  ultimately show ?thesis by (simp add: first_process_def)
qed

end
