(* ===== verification/Xa_Print.thy ===== *)
theory Xa_Print
  imports Xa_Sysmap
begin

text \<open>
  The hex dump of \<open>xa_pretty_print.c\<close>, as the text it prints, and a reader of such dumps:
  what is printed determines the bytes.
\<close>

section \<open>The dump\<close>

definition isprint :: "u8 \<Rightarrow> bool" where
  "isprint b \<longleftrightarrow> 0x20 \<le> b \<and> b \<le> 0x7E"

text \<open>The loops over the columns, for the indices that a row has.\<close>

fun hex_cells :: "u8 list \<Rightarrow> int \<Rightarrow> nat list \<Rightarrow> string option" where
  "hex_cells data len [] = Some []"
| "hex_cells data len (index # js) = do {
     c \<leftarrow> (if int index < len then do { b \<leftarrow> rd8 data index; Some (hex_digits 2 (unat b) @ '' '') } else Some ''   '');
     r \<leftarrow> hex_cells data len js;
     Some (c @ r) }"

fun ascii_cells :: "u8 list \<Rightarrow> int \<Rightarrow> nat list \<Rightarrow> string option" where
  "ascii_cells data len [] = Some []"
| "ascii_cells data len (index # js) = do {
     c \<leftarrow> (if int index < len then do { b \<leftarrow> rd8 data index; Some (if isprint b then [char_of (unat b)] else ''.'') } else Some []);
     r \<leftarrow> ascii_cells data len js;
     Some (c @ r) }"

definition hex_row :: "u8 list \<Rightarrow> int \<Rightarrow> nat \<Rightarrow> string option" where
  "hex_row data len i = do {
     a \<leftarrow> hex_cells data len [i * 16..<i * 16 + 8];
     b \<leftarrow> hex_cells data len [i * 16 + 8..<i * 16 + 16];
     c \<leftarrow> ascii_cells data len [i * 16..<i * 16 + 16];
     Some (hex_digits 8 (i * 16) @ ''|  '' @ a @ '' '' @ b @ ''  '' @ c @ [CHR 0x0A]) }"

fun hex_rows :: "u8 list \<Rightarrow> int \<Rightarrow> nat list \<Rightarrow> string option" where
  "hex_rows data len [] = Some []"
| "hex_rows data len (i # js) = do { l \<leftarrow> hex_row data len i; r \<leftarrow> hex_rows data len js; Some (l @ r) }"

definition print_hex :: "u8 list \<Rightarrow> int \<Rightarrow> string option" where
  "print_hex data len = hex_rows data len [0..<nat ((len + 15) div 16)]"

text \<open>\<open>%x\<close>\<close>

fun hex_str :: "nat \<Rightarrow> string" where
  "hex_str n = (if n < 16 then [hex_char n] else hex_str (n div 16) @ [hex_char (n mod 16)])"

section \<open>Domain information\<close>

text \<open>The fields of libxc's \<open>xc_dominfo_t\<close> that are printed; the one-bit fields are
  flags.\<close>

record xc_dominfo =
  di_domid :: u32
  di_ssidref :: u32
  di_dying :: bool
  di_crashed :: bool
  di_shutdown :: bool
  di_paused :: bool
  di_blocked :: bool
  di_running :: bool
  di_shutdown_reason :: u32
  di_nr_pages :: u32
  di_shared_info_frame :: u32
  di_max_memkb :: u32
  di_nr_online_vcpus :: u32
  di_max_vcpu_id :: u32

definition info_line :: "string \<Rightarrow> string \<Rightarrow> string" where
  "info_line field v = CHR 0x09 # field @ '' = '' @ v @ [CHR 0x0A]"

definition print_dominfo :: "xc_dominfo \<Rightarrow> string" where
  "print_dominfo info = (let d = (\<lambda>v. int_str (sint v)); b = (\<lambda>f. int_str (if f then 1 else 0)); lu = (\<lambda>v. nat_str (unat v)) in
     ''xc_dominfo_t struct for dom'' @ d (di_domid info) @ [CHR 0x0A] @
     info_line ''domid'' (d (di_domid info)) @ info_line ''ssidref'' (d (di_ssidref info)) @
     info_line ''dying'' (b (di_dying info)) @ info_line ''crashed'' (b (di_crashed info)) @
     info_line ''shutdown'' (b (di_shutdown info)) @ info_line ''paused'' (b (di_paused info)) @
     info_line ''blocked'' (b (di_blocked info)) @ info_line ''running'' (b (di_running info)) @
     info_line ''shutdown_reason'' (d (di_shutdown_reason info)) @ info_line ''nr_pages'' (lu (di_nr_pages info)) @
     info_line ''shared_info_frame'' (lu (di_shared_info_frame info)) @ info_line ''max_memkb'' (lu (di_max_memkb info)) @
     info_line ''nr_online_vcpus'' (d (di_nr_online_vcpus info)) @ info_line ''max_vcpu_id'' (d (di_max_vcpu_id info)) @ [CHR 0x0A])"

section \<open>Reading a dump\<close>

fun unhex :: "string \<Rightarrow> u8 list" where
  "unhex (a # b # c # s) = (if is_digit 16 a then of_nat (digits_val 16 [a, b]) # unhex s else [])"
| "unhex s = []"

definition unhex_row :: "string \<Rightarrow> u8 list" where
  "unhex_row l = unhex (take 24 (drop 11 l)) @ unhex (take 24 (drop 36 l))"

function undump :: "string \<Rightarrow> u8 list" where
  "undump s = (if s = [] then []
     else unhex_row (takeWhile (\<lambda>c. c \<noteq> CHR 0x0A) s) @ undump (tl (dropWhile (\<lambda>c. c \<noteq> CHR 0x0A) s)))"
  by pat_completeness auto
termination
proof (relation "measure length", simp)
  fix s :: string
  assume "s \<noteq> []"
  then show "(tl (dropWhile (\<lambda>c. c \<noteq> CHR 0x0A) s), s) \<in> measure length"
    using length_dropWhile_le [of "\<lambda>c. c \<noteq> CHR 0x0A" s] by (cases s) (auto simp: le_imp_less_Suc diff_le_self order.trans)
qed

declare undump.simps [simp del]

lemma undump_line:
  assumes "CHR 0x0A \<notin> set l"
  shows "undump (l @ CHR 0x0A # s) = unhex_row l @ undump s"
proof -
  have "takeWhile (\<lambda>c. c \<noteq> CHR 0x0A) (l @ CHR 0x0A # s) = l" "dropWhile (\<lambda>c. c \<noteq> CHR 0x0A) (l @ CHR 0x0A # s) = CHR 0x0A # s"
    using assms by (auto simp: takeWhile_append dropWhile_append)
  then show ?thesis by (subst undump.simps) simp
qed

section \<open>The text of a dump\<close>

definition hex_cell :: "u8 list \<Rightarrow> nat \<Rightarrow> string" where
  "hex_cell bs j = (if j < length bs then hex_digits 2 (unat (bs ! j)) @ '' '' else ''   '')"

definition ascii_cell :: "u8 list \<Rightarrow> nat \<Rightarrow> string" where
  "ascii_cell bs j = (if j < length bs then (if isprint (bs ! j) then [char_of (unat (bs ! j))] else ''.'') else [])"

lemma rd8_nth: "j < length data \<Longrightarrow> rd (Suc 0) data j = Some (data ! j)"
  using Cons_nth_drop_Suc [of j data, THEN arg_cong [where f = "take (Suc 0)"], symmetric] by (simp add: rd_def)

lemma unat_bound8: "unat (b :: u8) < 256"
  using unsigned_less [of b] by simp

lemma hex_cells_eq:
  assumes "n \<le> length data"
  shows "hex_cells data (int n) js = Some (concat (map (hex_cell (take n data)) js))"
    and "ascii_cells data (int n) js = Some (concat (map (ascii_cell (take n data)) js))"
  using assms by (induction js) (auto simp: hex_cell_def ascii_cell_def rd8_nth)

lemma length_hex_cell [simp]: "length (hex_cell bs j) = 3"
  by (simp add: hex_cell_def)

lemma length_hex_cells [simp]: "length (concat (map (hex_cell bs) js)) = 3 * length js"
  by (induction js) auto

lemma hex2: "hex_digits 2 n = [hex_char (n div 16 mod 16), hex_char (n mod 16)]"
  by (simp add: numeral_2_eq_2)

lemma unhex_cells: "unhex (concat (map (hex_cell bs) [k..<k + m])) = take m (drop k bs)"
proof (induction m arbitrary: k)
  case 0
  then show ?case by simp
next
  case (Suc m)
  have u: "[k..<k + Suc m] = k # [Suc k..<Suc k + m]" by (simp add: upt_rec)
  show ?case
  proof (cases "k < length bs")
    case True
    have "of_nat (digits_val 16 (hex_digits 2 (unat (bs ! k)))) = bs ! k"
      using unat_bound8 [of "bs ! k"] by (simp add: digits_val_hex)
    moreover have "take (Suc m) (drop k bs) = bs ! k # take m (drop (Suc k) bs)" using True by (simp add: Cons_nth_drop_Suc [symmetric])
    ultimately show ?thesis unfolding u using True Suc.IH [of "Suc k"] is_digit_hex
      by (simp add: hex_cell_def hex2)
  next
    case False
    then show ?thesis unfolding u by (simp add: hex_cell_def is_digit_def digit_val_def)
  qed
qed

definition dump_line :: "u8 list \<Rightarrow> nat \<Rightarrow> string" where
  "dump_line bs i = hex_digits 8 (i * 16) @ ''|  '' @ concat (map (hex_cell bs) [i * 16..<i * 16 + 8]) @ '' '' @
     concat (map (hex_cell bs) [i * 16 + 8..<i * 16 + 16]) @ ''  '' @ concat (map (ascii_cell bs) [i * 16..<i * 16 + 16])"

lemma hex_row_eq: "n \<le> length data \<Longrightarrow> hex_row data (int n) i = Some (dump_line (take n data) i @ [CHR 0x0A])"
  by (simp add: hex_row_def hex_cells_eq dump_line_def del: upt_Suc)

lemma hex_rows_eq:
  "n \<le> length data \<Longrightarrow> hex_rows data (int n) js = Some (concat (map (\<lambda>i. dump_line (take n data) i @ [CHR 0x0A]) js))"
  by (induction js) (simp_all add: hex_row_eq)

lemma hex_no_newline: "CHR 0x0A \<notin> set (hex_digits k n)"
proof
  assume "CHR 0x0A \<in> set (hex_digits k n)"
  then obtain d where "d < 16" "hex_char d = CHR 0x0A" using hex_digits_set by metis
  then show False using hex_char_plain(1) [of d] by (simp add: isspace_def)
qed

lemma char_newline:
  assumes "char_of (unat b) = CHR 0x0A"
  shows "b = (10 :: u8)"
proof -
  from assms have "(of_char (char_of (unat b)) :: nat) = of_char (CHR 0x0A)" by (rule arg_cong)
  then have "unat b = 10" using unat_bound8 [of b] by simp
  then show ?thesis by (simp add: word_unat_eq_iff)
qed

lemma line_no_newline: "CHR 0x0A \<notin> set (dump_line bs i)"
proof -
  have "CHR 0x0A \<notin> set (hex_cell bs j)" "CHR 0x0A \<notin> set (ascii_cell bs j)" for j
    using hex_no_newline by (auto simp: hex_cell_def ascii_cell_def isprint_def dest: char_newline char_newline [OF sym])
  then show ?thesis using hex_no_newline by (auto simp: dump_line_def simp del: upt_Suc)
qed

lemma unhex_dump_line: "unhex_row (dump_line bs i) = take 16 (drop (i * 16) bs)"
proof -
  let ?a = "concat (map (hex_cell bs) [i * 16..<i * 16 + 8])" and ?b = "concat (map (hex_cell bs) [i * 16 + 8..<i * 16 + 16])"
  let ?c = "concat (map (ascii_cell bs) [i * 16..<i * 16 + 16])"
  have l: "length ?a = 24" "length ?b = 24" unfolding length_hex_cells by simp_all
  have "take 24 (drop 11 (dump_line bs i)) = ?a" unfolding dump_line_def using l by (simp del: upt_Suc)
  moreover have "take 24 (drop 36 (dump_line bs i)) = ?b" unfolding dump_line_def using l by (simp del: upt_Suc)
  moreover have "unhex ?a = take 8 (drop (i * 16) bs)" by (rule unhex_cells)
  moreover have "unhex ?b = take 8 (drop (i * 16 + 8) bs)" using unhex_cells [of bs "i * 16 + 8" 8] by (simp add: add.assoc del: upt_Suc)
  moreover have "take 16 (drop (i * 16) bs) = take 8 (drop (i * 16) bs) @ take 8 (drop (i * 16 + 8) bs)"
    using take_add [of 8 8 "drop (i * 16) bs"] by (simp add: add.commute)
  ultimately show ?thesis by (simp only: unhex_row_def)
qed

lemma undump_lines:
  "undump (concat (map (\<lambda>i. dump_line bs i @ [CHR 0x0A]) [k..<k + m])) = take (16 * m) (drop (16 * k) bs)"
proof (induction m arbitrary: k)
  case 0
  then show ?case by (subst undump.simps) simp
next
  case (Suc m)
  have u: "[k..<k + Suc m] = k # [Suc k..<Suc k + m]" by (simp add: upt_rec)
  have "take (16 * Suc m) (drop (16 * k) bs) = take 16 (drop (16 * k) bs) @ take (16 * m) (drop (16 * Suc k) bs)"
    using take_add [of 16 "16 * m" "drop (16 * k) bs"] by (simp add: add.commute)
  then show ?case unfolding u
    using undump_line [OF line_no_newline] unhex_dump_line [of bs k] Suc.IH [of "Suc k"] by (simp add: mult.commute del: upt_Suc)
qed

section \<open>Properties\<close>

text \<open>(C32) A hex dump loses nothing: \<open>print_hex\<close> of a buffer always returns, and reading the hex
  columns of the text it prints gives back exactly the bytes, also when the last row is not full.\<close>

theorem print_hex_undump:
  assumes "n \<le> length data"
  shows "\<exists>text. print_hex data (int n) = Some text \<and> undump text = take n data"
proof -
  have r: "nat ((int n + 15) div 16) = (n + 15) div 16" by (simp add: nat_div_distrib nat_add_distrib)
  have "n \<le> 16 * ((n + 15) div 16)" by presburger
  then have "undump (concat (map (\<lambda>i. dump_line (take n data) i @ [CHR 0x0A]) [0..<(n + 15) div 16])) = take n data"
    using undump_lines [of "take n data" 0 "(n + 15) div 16"] by simp
  then show ?thesis using hex_rows_eq [OF assms] by (simp add: print_hex_def r)
qed

theorem print_hex_undump_witness:
  "\<exists>text. print_hex [0x41, 0x0A, 0xFF] 3 = Some text \<and> undump text = [0x41, 0x0A, 0xFF]"
  using print_hex_undump [of 3 "[0x41, 0x0A, 0xFF]"] by simp

end
