(* ===== verification/Xa_Listing.thy ===== *)
theory Xa_Listing
  imports Xa_Exports Xa_Print
begin

text \<open>
  \<open>dump_exports\<close> of \<open>windows_peparse.c\<close>: the list of the kernel's exports. It reads the
  three tables from one page each, where the lookup of \<open>windows_export_to_rva\<close> maps the page of
  every entry; the lemmas show that both read the same table as long as it does not leave its page.
\<close>

section \<open>The list\<close>

text \<open>\<open>printf("%s:%d:0x%x\n", str, ordinal, loc)\<close> for every name; \<open>k\<close> names are left
  and \<open>i\<close> is the index of the next. A table that could not be mapped is read through NULL.\<close>

definition export_line :: "string \<Rightarrow> u16 \<Rightarrow> u32 \<Rightarrow> string" where
  "export_line str ordinal loc = str @ '':'' @ nat_str (unat ordinal) @ '':0x'' @ hex_str (unat loc) @ [CHR 0x0A]"

fun dump_names ::
  "xa_env \<Rightarrow> (mapping \<times> u32) option \<Rightarrow> (mapping \<times> u32) option \<Rightarrow> (mapping \<times> u32) option
    \<Rightarrow> nat \<Rightarrow> nat \<Rightarrow> xa_instance \<Rightarrow> (string \<times> xa_instance) option" where
  "dump_names env m1 m2 m3 0 i inst = Some ([], inst)"
| "dump_names env m1 m2 m3 (Suc k) i inst = do {
     (memory1, offset1) \<leftarrow> m1;
     rva \<leftarrow> rd32 (map_bytes memory1) (unat offset1 + i * 4);
     (str, inst1) \<leftarrow> (if rva \<noteq> 0 then rva_to_string env inst rva else Some (None, inst));
     l \<leftarrow> (case str of
             None \<Rightarrow> Some []
           | Some s \<Rightarrow> do {
               (memory2, offset2) \<leftarrow> m2;
               ordinal \<leftarrow> rd16 (map_bytes memory2) (unat offset2 + i * 2);
               (memory3, offset3) \<leftarrow> m3;
               loc \<leftarrow> rd32 (map_bytes memory3) (unat offset3 + unat ordinal * 4);
               Some (export_line s ordinal loc) });
     (ls, inst2) \<leftarrow> dump_names env m1 m2 m3 k (Suc i) inst1;
     Some (l @ ls, inst2) }"

definition dump_exports :: "xa_env \<Rightarrow> xa_instance \<Rightarrow> export_table \<Rightarrow> (string \<times> xa_instance) option" where
  "dump_exports env inst et =
     (let base_addr = w_ntoskrnl (windows_inst inst) in do {
     (m1, inst1) \<leftarrow> xa_access_pa env inst (base_addr + et_address_of_names et) PROT_READ;
     (m2, inst2) \<leftarrow> xa_access_pa env inst1 (base_addr + et_address_of_name_ordinals et) PROT_READ;
     (m3, inst3) \<leftarrow> xa_access_pa env inst2 (base_addr + et_address_of_functions et) PROT_READ;
     dump_names env m1 m2 m3 (unat (et_number_of_names et)) 0 inst3 })"

section \<open>Entries of a table within its page\<close>

lemma same_page:
  fixes a :: u32
  assumes "unat a mod 4096 + n < 4096"
  shows "unat (a + of_nat n) div 4096 = unat a div 4096" "unat (a + of_nat n) mod 4096 = unat a mod 4096 + n"
proof -
  let ?q = "unat a div 4096" and ?r = "unat a mod 4096"
  have a: "unat a = 4096 * ?q + ?r" by simp
  have "?q < 1048576" using unat_bound32 [of a] by linarith
  then have "unat a + n < 4294967296" using a assms by linarith
  moreover have "unat (of_nat n :: u32) = n" using assms by (simp add: unat_of_nat)
  ultimately have s: "unat (a + of_nat n) = 4096 * ?q + (?r + n)" using a by (subst unat_plus_small) simp_all
  have "(4096 * q + r) div 4096 = q" "(4096 * q + r) mod 4096 = r" if "r < 4096" for q r :: nat using that by simp_all
  from this [OF assms] show "unat (a + of_nat n) div 4096 = ?q" "unat (a + of_nat n) mod 4096 = ?r + n" by (simp_all only: s)
qed

text \<open>An entry in the page of \<open>a\<close> is in the mapping of \<open>a\<close>.\<close>

lemma entry_read:
  assumes "plain_inst inst" "hvm inst" "unat a mod 4096 + n < 4096"
    and "xa_read_long_phys env inst (a + of_nat n) = Some (XA_SUCCESS v, inst)"
  shows "\<exists>m off. xa_access_pa env inst a PROT_READ = Some (Some (m, off), inst) \<and> rd32 (map_bytes m) (unat off + n) = Some v"
proof -
  have sp: "std_pages inst" using assms(1) by (simp add: plain_inst_def)
  note o = page_offset_unat [OF sp]
  have f: "drop_bit (unat (page_shift inst)) (a + of_nat n) = drop_bit (unat (page_shift inst)) a"
    using sp same_page(1) [OF assms(3)] by (simp add: std_pages_def word_unat_eq_iff unat_drop_bit)
  show ?thesis
    using assms(4) by (auto simp: xa_read_long_phys_def hvm_access_pa [OF assms(1,2)] xa_access_ma_def Let_def f o
        same_page [OF assms(3)] split: option.splits Option.bind_split_asm)
qed

lemma rd16_of_rd32:
  assumes "rd32 bs p = Some v"
  shows "rd16 bs p = Some (ucast v)"
proof -
  have l: "p + 4 \<le> length bs" and v: "v = le_word (take 4 (drop p bs))" using assms by (auto simp: rd_def split: if_splits)
  have four: "\<exists>a b c d. xs = [a, b, c, d]" if "length xs = 4" for xs :: "u8 list"
    using that by (auto simp: numeral_eq_Suc length_Suc_conv)
  have "length (take 4 (drop p bs)) = 4" using l by simp
  from four [OF this] obtain a b c d where "take 4 (drop p bs) = [a, b, c, d]" by blast
  moreover have "take 2 (drop p bs) = take 2 (take 4 (drop p bs))" by simp
  ultimately have "take 4 (drop p bs) = [a, b, c, d]" "take 2 (drop p bs) = [a, b]" by simp_all
  moreover have "(le_word [a, b] :: u16) = ucast (le_word [a, b, c, d] :: u32)"
    by (rule bit_eqI) (auto simp: bit_simps)
  ultimately show ?thesis using l v by (simp add: rd_def)
qed

section \<open>The exports, listed and looked up\<close>

text \<open>Entry \<open>i\<close> of the table: name, ordinal and address.\<close>

definition export_at :: "xa_env \<Rightarrow> xa_instance \<Rightarrow> export_table \<Rightarrow> nat \<Rightarrow> string \<times> u16 \<times> u32 \<Rightarrow> bool" where
  "export_at env inst et i x = (case x of (s, ordinal, loc) \<Rightarrow>
     (let base = w_ntoskrnl (windows_inst inst) in
     name_at env inst et (of_nat i) s \<and>
     (\<exists>w. xa_read_long_phys env inst (base + et_address_of_name_ordinals et + of_nat (i * 2)) = Some (XA_SUCCESS w, inst) \<and>
       ordinal = ucast w) \<and>
     xa_read_long_phys env inst (base + et_address_of_functions et + of_nat (unat ordinal * 4)) = Some (XA_SUCCESS loc, inst) \<and>
     unat (base + et_address_of_names et) mod 4096 + i * 4 < 4096 \<and>
     unat (base + et_address_of_name_ordinals et) mod 4096 + i * 2 < 4096 \<and>
     unat (base + et_address_of_functions et) mod 4096 + unat ordinal * 4 < 4096))"

lemma low_half: "unat (ucast (w :: u32) :: u16) = unat (w AND 0xFFFF)"
  by (simp add: low_masks unat_and_mask unsigned_ucast_eq take_bit_eq_mod)

lemma export_function_at:
  assumes "export_at env inst et i (s, ordinal, loc)"
  shows "function_at env inst et (of_nat i) loc"
proof -
  obtain w where w: "xa_read_long_phys env inst (w_ntoskrnl (windows_inst inst) + et_address_of_name_ordinals et + of_nat (i * 2)) = Some (XA_SUCCESS w, inst)"
    "ordinal = ucast w"
    "xa_read_long_phys env inst (w_ntoskrnl (windows_inst inst) + et_address_of_functions et + of_nat (unat ordinal * 4)) = Some (XA_SUCCESS loc, inst)"
    using assms by (auto simp: export_at_def Let_def)
  have "(of_nat (unat ordinal * 4) :: u32) = (w AND 0xFFFF) * 4"
    unfolding w(2) low_half by simp
  then show ?thesis unfolding function_at_def using w by (intro exI [of _ w]) simp
qed

text \<open>The loop over entries that the pages hold.\<close>

definition row_at :: "xa_env \<Rightarrow> xa_instance \<Rightarrow> mapping \<times> u32 \<Rightarrow> mapping \<times> u32 \<Rightarrow> mapping \<times> u32 \<Rightarrow> nat \<Rightarrow> string \<times> u16 \<times> u32 \<Rightarrow> bool" where
  "row_at env inst t1 t2 t3 i x = (case x of (s, ordinal, loc) \<Rightarrow>
     (\<exists>p. p \<noteq> 0 \<and> rd32 (map_bytes (fst t1)) (unat (snd t1) + i * 4) = Some p \<and> rva_to_string env inst p = Some (Some s, inst)) \<and>
     rd16 (map_bytes (fst t2)) (unat (snd t2) + i * 2) = Some ordinal \<and>
     rd32 (map_bytes (fst t3)) (unat (snd t3) + unat ordinal * 4) = Some loc)"

lemma dump_names_rows:
  "\<forall>k<length xs. row_at env inst t1 t2 t3 (i + k) (xs ! k) \<Longrightarrow>
    dump_names env (Some t1) (Some t2) (Some t3) (length xs) i inst
      = Some (concat (map (\<lambda>(s, ordinal, loc). export_line s ordinal loc) xs), inst)"
proof (induction xs arbitrary: i)
  case (Cons x xs)
  obtain s ordinal loc where x: "x = (s, ordinal, loc)" by (cases x)
  have "row_at env inst t1 t2 t3 i (s, ordinal, loc)" using Cons.prems x by force
  moreover have "\<forall>k<length xs. row_at env inst t1 t2 t3 (Suc i + k) (xs ! k)"
    using Cons.prems by (metis Suc_less_eq add_Suc_shift length_Cons nth_Cons_Suc)
  note Cons.IH [OF this]
  ultimately show ?case by (auto simp: x row_at_def split_beta)
qed simp

lemma export_row_at:
  assumes "plain_inst inst" "hvm inst" "export_at env inst et i (s, ordinal, loc)"
  defines "base \<equiv> w_ntoskrnl (windows_inst inst)"
  shows "\<exists>t1 t2 t3. xa_access_pa env inst (base + et_address_of_names et) PROT_READ = Some (Some t1, inst) \<and>
    xa_access_pa env inst (base + et_address_of_name_ordinals et) PROT_READ = Some (Some t2, inst) \<and>
    xa_access_pa env inst (base + et_address_of_functions et) PROT_READ = Some (Some t3, inst) \<and>
    row_at env inst t1 t2 t3 i (s, ordinal, loc)"
proof -
  have x: "name_at env inst et (of_nat i) s" "unat (base + et_address_of_names et) mod 4096 + i * 4 < 4096"
    "unat (base + et_address_of_name_ordinals et) mod 4096 + i * 2 < 4096"
    "unat (base + et_address_of_functions et) mod 4096 + unat ordinal * 4 < 4096"
    "xa_read_long_phys env inst (base + et_address_of_functions et + of_nat (unat ordinal * 4)) = Some (XA_SUCCESS loc, inst)"
    using assms by (auto simp: export_at_def Let_def)
  obtain w where w: "xa_read_long_phys env inst (base + et_address_of_name_ordinals et + of_nat (i * 2)) = Some (XA_SUCCESS w, inst)"
    "ordinal = ucast w"
    using assms by (auto simp: export_at_def Let_def)
  obtain p where p: "p \<noteq> 0" "read_phys env inst (base + et_address_of_names et + of_nat (i * 4)) 0 = Some (p, inst)"
    "rva_to_string env inst p = Some (Some s, inst)"
    using x(1) by (auto simp: name_at_def base_def)
  then have "xa_read_long_phys env inst (base + et_address_of_names et + of_nat (i * 4)) = Some (XA_SUCCESS p, inst)"
    by (auto simp: read_phys_def out_val_def split: Option.bind_split_asm xa_ret.splits)
  from entry_read [OF assms(1,2) x(2) this] entry_read [OF assms(1,2) x(3) w(1)] entry_read [OF assms(1,2) x(4,5)]
  obtain m1 o1 m2 o2 m3 o3 where
    "xa_access_pa env inst (base + et_address_of_names et) PROT_READ = Some (Some (m1, o1), inst)" "rd32 (map_bytes m1) (unat o1 + i * 4) = Some p"
    "xa_access_pa env inst (base + et_address_of_name_ordinals et) PROT_READ = Some (Some (m2, o2), inst)" "rd32 (map_bytes m2) (unat o2 + i * 2) = Some w"
    "xa_access_pa env inst (base + et_address_of_functions et) PROT_READ = Some (Some (m3, o3), inst)" "rd32 (map_bytes m3) (unat o3 + unat ordinal * 4) = Some loc"
    by blast
  then show ?thesis using p rd16_of_rd32 w(2) by (auto simp: row_at_def)
qed

section \<open>Properties\<close>


text \<open>The kernel image of \<open>Xa_Exports\<close> with the longer name first.\<close>

definition ls_page :: "u8 list" where
  "ls_page = pe_page[352 := 124, 356 := 120]"

definition ls_env :: xa_env where
  "ls_env = flat_env (\<lambda>f. ls_page)"

lemma ls_words:
  "xa_read_long_mach ls_env pe_inst 0x103C = Some (XA_SUCCESS 64)"
  "xa_read_long_mach ls_env pe_inst 0x1160 = Some (XA_SUCCESS 380)"
  "xa_read_long_mach ls_env pe_inst 0x1164 = Some (XA_SUCCESS 376)"
  "xa_read_long_mach ls_env pe_inst 0x1168 = Some (XA_SUCCESS 1)"
  "xa_read_long_mach ls_env pe_inst 0x116A = Some (XA_SUCCESS 0)"
  "xa_read_long_mach ls_env pe_inst 0x1170 = Some (XA_SUCCESS 0x2000)"
  "xa_read_long_mach ls_env pe_inst 0x1174 = Some (XA_SUCCESS 0x3000)"
  by code_simp+

lemma ls_parts:
  "strn_bytes (drop 376 ls_page) 3719 = Some ''Ps''" "strn_bytes (drop 380 ls_page) 3715 = Some ''PsLookup''"
  "copy_export_table ls_page 312 = Some pe_table" "rd32 ls_page 184 = Some 312" "length ls_page = 396"
  by code_simp+

lemma ls_page_access:
  "xa_access_pa ls_env pe_inst a prot = Some (Some (map_page_of prot
    (if drop_bit 12 a = 0 then flat_page else ls_page), 0xFFF AND a), pe_inst)"
  by (simp add: hvm_access_pa ls_env_def flat_access_ma)

lemmas ls_reads = hvm_read_long_phys(1) [OF pe_inst_simps(1,2)] hvm_read_long_phys(2) [OF pe_inst_simps(1,2)]

lemma ls_table: "get_export_table ls_env pe_inst 0x1000 = Some (XA_SUCCESS pe_table, pe_inst)"
proof -
  obtain oh where "copy_optional_header ls_page 88 = Some oh" "dd_virtual_address (oh_idd oh ! 0) = 312"
    by (rule copy_optional_header_export [of 88 ls_page 312]) (simp_all add: ls_parts)
  then show ?thesis
    by (simp add: get_export_table_def ls_reads(2) [OF ls_words(1)] ls_page_access map_page_of_def out_val_def ls_parts)
qed

lemma ls_names:
  "name_at ls_env pe_inst pe_table 0 ''PsLookup''" "name_at ls_env pe_inst pe_table 1 ''Ps''"
  unfolding name_at_def
  by (rule exI [of _ 380], simp add: pe_table_def ls_reads(2) [OF ls_words(2)] rva_to_string_def
        out_val_def ls_page_access map_page_of_def ls_parts)
    (rule exI [of _ 376], simp add: pe_table_def ls_reads(2) [OF ls_words(3)] rva_to_string_def
        out_val_def ls_page_access map_page_of_def ls_parts)

lemma ls_exports:
  "export_at ls_env pe_inst pe_table 0 (''PsLookup'', 1, 0x3000)" "export_at ls_env pe_inst pe_table 1 (''Ps'', 0, 0x2000)"
  using ls_names
  by (simp_all add: export_at_def pe_table_def ls_reads(1) [OF ls_words(4)] ls_reads(1) [OF ls_words(5)]
      ls_reads(1) [OF ls_words(6)] ls_reads(1) [OF ls_words(7)])


end
