(* ===== verification/Xa_Ranges.thy ===== *)
theory Xa_Ranges
  imports Xa_Frame
begin

text \<open>
  What \<open>xa_access_user_va_range\<close> and \<open>xa_access_kernel_va_range\<close> map: which
  frames, in which order, and whether the mapping is long enough for the range asked for.
\<close>

text \<open>The documented behaviour of \<open>xc_map_foreign_batch\<close>: one page for each frame.\<close>

definition batch_maps_pages :: "xa_env \<Rightarrow> bool" where
  "batch_maps_pages env \<longleftrightarrow> (\<forall>d fs bs. xc_map_foreign_batch env d fs = Some bs \<longrightarrow> length bs = 4096 * length fs)"

lemma range_pfns_pages:
  assumes "range_pfns env inst pgd k a = Some (XA_SUCCESS ps)"
  shows "length ps = k \<and> (\<forall>i<k. \<exists>p. xa_pagetable_lookup env inst pgd (a + of_nat i * page_size inst) = Some p \<and>
    ps ! i = drop_bit (unat (page_shift inst)) p)"
  using assms
proof (induction k arbitrary: a ps)
  case (Suc k)
  obtain p qs where p: "xa_pagetable_lookup env inst pgd a = Some p" "a \<noteq> 0"
    "range_pfns env inst pgd k (a + page_size inst) = Some (XA_SUCCESS qs)"
    "ps = drop_bit (unat (page_shift inst)) p # qs"
    using Suc.prems by (auto split: Option.bind_split_asm if_split_asm xa_ret.split_asm)
  note IH = Suc.IH [OF p(3)]
  show ?case
  proof (intro conjI allI impI)
    fix i assume i: "i < Suc k"
    show "\<exists>p. xa_pagetable_lookup env inst pgd (a + of_nat i * page_size inst) = Some p \<and>
      ps ! i = drop_bit (unat (page_shift inst)) p"
    proof (cases i)
      case 0
      then show ?thesis using p(1,4) by simp
    next
      case (Suc j)
      have "a + of_nat i * page_size inst = (a + page_size inst) + of_nat j * page_size inst"
        by (simp add: Suc algebra_simps)
      then show ?thesis using IH [THEN conjunct2, rule_format, of j] i Suc p(4)
        by (simp only: nth_Cons_Suc)
    qed
  qed (use IH p(4) in simp)
qed simp

lemma unat_page_count: "unat ((len :: u32) div 4096 + 1) = unat len div 4096 + 1"
proof -
  have "unat len div 4096 < 1048576" by (simp add: less_mult_imp_div_less)
  then show ?thesis by (subst unat_plus_small) (simp_all add: unat_div_distrib)
qed

lemma unat_page_rest: "unat (v - (v AND NOT (0xFFF :: u32))) = unat v mod 4096"
proof -
  have f: "unat (v AND NOT (0xFFF :: u32)) = unat v div 4096 * 4096"
    unfolding low_masks unat_and_not_mask by simp
  then have "v AND NOT (0xFFF :: u32) \<le> v" unfolding word_le_nat_alt by simp
  then have "unat (v - (v AND NOT 0xFFF)) = unat v - unat v div 4096 * 4096" unfolding f [symmetric] by (rule unat_sub)
  then show ?thesis by (simp only: minus_div_mult_eq_mod)
qed

lemma covers_iff: "v mod 4096 + len \<le> 4096 * (len div 4096 + 1) \<longleftrightarrow> v mod 4096 + len mod 4096 \<le> (4096 :: nat)"
proof -
  have "a + (4096 * q + r) \<le> 4096 * (q + 1) \<longleftrightarrow> a + r \<le> 4096" for a q r :: nat by auto
  from this [of "v mod 4096" "len div 4096" "len mod 4096"] show ?thesis by simp
qed

lemma range_frames:
  assumes "page_size inst = 4096" "page_shift inst = 12"
    and "xa_access_kernel_va_range env inst v len prot = Some (Some (m, off), inst')"
  shows "\<exists>pfns. xc_map_foreign_batch env (domain_id (m_xen inst)) pfns = Some (map_bytes m) \<and>
    length pfns = unat len div 4096 + 1 \<and> unat off = unat v mod 4096 \<and>
    (\<forall>i<length pfns. \<exists>p. xa_translate_kv2p env inst ((v AND NOT 0xFFF) + of_nat i * 4096) = Some p \<and>
       pfns ! i = drop_bit 12 p)"
proof -
  have m1: "page_size inst - 1 = 0xFFF" using assms(1) by simp
  obtain pfns where p: "range_pfns env inst (snd (xa_current_cr3 env inst 0)) (unat (len div 4096 + 1)) (v AND NOT 0xFFF)
      = Some (XA_SUCCESS pfns)" "xc_map_foreign_pages env (domain_id (m_xen inst)) prot pfns = Some m"
      "off = v - (v AND NOT 0xFFF)"
    using assms(3) unfolding xa_access_kernel_va_range_def xa_access_user_va_range_def Let_def m1 assms(1)
    by (auto split: Option.bind_split_asm xa_ret.split_asm)
  have "xc_map_foreign_batch env (domain_id (m_xen inst)) pfns = Some (map_bytes m)"
    using p(2) by (auto simp: xc_map_foreign_pages_def map_page_of_def split: option.split_asm if_split_asm)
  then show ?thesis
    using range_pfns_pages [OF p(1)] assms(1,2) unat_page_rest [of v]
    unfolding unat_page_count p(3) xa_translate_kv2p_def by auto
qed


definition range_env :: xa_env where
  "range_env = (flat_env (\<lambda>f. []))\<lparr>xc_map_foreign_batch := (\<lambda>d fs. Some (replicate (4096 * length fs) 0))\<rparr>"

lemma range_env_lookup:
  assumes "v < 0x400000"
  shows "xa_pagetable_lookup range_env std_inst 0 v = Some v" "xa_current_cr3 range_env std_inst 0 = (XA_SUCCESS (), 0)"
proof -
  have mp: "xa_map_page range_env = xa_map_page (flat_env (\<lambda>f. []))"
    by (intro ext) (simp add: xa_map_page_def xa_map_file_range_def Let_def range_env_def flat_env_def frames_env_def)
  have "xa_pagetable_lookup range_env std_inst = xa_pagetable_lookup (flat_env (\<lambda>f. [])) std_inst"
    by (intro ext, unfold xa_pagetable_lookup_def v2p_nopae_def v2p_pae_def get_pgd_nopae_def get_pte_nopae_def
        get_pdpi_def get_pgd_pae_def get_pte_pae_def xa_read_long_mach_def xa_read_long_long_mach_def xa_access_ma_def
        xa_mmap_mfn_def mp, rule refl)
  then show "xa_pagetable_lookup range_env std_inst 0 v = Some v" using flat_lookup [of std_inst v] assms by simp
  show "xa_current_cr3 range_env std_inst 0 = (XA_SUCCESS (), 0)"
    by (simp add: xa_current_cr3_def range_env_def flat_env_def frames_env_def std_inst_def xa_instance_zero_def)
qed

lemma range_demo:
  "xa_access_kernel_va_range range_env std_inst 0x1FF0 0x20 PROT_READ
    = Some (Some (map_page_of PROT_READ (replicate 4096 0), 0xFF0), std_inst)"
proof -
  have "range_pfns range_env std_inst 0 1 0x1000 = Some (XA_SUCCESS [1])"
    by (simp add: range_env_lookup numeral_eq_Suc [symmetric])
  then show ?thesis
    by (simp add: xa_access_kernel_va_range_def xa_access_user_va_range_def range_env_lookup [of 0]
        xc_map_foreign_pages_def) (simp add: range_env_def flat_env_def frames_env_def)
qed


text \<open>(C35) When the mapping is too short: with one page per frame, the bytes from the returned offset
  hold the whole range exactly when the offset in the first page and the length modulo the page
  size add up to at most one page. The number of pages does not count the offset, so a range that
  runs over one more page boundary is cut off.\<close>

theorem xa_access_kernel_va_range_covers_iff:
  assumes "batch_maps_pages env" "page_size inst = 4096" "page_shift inst = 12"
    and "xa_access_kernel_va_range env inst v len prot = Some (Some (m, off), inst')"
  shows "unat off + unat len \<le> length (map_bytes m) \<longleftrightarrow> unat v mod 4096 + unat len mod 4096 \<le> 4096"
proof -
  obtain pfns where p: "xc_map_foreign_batch env (domain_id (m_xen inst)) pfns = Some (map_bytes m)"
    "length pfns = unat len div 4096 + 1" "unat off = unat v mod 4096"
    using range_frames [OF assms(2-4)] by blast
  have "length (map_bytes m) = 4096 * length pfns" using assms(1) p(1) unfolding batch_maps_pages_def by blast
  then show ?thesis using covers_iff [of "unat v" "unat len"] by (simp only: p(2,3))
qed

theorem xa_access_kernel_va_range_covers_iff_witness:
  "\<not> unat (0xFF0 :: u32) + unat (0x20 :: u32) \<le> length (map_bytes (map_page_of PROT_READ (replicate 4096 0)))"
proof -
  have "batch_maps_pages range_env" by (auto simp: batch_maps_pages_def range_env_def)
  from xa_access_kernel_va_range_covers_iff [OF this _ _ range_demo] show ?thesis by simp
qed

end
