(* ===== verification/Xa_Kernelpd.thy ===== *)
theory Xa_Kernelpd
  imports Xa_Map
begin

text \<open>
  The search for the kernel page directory at the end of \<open>xa_memory.c\<close>: the bit count,
  the score, checksum and self-reference heuristics of one page, and the scan of physical memory
  that filters the candidates. The candidate list ends with a cell whose address is 0, and so does
  every loop over it.
\<close>

section \<open>Heuristics for one page\<close>

text \<open>The masks are the octal constants \<open>033333333333\<close>, \<open>011111111111\<close> and
  \<open>030707070707\<close>.\<close>

definition xa_kernel_pd_bitcount :: "u32 \<Rightarrow> u32" where
  "xa_kernel_pd_bitcount n =
     (let count = n - (drop_bit 1 n AND 0xDB6DB6DB) - (drop_bit 2 n AND 0x49249249)
      in ((count + drop_bit 3 count) AND 0xC71C71C7) mod 63)"

definition xa_kernel_pd_valid_entry :: "u32 \<Rightarrow> u32 \<Rightarrow> bool" where
  "xa_kernel_pd_valid_entry value msize =
     (if value = 0xFFFFFFFF then False
      else if xa_get_bit value 7 then \<not> (msize < value AND 0xFFE00000)
      else \<not> (msize < value AND 0xFFFFF000))"

text \<open>The loop over the entries of a page: the bits that have been 0 and those that have been 1 in
  every non-zero entry so far, and the penalty.\<close>

function score_loop :: "u32 \<Rightarrow> u32 list \<Rightarrow> bool \<Rightarrow> u32 \<Rightarrow> u32 \<Rightarrow> int \<Rightarrow> u32 \<times> u32 \<times> int" where
  "score_loop msize [] started matches0 matches1 correction = (matches0, matches1, correction)"
| "score_loop msize (value # vs) started matches0 matches1 correction =
     (let correction' = (if xa_kernel_pd_valid_entry value msize then correction else correction - 1)
      in if value \<noteq> 0 then
           (if \<not> started then
              (case dropWhile (\<lambda>v. v = 0) vs of
                 [] \<Rightarrow> (matches0, matches1, correction')
               | value2 # rest \<Rightarrow>
                   score_loop msize rest True (NOT value AND NOT value2) (value AND value2) correction')
            else score_loop msize vs True (matches0 AND NOT value) (matches1 AND value) correction')
         else score_loop msize vs started matches0 matches1 correction')"
  by pat_completeness auto
termination
proof (relation "measure (\<lambda>(msize, vs, _). length vs)")
  fix msize v1 :: u32 and vs rest :: "u32 list" and started :: bool and matches0 matches1 value2 :: u32
    and correction x :: int
  assume "dropWhile (\<lambda>v. v = 0) vs = value2 # rest"
  then have "length (value2 # rest) \<le> length vs" by (metis length_dropWhile_le)
  then show "((msize, rest, True, NOT v1 AND NOT value2, v1 AND value2, x),
      msize, v1 # vs, started, matches0, matches1, correction) \<in> measure (\<lambda>(msize, vs, _). length vs)"
    by simp
qed auto

definition xa_kernel_pd_score :: "mapping option \<Rightarrow> u32 \<Rightarrow> u32 \<Rightarrow> int option" where
  "xa_kernel_pd_score memory len msize =
     (case memory of
        None \<Rightarrow> Some 0
      | Some m \<Rightarrow> do {
          vs \<leftarrow> rd_words (map_bytes m) ((unat len + 3) div 4);
          (case score_loop msize vs False 0 0 0 of (matches0, matches1, correction) \<Rightarrow>
             Some (uint (xa_kernel_pd_bitcount matches0) + uint (xa_kernel_pd_bitcount matches1)
               + correction)) })"

definition xa_kernel_pd_checksum :: "xa_instance \<Rightarrow> mapping option \<Rightarrow> u32 option" where
  "xa_kernel_pd_checksum inst memory =
     (case memory of
        None \<Rightarrow> Some 0
      | Some m \<Rightarrow>
          (let start = (if page_offset inst = 0x80000000 then page_size inst div 2
                        else if page_offset inst = 0xc0000000 then 3 * page_size inst div 4
                        else 0)
           in do { vs \<leftarrow> rd_words (drop (unat start) (map_bytes m)) 8; Some (sum_list vs) }))"

definition xa_kernel_pd_selfref :: "xa_instance \<Rightarrow> mapping option \<Rightarrow> u32 \<Rightarrow> nat option" where
  "xa_kernel_pd_selfref inst memory address =
     (case memory of
        None \<Rightarrow> Some 0
      | Some m \<Rightarrow> do {
          vs \<leftarrow> rd_words (map_bytes m) ((unat (page_size inst) + 3) div 4);
          Some (length (filter (\<lambda>v. v \<noteq> 0 \<and> v AND 0xFFFFF000 = address) vs)) })"

section \<open>The scan\<close>

text \<open>The candidates in the order they were added.\<close>

partial_function (option) scan_candidates ::
  "xa_env \<Rightarrow> u32 \<Rightarrow> u32 \<Rightarrow> xa_instance \<Rightarrow> (u32 list \<times> xa_instance) option" where
  "scan_candidates env end address inst =
     (if end \<le> address then Some ([], inst)
      else do {
        (m, inst1) \<leftarrow> xa_access_pa env inst address PROT_READ;
        score \<leftarrow> xa_kernel_pd_score (map_option fst m) (page_size inst1) end;
        (as, inst2) \<leftarrow> scan_candidates env end (address + page_size inst1) inst1;
        Some (if 0 < score then address # as else as, inst2) })"

declare scan_candidates.simps [code]

text \<open>A value computed from the page of every candidate.\<close>

fun map_pages :: "(xa_instance \<Rightarrow> mapping option \<Rightarrow> u32 \<Rightarrow> 'a option) \<Rightarrow> xa_env \<Rightarrow> u32 list \<Rightarrow> xa_instance
    \<Rightarrow> ((u32 \<times> 'a) list \<times> xa_instance) option" where
  "map_pages f env [] inst = Some ([], inst)"
| "map_pages f env (a # as) inst = do {
     (m, inst1) \<leftarrow> xa_access_pa env inst a PROT_READ;
     x \<leftarrow> f inst1 (map_option fst m) a;
     (xs, inst2) \<leftarrow> map_pages f env as inst1;
     Some ((a, x) # xs, inst2) }"

text \<open>\<open>matches\<close> starts at -1 and counts the candidates with the same non-zero checksum.\<close>

definition pd_matches :: "(u32 \<times> u32) list \<Rightarrow> u32 \<times> u32 \<Rightarrow> int" where
  "pd_matches cs c =
     (if snd c = 0 then -1 else int (length (filter (\<lambda>d. snd c = snd d) cs)) - 1)"

text \<open>The list is ended by a cell with address 0, which is only written once a candidate has been
  found: without any, the loops read the address of a cell that \<open>malloc\<close> left
  uninitialised.\<close>

definition xa_find_kernel_pd :: "xa_env \<Rightarrow> xa_instance \<Rightarrow> (u32 \<times> xa_instance) option" where
  "xa_find_kernel_pd env inst =
     (let end = (if mode inst = XA_MODE_XEN then xen_size (m_xen inst)
                 else if mode inst = XA_MODE_FILE then file_size (m_file inst) else 0) in do {
     (all, inst1) \<leftarrow> scan_candidates env end 0 inst;
     _ \<leftarrow> (if all = [] then None else Some ());
     (sums, inst2) \<leftarrow> map_pages (\<lambda>i m a. xa_kernel_pd_checksum i m) env
        (takeWhile (\<lambda>a. a \<noteq> 0) all) inst1;
     let kept = map fst (filter (\<lambda>c. 0 < pd_matches sums c) sums);
     (refs, inst3) \<leftarrow> (if os_type inst2 = XA_OS_WINDOWS
        then map_pages xa_kernel_pd_selfref env kept inst2
        else Some (map (\<lambda>a. (a, 1)) kept, inst2));
     let left = map fst (filter (\<lambda>c. 0 < snd c) refs);
     Some ((case left of [] \<Rightarrow> 0 | a # as \<Rightarrow> a) + page_offset inst3, inst3) })"

section \<open>The bit count\<close>

text \<open>A number by its octal digits, least significant first. The first step of the count replaces
  each digit by the number of bits set in it.\<close>

fun oct :: "nat list \<Rightarrow> nat" where
  "oct [] = 0" | "oct (d # ds) = d + 8 * oct ds"

lemma bit_oct_cons:
  assumes "d < (8::nat)"
  shows "bit (d + 8 * x) k \<longleftrightarrow> (if k < 3 then bit d k else bit x (k - 3))"
proof (cases "k < 3")
  case True
  have "take_bit 3 (d + 8 * x) = take_bit 3 d" by (simp add: take_bit_eq_mod)
  then have "bit (take_bit 3 (d + 8 * x)) k = bit (take_bit 3 d) k" by simp
  then show ?thesis using True by (simp add: bit_take_bit_iff)
next
  case False
  have "drop_bit 3 (d + 8 * x) = x" using assms by (simp add: drop_bit_eq_div)
  then have "bit (drop_bit 3 (d + 8 * x)) (k - 3) = bit x (k - 3)" by simp
  then show ?thesis using False by (simp add: bit_drop_bit_eq)
qed

lemma and_lt8:
  assumes "d < (8::nat)" "m < 8"
  shows "(d AND m) < 8"
proof -
  have "take_bit 3 d = d" "take_bit 3 m = m" using assms by (simp_all add: take_bit_nat_eq_self)
  then have "take_bit 3 (d AND m) = (d AND m)" by (simp add: take_bit_and)
  then show ?thesis using take_bit_nat_less_exp [of 3 "d AND m"] by simp
qed

lemma and_oct_cons:
  assumes "d < (8::nat)" "m < 8"
  shows "(d + 8 * x) AND (m + 8 * y) = (d AND m) + 8 * (x AND y)"
  by (rule bit_eqI) (simp add: bit_and_iff bit_oct_cons assms and_lt8)

lemma octal_digits: "n < 8 ^ k \<Longrightarrow> \<exists>ds. length ds = k \<and> (\<forall>d\<in>set ds. d < 8) \<and> n = oct ds"
proof (induction k arbitrary: n)
  case 0
  then show ?case by simp
next
  case (Suc k)
  then have "n div 8 < 8 ^ k" by (simp add: less_mult_imp_div_less mult.commute)
  from Suc.IH [OF this] obtain ds where "length ds = k" "\<forall>d\<in>set ds. d < 8" "n div 8 = oct ds" by blast
  then show ?case by (intro exI [of _ "n mod 8 # ds"]) (simp, metis mod_mult_div_eq)
qed

lemma digit_cases:
  assumes "d < (8::nat)"
  shows "d \<in> {0, 1, 2, 3, 4, 5, 6, 7}"
  using assms by auto


lemma and_digits:
  assumes "d < (8::nat)"
  shows "(d div 2 + 4 * (b mod 2)) AND 3 = d div 2" "(d div 4 + 2 * (c mod 4)) AND 1 = d div 4"
proof -
  have "(d div 2 + 4 * (b mod 2)) AND mask 2 = (d div 2 + 4 * (b mod 2)) mod 2 ^ 2"
    by (simp only: take_bit_eq_mask [symmetric] take_bit_eq_mod)
  then show "(d div 2 + 4 * (b mod 2)) AND 3 = d div 2" using assms by (simp add: mask_eq_exp_minus_1)
  have "(d div 4 + 2 * (c mod 4)) AND mask 1 = (d div 4 + 2 * (c mod 4)) mod 2 ^ 1"
    by (simp only: take_bit_eq_mask [symmetric] take_bit_eq_mod)
  then show "(d div 4 + 2 * (c mod 4)) AND 1 = d div 4" using assms by (simp add: mask_eq_exp_minus_1)
qed

lemma shift1_oct:
  assumes "\<forall>d\<in>set ds. d < 8"
  shows "oct ds div 2 AND oct (replicate (length ds) 3) = oct (map (\<lambda>d. d div 2) ds)"
  using assms
proof (induction ds)
  case (Cons d ds)
  have s: "(d + 8 * x) div 2 = (d div 2 + 4 * (x mod 2)) + 8 * (x div 2)" for x
  proof -
    have "x = x mod 2 + 2 * (x div 2)" by simp
    then show ?thesis by linarith
  qed
  have "d div 2 + 4 * (oct ds mod 2) < 8" using Cons.prems by auto
  then have "(oct (d # ds)) div 2 AND oct (replicate (length (d # ds)) 3)
    = ((d div 2 + 4 * (oct ds mod 2)) AND 3) + 8 * (oct ds div 2 AND oct (replicate (length ds) 3))"
    by (simp only: oct.simps s length_Cons replicate_Suc) (simp add: and_oct_cons)
  then show ?case using Cons by (simp add: and_digits)
qed simp


lemma shift2_oct:
  assumes "\<forall>d\<in>set ds. d < 8"
  shows "oct ds div 4 AND oct (replicate (length ds) 1) = oct (map (\<lambda>d. d div 4) ds)"
  using assms
proof (induction ds)
  case (Cons d ds)
  have s: "(d + 8 * x) div 4 = (d div 4 + 2 * (x mod 4)) + 8 * (x div 4)" for x
  proof -
    have "x = x mod 4 + 4 * (x div 4)" by simp
    then show ?thesis by linarith
  qed
  have "d div 4 + 2 * (oct ds mod 4) < 8" using Cons.prems by auto
  then have "(oct (d # ds)) div 4 AND oct (replicate (length (d # ds)) 1)
    = ((d div 4 + 2 * (oct ds mod 4)) AND 1) + 8 * (oct ds div 4 AND oct (replicate (length ds) 1))"
    unfolding oct.simps s length_Cons replicate_Suc by (rule and_oct_cons) simp
  also have "(d div 4 + 2 * (oct ds mod 4)) AND 1 = d div 4" using Cons.prems by (intro and_digits) simp
  finally show ?case using Cons by simp
qed simp

definition oct_bits :: "nat \<Rightarrow> nat" where
  "oct_bits d = d - d div 2 - d div 4"

lemma oct_count:
  "oct ds = oct (map oct_bits ds) + oct (map (\<lambda>d. d div 2) ds) + oct (map (\<lambda>d. d div 4) ds)"
proof (induction ds)
  case (Cons d ds)
  have "d = oct_bits d + d div 2 + d div 4" unfolding oct_bits_def by linarith
  then show ?case unfolding list.map oct.simps using Cons.IH by linarith
qed simp

lemma length_filter_bits:
  assumes "d < 8"
  shows "length (filter (bit (d + 8 * x)) [0..<3 + k]) = oct_bits d + length (filter (bit x) [0..<k])"
proof -
  have u: "[0..<3 + k] = [0, 1, 2] @ map (\<lambda>i. i + 3) [0..<k]"
  proof -
    have "[0..<3 + k] = [0..<3] @ [3..<3 + k]" by (rule upt_add_eq_append) simp
    moreover have "map (\<lambda>i. i + 3) [0..<k] = [3..<3 + k]" by (simp only: map_add_upt add.commute)
    moreover have "[0..<3] = [0, 1, 2::nat]" by code_simp
    ultimately show ?thesis by simp
  qed
  have f: "filter (bit (d + 8 * x)) (map (\<lambda>i. i + 3) [0..<k]) = map (\<lambda>i. i + 3) (filter (bit x) [0..<k])"
    by (simp add: filter_map comp_def bit_oct_cons [OF assms])
  have "filter (bit (d + 8 * x)) [0, 1, 2] = filter (bit d) [0, 1, 2]"
    by (rule filter_cong [OF refl], subst bit_oct_cons [OF assms]) auto
  then have "length (filter (bit (d + 8 * x)) [0, 1, 2]) = oct_bits d"
    using digit_cases [OF assms] by (auto simp: oct_bits_def bit_iff_odd)
  then show ?thesis unfolding u filter_append f by simp
qed


lemma filter_bits_oct:
  "\<forall>d\<in>set ds. d < 8 \<Longrightarrow>
    length (filter (bit (oct ds)) [0..<3 * length ds]) = sum_list (map oct_bits ds)"
proof (induction ds)
  case (Cons d ds)
  have "length (filter (bit (d + 8 * oct ds)) [0..<3 + 3 * length ds])
      = oct_bits d + length (filter (bit (oct ds)) [0..<3 * length ds])"
    by (rule length_filter_bits) (use Cons.prems in simp)
  with Cons show ?case by (simp add: add.commute)
qed simp

text \<open>The second step, on the eleven digits.\<close>

lemma fold_pairs:
  fixes c0 c1 c2 c3 c4 c5 c6 c7 c8 c9 c10 :: nat
  assumes "c0 \<le> 3" "c1 \<le> 3" "c2 \<le> 3" "c3 \<le> 3" "c4 \<le> 3" "c5 \<le> 3" "c6 \<le> 3" "c7 \<le> 3"
    "c8 \<le> 3" "c9 \<le> 3" "c10 \<le> 2"
  shows "((oct [c0, c1, c2, c3, c4, c5, c6, c7, c8, c9, c10]
      + oct [c0, c1, c2, c3, c4, c5, c6, c7, c8, c9, c10] div 8) AND oct [7, 0, 7, 0, 7, 0, 7, 0, 7, 0, 3]) mod 63
    = c0 + c1 + c2 + c3 + c4 + c5 + c6 + c7 + c8 + c9 + c10"
proof -
  have d: "oct [c0, c1, c2, c3, c4, c5, c6, c7, c8, c9, c10] div 8 = oct [c1, c2, c3, c4, c5, c6, c7, c8, c9, c10]"
    using assms by (simp only: oct.simps) simp
  have s: "oct [c0, c1, c2, c3, c4, c5, c6, c7, c8, c9, c10] + oct [c1, c2, c3, c4, c5, c6, c7, c8, c9, c10]
    = oct [c0 + c1, c1 + c2, c2 + c3, c3 + c4, c4 + c5, c5 + c6, c6 + c7, c7 + c8, c8 + c9, c9 + c10, c10]"
    by simp
  have k: "x AND 7 = x" if "x < 8" for x :: nat
    using that take_bit_nat_eq_self [of x 3] by (simp add: take_bit_eq_mask mask_eq_exp_minus_1)
  have k3: "x AND 3 = x" if "x < 4" for x :: nat
    using that take_bit_nat_eq_self [of x 2] by (simp add: take_bit_eq_mask mask_eq_exp_minus_1)
  have m: "oct [c0 + c1, c1 + c2, c2 + c3, c3 + c4, c4 + c5, c5 + c6, c6 + c7, c7 + c8, c8 + c9, c9 + c10, c10]
      AND oct [7, 0, 7, 0, 7, 0, 7, 0, 7, 0, 3]
    = oct [c0 + c1, 0, c2 + c3, 0, c4 + c5, 0, c6 + c7, 0, c8 + c9, 0, c10]"
    using assms by (simp only: oct.simps and_oct_cons k k3 and_zero_eq add_0_right mult_0_right)
  have e: "oct [c0 + c1, 0, c2 + c3, 0, c4 + c5, 0, c6 + c7, 0, c8 + c9, 0, c10]
    = (c0 + c1 + c2 + c3 + c4 + c5 + c6 + c7 + c8 + c9 + c10) + 63 * ((c2 + c3) + 65 * (c4 + c5)
      + 4161 * (c6 + c7) + 266305 * (c8 + c9) + 17043521 * c10)"
    by simp
  show ?thesis unfolding d s m e mod_mult_self2 using assms by (intro mod_less) simp
qed


lemma oct_bits_le: "d < 8 \<Longrightarrow> oct_bits d \<le> 3" "d < 4 \<Longrightarrow> oct_bits d \<le> 2"
  by (auto simp: oct_bits_def)

lemma oct_masks:
  "oct (replicate 11 3) = 0xDB6DB6DB" "oct (replicate 11 1) = 0x49249249"
  "oct [7, 0, 7, 0, 7, 0, 7, 0, 7, 0, 3] = 0xC71C71C7"
proof -
  have r: "replicate 11 x = [x, x, x, x, x, x, x, x, x, x, x]" for x :: nat
    by (simp add: numeral_eq_Suc)
  show "oct (replicate 11 3) = 0xDB6DB6DB" "oct (replicate 11 1) = 0x49249249"
    "oct [7, 0, 7, 0, 7, 0, 7, 0, 7, 0, 3] = 0xC71C71C7"
    unfolding r by simp_all
qed

lemma unat_plus_shift3:
  fixes c :: u32
  assumes "unat c = x" "x + x div 8 < 2 ^ 32"
  shows "unat (c + drop_bit 3 c) = x + x div 8"
  using assms by (subst unat_plus_small) (simp_all add: unat_drop_bit)

lemma and32: "unat (x AND y) = (unat x AND unat (y :: u32))"
  by (rule unsigned_and_eq)

lemma xa_kernel_pd_bitcount_nat:
  fixes n :: u32
  assumes n: "unat n = oct ds" "length ds = 11" "\<forall>d\<in>set ds. d < 8"
    and c: "oct (map oct_bits ds) + oct (map oct_bits ds) div 8 < 2 ^ 32"
  shows "unat (xa_kernel_pd_bitcount n) = ((oct (map oct_bits ds) + oct (map oct_bits ds) div 8)
    AND oct [7, 0, 7, 0, 7, 0, 7, 0, 7, 0, 3]) mod 63"
proof -
  let ?a = "drop_bit 1 n AND 0xDB6DB6DB" and ?b = "drop_bit 2 n AND 0x49249249"
  have a: "unat ?a = oct (map (\<lambda>d. d div 2) ds)"
    using shift1_oct [OF n(3)] unfolding n(2) oct_masks by (simp add: and32 unat_drop_bit n(1))
  have b: "unat ?b = oct (map (\<lambda>d. d div 4) ds)"
    using shift2_oct [OF n(3)] unfolding n(2) oct_masks by (simp add: and32 unat_drop_bit n(1))
  have "unat n - unat ?a - unat ?b = oct (map oct_bits ds)" "unat ?a \<le> unat n" "unat ?b \<le> unat n - unat ?a"
    unfolding a b n(1) using oct_count [of ds] by simp_all
  then have count: "unat (n - ?a - ?b) = oct (map oct_bits ds)"
    by (simp add: unat_sub word_le_nat_alt)
  have "unat ((n - ?a - ?b) + drop_bit 3 (n - ?a - ?b)) = oct (map oct_bits ds) + oct (map oct_bits ds) div 8"
    by (rule unat_plus_shift3 [OF count c])
  then show ?thesis unfolding xa_kernel_pd_bitcount_def Let_def oct_masks
    by (simp add: unat_mod and32)
qed

text \<open>The HAKMEM bit count is the number of bits set in the word.\<close>

theorem xa_kernel_pd_bitcount_correct:
  "unat (xa_kernel_pd_bitcount n) = length (filter (bit n) [0..<32])"
proof -
  have "unat n < 8 ^ 11" by (rule less_trans [OF unat_bound32]) simp
  then obtain ds where ds: "length ds = 11" "\<forall>d\<in>set ds. d < 8" "unat n = oct ds"
    using octal_digits by blast
  obtain d0 d1 d2 d3 d4 d5 d6 d7 d8 d9 d10 where
    l: "ds = [d0, d1, d2, d3, d4, d5, d6, d7, d8, d9, d10]"
    using ds(1) by (auto simp: numeral_eq_Suc length_Suc_conv)
  have top: "d10 < 4" using ds(3) unat_bound32 [of n] unfolding l by simp
  have le: "oct_bits d0 \<le> 3" "oct_bits d1 \<le> 3" "oct_bits d2 \<le> 3" "oct_bits d3 \<le> 3" "oct_bits d4 \<le> 3"
    "oct_bits d5 \<le> 3" "oct_bits d6 \<le> 3" "oct_bits d7 \<le> 3" "oct_bits d8 \<le> 3" "oct_bits d9 \<le> 3"
    "oct_bits d10 \<le> 2"
    using ds(2) top unfolding l by (simp_all add: oct_bits_le)
  have "oct (map oct_bits ds) + oct (map oct_bits ds) div 8 < 2 ^ 32"
    using le unfolding l by simp
  then have "unat (xa_kernel_pd_bitcount n) = sum_list (map oct_bits ds)"
    using fold_pairs [OF le] xa_kernel_pd_bitcount_nat [OF ds(3,1,2)] unfolding l by simp
  also have "\<dots> = length (filter (bit (oct ds)) [0..<33])"
    using filter_bits_oct [OF ds(2)] unfolding ds(1) by simp
  also have "filter (bit (oct ds)) [0..<33] = filter (bit n) [0..<32]"
  proof -
    have "bit (oct ds) = bit n" unfolding ds(3) [symmetric] by (rule ext) (simp add: bit_unsigned_iff)
    moreover have "[0..<33] = [0..<32] @ [32::nat]" by (rule upt_Suc_append [of 0 32, simplified])
    ultimately show ?thesis by (simp only: filter_append) (simp add: impossible_bit)
  qed
  finally show ?thesis .
qed

end
