(* ===== verification/Xa_Dump.thy ===== *)
theory Xa_Dump
  imports Xa_Core Xa_P2m
begin

text \<open>
  \<open>examples/dump-memory.c\<close>: writing the physical memory of a guest to an image file, and
  what a reader of the image sees. The lemmas join the two modes of the library: accesses to the image in
  file mode answer as accesses to the running guest did.
\<close>

section \<open>Writing the image\<close>

text \<open>\<open>fwrite out page\<close> is the number of bytes that \<open>fwrite\<close> stores when the file
  already holds \<open>out\<close>. A page that could not be mapped is written as zeros.\<close>

definition image_page :: "u32 \<Rightarrow> (mapping \<times> u32) option \<Rightarrow> u8 list option" where
  "image_page psize m = (case m of
       Some (memory, offset) \<Rightarrow>
         if length (map_bytes memory) < unat psize then None else Some (take (unat psize) (map_bytes memory))
     | None \<Rightarrow> Some (replicate (unat psize) 0))"

partial_function (option) dump_pages ::
  "xa_env \<Rightarrow> (u8 list \<Rightarrow> u8 list \<Rightarrow> nat) \<Rightarrow> u32 \<Rightarrow> u8 list \<Rightarrow> xa_instance \<Rightarrow> (u8 list \<times> xa_instance) option" where
  "dump_pages env fwrite address out inst =
     (if address < xen_size (m_xen inst) then do {
        (m, inst1) \<leftarrow> xa_access_pa env inst address PROT_READ;
        page \<leftarrow> image_page (page_size inst1) m;
        if fwrite out page \<noteq> unat (page_size inst1) then Some (out @ take (fwrite out page) page, inst1)
        else dump_pages env fwrite (address + page_size inst1) (out @ page) inst1 }
      else Some (out, inst))"

declare dump_pages.simps [code]

text \<open>The program: \<open>None\<close> for the file when it was not opened.\<close>

definition dump_memory_main ::
  "xa_env \<Rightarrow> (string \<Rightarrow> bool) \<Rightarrow> (u8 list \<Rightarrow> u8 list \<Rightarrow> nat) \<Rightarrow> string \<Rightarrow> string \<Rightarrow> (string \<times> u8 list) option option" where
  "dump_memory_main env fopen_w fwrite arg1 arg2 =
     (let dom = (word_of_int (strtol10 arg1) :: u32); filename = strndup arg2 50 in do {
     (ok, xai) \<leftarrow> xa_init_vm_id_lax env dom;
     (file, xai1) \<leftarrow>
       (if \<not> ok \<or> \<not> fopen_w filename then Some (None, xai)
        else do {
          (out, xai1) \<leftarrow> dump_pages env fwrite 0 [] xai;
          Some (Some (filename, out), xai1) });
     (r, xai2) \<leftarrow> xa_destroy env xai1;
     Some file })"

section \<open>The image holds the memory\<close>

text \<open>The bytes of page number \<open>k\<close> as the running guest shows them.\<close>

definition live_page :: "xa_env \<Rightarrow> xa_instance \<Rightarrow> nat \<Rightarrow> u8 list option" where
  "live_page env inst k = do {
     (m, i) \<leftarrow> xa_access_pa env inst (of_nat (4096 * k)) PROT_READ;
     Some (case m of Some (memory, offset) \<Rightarrow> map_bytes memory | None \<Rightarrow> replicate 4096 0) }"

lemma unat_of_nat32: "n < 2 ^ 32 \<Longrightarrow> unat (of_nat n :: u32) = n"
  by (simp add: unat_of_nat)

lemma full_same_frames: "same_frames env inst inst' \<Longrightarrow> full_pages env inst' = full_pages env inst"
  by (simp add: full_pages_def same_frames_map)

lemma access_pa_full:
  assumes "full_pages env inst" "xa_access_pa env inst a prot = Some (Some (m, off), inst')"
  shows "length (map_bytes m) = 4096"
proof -
  have s: "same_frames env inst inst'" using assms(2) by (rule access_pa_same_frames)
  obtain f where "xa_map_page env inst' prot f = Some m"
    using assms(2) by (auto simp: xa_access_pa_def xa_mmap_pfn_def Let_def split: Option.bind_split_asm if_split_asm)
  then show ?thesis using assms(1) same_frames_map [OF s] unfolding full_pages_def by metis
qed

lemma access_pa_prot:
  "xa_access_pa env inst a prot = Some (Some (m, off), inst') \<Longrightarrow> map_page_of prot (map_bytes m) = m"
  by (auto simp: xa_access_pa_def xa_mmap_pfn_def xa_map_page_def xa_map_file_range_def map_page_of_def Let_def
      split: Option.bind_split_asm if_split_asm)

lemma live_page_step:
  assumes "std_pages inst" "full_pages env inst" "live_page env inst k = Some p"
  obtains m inst1 where "xa_access_pa env inst (of_nat (4096 * k)) PROT_READ = Some (m, inst1)"
    "image_page (page_size inst1) m = Some p" "same_frames env inst inst1" "length p = 4096"
proof -
  from assms(3) obtain m inst1 where a: "xa_access_pa env inst (of_nat (4096 * k)) PROT_READ = Some (m, inst1)"
    and p: "p = (case m of Some (memory, offset) \<Rightarrow> map_bytes memory | None \<Rightarrow> replicate 4096 0)"
    by (auto simp: live_page_def split: Option.bind_split_asm)
  have s: "same_frames env inst inst1" using a by (rule access_pa_same_frames)
  have ps: "page_size inst1 = 4096" using same_frames_fields [OF s] assms(1) by (simp add: std_pages_def)
  have "image_page (page_size inst1) m = Some p \<and> length p = 4096"
  proof (cases m)
    case None
    then show ?thesis using p ps by (simp add: image_page_def)
  next
    case (Some mo)
    obtain me off where mo: "mo = (me, off)" by (cases mo)
    then have "length (map_bytes me) = 4096" using access_pa_full [OF assms(2)] a Some by blast
    then show ?thesis using p ps Some mo by (simp add: image_page_def)
  qed
  then show thesis using that a s by blast
qed

lemma live_page_same: "same_frames env inst inst' \<Longrightarrow> live_page env inst' k = live_page env inst k"
proof -
  assume s: "same_frames env inst inst'"
  have "live_page env i k = map_option (\<lambda>m. case m of Some (memory, offset) \<Rightarrow> map_bytes memory | None \<Rightarrow> replicate 4096 0)
      (map_option fst (xa_access_pa env i (of_nat (4096 * k)) PROT_READ))" for i
    by (cases "xa_access_pa env i (of_nat (4096 * k)) PROT_READ") (auto simp: live_page_def)
  then show ?thesis using same_frames_access_pa [OF s] by simp
qed

text \<open>The loop from page \<open>k\<close> on, when \<open>n\<close> pages are left.\<close>

lemma dump_pages_from:
  assumes "std_pages inst" "full_pages env inst" "\<forall>out page. fwrite out page = length page"
    and "xen_size (m_xen inst) = of_nat (4096 * (k + n))" "4096 * (k + n) < 2 ^ 32"
    and "\<forall>j<k + n. live_page env inst j \<noteq> None"
  shows "\<exists>inst'. dump_pages env fwrite (of_nat (4096 * k)) out inst =
      Some (out @ concat (map (the \<circ> live_page env inst) [k..<k + n]), inst')"
  using assms
proof (induction n arbitrary: k out inst)
  case 0
  then show ?case by (subst dump_pages.simps) simp
next
  case (Suc n)
  obtain p where p: "live_page env inst k = Some p" using Suc.prems(6) by force
  from live_page_step [OF Suc.prems(1,2) p] obtain m inst1 where
    m: "xa_access_pa env inst (of_nat (4096 * k)) PROT_READ = Some (m, inst1)"
      "image_page (page_size inst1) m = Some p" "same_frames env inst inst1" "length p = 4096" .
  note f = same_frames_fields [OF m(3)]
  have std: "std_pages inst1" using Suc.prems(1) f by (simp add: std_pages_def)
  have "4096 * k < 2 ^ 32" "4096 * k < 4096 * (k + Suc n)" using Suc.prems(5) by simp_all
  then have less: "(of_nat (4096 * k) :: u32) < xen_size (m_xen inst)"
    unfolding Suc.prems(4) word_less_nat_alt using Suc.prems(5) by (simp only: unat_of_nat32)
  have next_addr: "of_nat (4096 * k) + page_size inst1 = (of_nat (4096 * Suc k) :: u32)"
    using std by (simp add: std_pages_def)
  have live: "live_page env inst1 = live_page env inst" using live_page_same [OF m(3)] by auto
  have full: "full_pages env inst1" using Suc.prems(2) full_same_frames [OF m(3)] by simp
  have size: "xen_size (m_xen inst1) = of_nat (4096 * (Suc k + n))" using Suc.prems(4) f by simp
  have small: "4096 * (Suc k + n) < 2 ^ 32" using Suc.prems(5) by simp
  have pages: "\<forall>j<Suc k + n. live_page env inst1 j \<noteq> None" using Suc.prems(6) live by simp
  obtain inst' where "dump_pages env fwrite (of_nat (4096 * Suc k)) (out @ p) inst1 =
      Some ((out @ p) @ concat (map (the \<circ> live_page env inst1) [Suc k..<Suc k + n]), inst')"
    using Suc.IH [OF std full Suc.prems(3) size small pages] by blast
  then have "dump_pages env fwrite (of_nat (4096 * k)) out inst =
      Some ((out @ p) @ concat (map (the \<circ> live_page env inst) [Suc k..<Suc k + n]), inst')"
    using less m std Suc.prems(3) live unfolding next_addr [symmetric]
    by (subst dump_pages.simps) (simp add: std_pages_def)
  moreover have "[k..<k + Suc n] = k # [Suc k..<Suc k + n]" by (simp add: upt_rec)
  ultimately show ?case using p by (simp add: comp_def del: upt_Suc)
qed

section \<open>Reading the image\<close>

text \<open>An instance in file mode over the image \<open>img\<close>, with an \<open>mmap\<close> that maps
  the bytes of the file.\<close>

definition reads_image :: "xa_env \<Rightarrow> xa_instance \<Rightarrow> u8 list \<Rightarrow> bool" where
  "reads_image env inst img \<longleftrightarrow> mode inst = XA_MODE_FILE \<and> std_pages inst \<and>
     file_size (m_file inst) = of_nat (length img) \<and>
     (\<forall>p. mmap_file env p = Some (take 4096 (drop (unat p) img)))"

lemma page_start: "push_bit 12 (drop_bit 12 (a :: u32)) = of_nat (4096 * (unat a div 4096))"
proof -
  have "push_bit 12 (drop_bit 12 a) = a AND NOT (mask 12)"
    by (rule bit_eqI) (auto simp: bit_simps)
  then have "unat (push_bit 12 (drop_bit 12 a)) = 4096 * (unat a div 4096)"
    by (simp add: unat_and_not_mask)
  then have "(of_nat (unat (push_bit 12 (drop_bit 12 a))) :: u32) = of_nat (4096 * (unat a div 4096))" by (rule arg_cong)
  then show ?thesis by (simp only: of_nat_unat ucast_id)
qed

lemma drop12_not_minus1: "drop_bit 12 (a :: u32) \<noteq> -1"
proof
  assume "drop_bit 12 a = -1"
  then have "unat (drop_bit 12 a) = 4294967295" by (simp add: unsigned_minus_1_eq_mask mask_eq_exp_minus_1)
  moreover have "unat a div 4096 < 2 ^ 20" using unat_bound32 [of a] by (intro less_mult_imp_div_less) simp
  ultimately show False by (simp add: unat_drop_bit)
qed

lemma image_access:
  assumes "reads_image env inst img" "length img < 2 ^ 32" "unat a < length img"
  shows "xa_access_pa env inst a prot =
    Some (Some (map_page_of prot (take 4096 (drop (4096 * (unat a div 4096)) img)), a AND 0xFFF), inst)"
proof -
  have "4096 * (unat a div 4096) \<le> unat a" by simp
  then have lt: "4096 * (unat a div 4096) < length img" "4096 * (unat a div 4096) < 2 ^ 32"
    using assms(2,3) by simp_all
  then have "\<not> of_nat (length img) \<le> (of_nat (4096 * (unat a div 4096)) :: u32)"
    unfolding word_le_nat_alt using assms(2) by (simp only: unat_of_nat32 not_le)
  moreover have "mmap_file env (of_nat (4096 * (unat a div 4096))) = Some (take 4096 (drop (4096 * (unat a div 4096)) img))"
    using assms(1) lt(2) by (simp only: reads_image_def unat_of_nat32)
  ultimately show ?thesis using assms(1) drop12_not_minus1 [of a]
    by (simp add: reads_image_def std_pages_def xa_access_pa_def xa_mmap_pfn_def xa_map_page_def xa_map_file_range_def
        page_start and.commute)
qed

lemma length_concat_pages: "\<forall>p\<in>set ps. length p = c \<Longrightarrow> length (concat ps) = c * length ps"
  by (induction ps) auto

lemma drop_concat_pages:
  assumes "\<forall>p\<in>set ps. length p = 4096" "k < length ps"
  shows "take 4096 (drop (4096 * k) (concat ps)) = ps ! k"
  using assms by (induction ps arbitrary: k) (auto simp: nth_Cons split: nat.splits)

lemma access_pa_of_page:
  assumes "std_pages inst"
  shows "xa_access_pa env inst a prot = map_option (\<lambda>(m, i). (map_option (\<lambda>(me, off). (me, a AND 0xFFF)) m, i))
    (xa_access_pa env inst (of_nat (4096 * (unat a div 4096))) prot)"
proof -
  have "drop_bit 12 (of_nat (4096 * (unat a div 4096)) :: u32) = drop_bit 12 a"
    unfolding page_start [symmetric] by (rule bit_eqI) (auto simp: bit_simps dest: bit_imp_le_length)
  then show ?thesis using assms
    by (cases "xa_mmap_pfn env inst prot (drop_bit 12 a)")
      (auto simp: xa_access_pa_def std_pages_def option.map_comp comp_def and.commute)
qed

section \<open>Properties\<close>

text \<open>(C11) A memory image stands for the guest: when every page of a guest can be asked for and every
  write succeeds, the loop of \<open>dump-memory\<close> ends, the image has the size of the memory, and
  whoever opens it in file mode gets for every physical address the page and the offset that the
  running guest showed, or zeros where the guest had no page.\<close>

theorem dump_image_faithful:
  assumes "std_pages inst" "full_pages env inst" "\<forall>out page. fwrite out page = length page"
    and "xen_size (m_xen inst) = of_nat (4096 * n)" "4096 * n < 2 ^ 32"
    and "\<forall>j<n. xa_access_pa env inst (of_nat (4096 * j)) PROT_READ \<noteq> None"
  shows "\<exists>img inst'. dump_pages env fwrite 0 [] inst = Some (img, inst') \<and> length img = 4096 * n \<and>
    (\<forall>env' finst a. reads_image env' finst img \<and> unat a < 4096 * n \<longrightarrow>
      map_option fst (xa_access_pa env' finst a PROT_READ) =
        map_option (\<lambda>(m, i). Some (case m of Some m \<Rightarrow> m | None \<Rightarrow> (map_page_of PROT_READ (replicate 4096 0), a AND 0xFFF)))
          (xa_access_pa env inst a PROT_READ))"
proof -
  let ?img = "concat (map (the \<circ> live_page env inst) [0..<n])"
  have live: "\<forall>j<n. live_page env inst j \<noteq> None" using assms(6) by (auto simp: live_page_def)
  obtain inst' where d: "dump_pages env fwrite 0 [] inst = Some (?img, inst')"
    using dump_pages_from [of inst env fwrite 0 n "[]"] assms live by auto
  have "length (the (live_page env inst j)) = 4096" if "j < n" for j
    using live that live_page_step [OF assms(1,2)] by (metis option.exhaust_sel)
  then have full: "\<forall>p\<in>set (map (the \<circ> live_page env inst) [0..<n]). length p = 4096" by auto
  have len: "length ?img = 4096 * n" using length_concat_pages [OF full] by simp
  have "map_option fst (xa_access_pa env' finst a PROT_READ) =
        map_option (\<lambda>(m, i). Some (case m of Some m \<Rightarrow> m | None \<Rightarrow> (map_page_of PROT_READ (replicate 4096 0), a AND 0xFFF)))
          (xa_access_pa env inst a PROT_READ)" if "reads_image env' finst ?img" "unat a < 4096 * n" for env' finst a
  proof -
    let ?k = "unat a div 4096"
    have k: "?k < n" using that(2) by (simp add: less_mult_imp_div_less mult.commute)
    obtain m i where a: "xa_access_pa env inst (of_nat (4096 * ?k)) PROT_READ = Some (m, i)" using assms(6) k by auto
    have "xa_access_pa env' finst a PROT_READ = Some (Some (map_page_of PROT_READ (the (live_page env inst ?k)), a AND 0xFFF), finst)"
      using image_access [OF that(1)] drop_concat_pages [OF full, of ?k] k that(2) assms(5) by (simp add: len)
    then show ?thesis using a access_pa_of_page [OF assms(1), of env a PROT_READ]
      by (auto simp: live_page_def access_pa_prot split: option.splits)
  qed
  then show ?thesis using d len by blast
qed

text \<open>A guest of two pages, of which only the first can be mapped.\<close>

definition two_page_env :: xa_env where
  "two_page_env = frames_env (\<lambda>f. if f = 0 then Some (chain_page 0) else None)"

definition two_page_inst :: xa_instance where
  "two_page_inst = std_inst\<lparr>hvm := True, m_xen := (m_xen std_inst)\<lparr>xen_size := 8192\<rparr>\<rparr>"

lemma two_page_access:
  "xa_access_pa two_page_env two_page_inst a prot =
     Some (if drop_bit 12 a = 0 then Some (map_page_of prot (chain_page 0), a AND 0xFFF) else None, two_page_inst)"
  using drop12_not_minus1 [of a]
  by (simp add: two_page_env_def two_page_inst_def frames_env_def std_inst_def xa_instance_zero_def xa_access_pa_def
      xa_mmap_pfn_def helper_pfn_to_mfn_def xa_map_page_def and.commute)

definition image_inst :: xa_instance where
  "image_inst = std_inst\<lparr>mode := XA_MODE_FILE, m_file := \<lparr>fhandle = ''image'', file_size = 8192\<rparr>\<rparr>"

definition image_env :: "u8 list \<Rightarrow> xa_env" where
  "image_env img = no_env\<lparr>mmap_file := (\<lambda>p. Some (take 4096 (drop (unat p) img)))\<rparr>"

lemma reads_image_demo: "length img = 8192 \<Longrightarrow> reads_image (image_env img) image_inst img"
  by (simp add: reads_image_def image_env_def image_inst_def std_pages_def)

theorem dump_image_faithful_witness:
  "\<exists>img inst'. dump_pages two_page_env (\<lambda>out page. length page) 0 [] two_page_inst = Some (img, inst') \<and>
    map_option fst (xa_access_pa (image_env img) image_inst 8 PROT_READ) = Some (Some (map_page_of PROT_READ (chain_page 0), 8)) \<and>
    map_option fst (xa_access_pa (image_env img) image_inst 0x1008 PROT_READ) = Some (Some (map_page_of PROT_READ (replicate 4096 0), 8))"
proof -
  have "std_pages two_page_inst" "full_pages two_page_env two_page_inst" "xen_size (m_xen two_page_inst) = of_nat (4096 * 2)"
    by (auto simp: std_pages_def full_pages_def two_page_inst_def two_page_env_def frames_env_def std_inst_def
        xa_instance_zero_def xa_map_page_def map_page_of_def split: if_split_asm)
  from dump_image_faithful [OF this(1,2) _ this(3), of "\<lambda>out page. length page"] obtain img inst' where
    d: "dump_pages two_page_env (\<lambda>out page. length page) 0 [] two_page_inst = Some (img, inst')" "length img = 8192"
    and r: "\<And>env' finst a. reads_image env' finst img \<Longrightarrow> unat a < 8192 \<Longrightarrow>
      map_option fst (xa_access_pa env' finst a PROT_READ) =
        map_option (\<lambda>(m, i). Some (case m of Some m \<Rightarrow> m | None \<Rightarrow> (map_page_of PROT_READ (replicate 4096 0), a AND 0xFFF)))
          (xa_access_pa two_page_env two_page_inst a PROT_READ)"
    by (auto simp: two_page_access)
  show ?thesis using d(1) r [OF reads_image_demo [OF d(2)], of 8] r [OF reads_image_demo [OF d(2)], of "0x1008"]
    by (auto simp: two_page_access)
qed

end
