(* ===== verification/Xa_Pdsearch.thy ===== *)
theory Xa_Pdsearch
  imports Xa_Kernelpd Xa_Dump
begin

text \<open>
  What the search for the kernel page directory finds: \<open>xa_find_kernel_pd\<close> scans memory three times,
  and each pass sees the same pages. Its list of candidates is the list of the pages with a positive score;
  the page it returns is the lowest of those that share the sum of their first kernel entries with another
  candidate and, for a Windows guest, refer to themselves.
\<close>

section \<open>The pages of the guest\<close>

definition page_addr :: "nat \<Rightarrow> u32" where
  "page_addr k = of_nat (4096 * k)"

definition guest_page :: "xa_env \<Rightarrow> xa_instance \<Rightarrow> nat \<Rightarrow> mapping option" where
  "guest_page env inst k = (case xa_access_pa env inst (page_addr k) PROT_READ of
     Some (Some (m, off), i) \<Rightarrow> Some m | _ \<Rightarrow> None)"

text \<open>Pages have 4096 bytes and each of the first \<open>n\<close> can be asked for.\<close>

definition scannable_pages :: "xa_env \<Rightarrow> xa_instance \<Rightarrow> nat \<Rightarrow> bool" where
  "scannable_pages env inst n \<longleftrightarrow> std_pages inst \<and> full_pages env inst \<and>
     (\<forall>k<n. xa_access_pa env inst (page_addr k) PROT_READ \<noteq> None)"

lemma scannable_page:
  assumes "scannable_pages env inst n" "same_frames env inst i" "k < n"
  obtains r i' where "xa_access_pa env i (page_addr k) PROT_READ = Some (r, i')" "map_option fst r = guest_page env inst k"
    "same_frames env inst i'"
proof -
  have e: "map_option fst (xa_access_pa env i (page_addr k) PROT_READ) = map_option fst (xa_access_pa env inst (page_addr k) PROT_READ)"
    using assms(2) by (rule same_frames_access_pa)
  obtain r j where j: "xa_access_pa env inst (page_addr k) PROT_READ = Some (r, j)"
    using assms(1,3) unfolding scannable_pages_def by (metis not_None_eq surj_pair)
  then obtain i' where i: "xa_access_pa env i (page_addr k) PROT_READ = Some (r, i')" using e by auto
  moreover have "map_option fst r = guest_page env inst k" using j by (auto simp: guest_page_def split: option.split)
  moreover have "same_frames env inst i'" using same_frames_trans [OF assms(2) access_pa_same_frames [OF i]] .
  ultimately show thesis using that by blast
qed

lemma guest_page_full:
  assumes "scannable_pages env inst n" "guest_page env inst k = Some m"
  shows "length (map_bytes m) = 4096"
proof -
  obtain off i where "xa_access_pa env inst (page_addr k) PROT_READ = Some (Some (m, off), i)"
    using assms(2) by (auto simp: guest_page_def split: option.split_asm)
  then show ?thesis using assms(1) access_pa_full unfolding scannable_pages_def by blast
qed

section \<open>The heuristics\<close>

lemma rd_words_defined: "4 * n \<le> length bs \<Longrightarrow> \<exists>ws. rd_words bs n = Some ws"
proof (induction n arbitrary: bs)
  case (Suc n)
  have "4 * n \<le> length (drop 4 bs)" using Suc.prems by simp
  then obtain ws where "rd_words (drop 4 bs) n = Some ws" using Suc.IH by blast
  then show ?case using Suc.prems by (auto simp: rd_def)
qed simp

definition page_score :: "xa_env \<Rightarrow> xa_instance \<Rightarrow> u32 \<Rightarrow> nat \<Rightarrow> int" where
  "page_score env inst msize k = the (xa_kernel_pd_score (guest_page env inst k) 4096 msize)"

definition page_sum :: "xa_env \<Rightarrow> xa_instance \<Rightarrow> nat \<Rightarrow> u32" where
  "page_sum env inst k = the (xa_kernel_pd_checksum inst (guest_page env inst k))"

definition page_refs :: "xa_env \<Rightarrow> xa_instance \<Rightarrow> nat \<Rightarrow> nat" where
  "page_refs env inst k = the (xa_kernel_pd_selfref inst (guest_page env inst k) (page_addr k))"

lemma same_frames_page:
  assumes "scannable_pages env inst n" "same_frames env inst i"
  shows "page_size i = 4096" "page_size inst = 4096" "page_offset i = page_offset inst" "os_type i = os_type inst"
  using assms by (auto simp: same_frames_def scannable_pages_def std_pages_def)

lemma heuristics_defined:
  assumes "scannable_pages env inst n" "same_frames env inst i"
  shows "xa_kernel_pd_score (guest_page env inst k) 4096 msize = Some (page_score env inst msize k)"
    and "xa_kernel_pd_checksum i (guest_page env inst k) = Some (page_sum env inst k)"
    and "xa_kernel_pd_selfref i (guest_page env inst k) (page_addr k) = Some (page_refs env inst k)"
proof -
  note ps = same_frames_page [OF assms]
  have full: "length (map_bytes m) = 4096" if "guest_page env inst k = Some m" for m
    using guest_page_full [OF assms(1) that] .
  have w: "\<exists>ws. rd_words (map_bytes m) 1024 = Some ws" "\<exists>ws. rd_words (map_bytes m) 8 = Some ws"
    "\<exists>ws. rd_words (drop 2048 (map_bytes m)) 8 = Some ws" "\<exists>ws. rd_words (drop 3072 (map_bytes m)) 8 = Some ws"
    if "guest_page env inst k = Some m" for m
    using full [OF that] by (intro rd_words_defined; simp)+
  show "xa_kernel_pd_score (guest_page env inst k) 4096 msize = Some (page_score env inst msize k)"
    using w(1) by (cases "guest_page env inst k") (fastforce simp: page_score_def xa_kernel_pd_score_def split_beta)+
  show "xa_kernel_pd_checksum i (guest_page env inst k) = Some (page_sum env inst k)"
    using w(2-4) ps by (cases "guest_page env inst k") (fastforce simp: page_sum_def xa_kernel_pd_checksum_def Let_def)+
  show "xa_kernel_pd_selfref i (guest_page env inst k) (page_addr k) = Some (page_refs env inst k)"
    using w(1) ps by (cases "guest_page env inst k") (fastforce simp: page_refs_def xa_kernel_pd_selfref_def)+
qed

section \<open>The three passes\<close>

definition candidate :: "xa_env \<Rightarrow> xa_instance \<Rightarrow> u32 \<Rightarrow> nat \<Rightarrow> bool" where
  "candidate env inst msize k \<longleftrightarrow> 0 < page_score env inst msize k"

lemma scan_candidates_filter:
  assumes "scannable_pages env inst n" "4096 * n < 2 ^ 32" "same_frames env inst i" "k + m = n"
  shows "\<exists>i'. scan_candidates env (page_addr n) (page_addr k) i = Some (map page_addr (filter (candidate env inst (page_addr n)) [k..<n]), i') \<and>
    same_frames env inst i'"
  using assms(3,4)
proof (induction m arbitrary: k i)
  case 0
  then show ?case by (subst scan_candidates.simps) simp
next
  case (Suc m)
  define A B E where "A = page_addr k" and "B = page_addr (Suc k)" and "E = page_addr n"
  have "4096 * k < 2 ^ 32" "4096 * k < 4096 * n" using assms(2) Suc.prems(2) by auto
  then have le: "\<not> E \<le> A" unfolding A_def E_def page_addr_def word_le_nat_alt unat_of_nat using assms(2) by simp
  have k: "k < n" using Suc.prems(2) by simp
  then have u: "[k..<n] = k # [Suc k..<n]" by (simp add: upt_conv_Cons)
  obtain r i1 where r: "xa_access_pa env i A PROT_READ = Some (r, i1)" "map_option fst r = guest_page env inst k" "same_frames env inst i1"
    using scannable_page [OF assms(1) Suc.prems(1) k] unfolding A_def by blast
  have ps: "page_size i1 = 4096" using same_frames_page [OF assms(1) r(3)] by simp
  have nx: "A + 4096 = B" by (simp add: A_def B_def page_addr_def)
  obtain i' where "scan_candidates env E B i1 = Some (map page_addr (filter (candidate env inst E) [Suc k..<n]), i')" "same_frames env inst i'"
    using Suc.IH [OF r(3), of "Suc k"] Suc.prems(2) unfolding B_def E_def by auto
  then show ?case unfolding A_def [symmetric] E_def [symmetric] u
    using le r ps nx heuristics_defined(1) [OF assms(1) r(3), of k E]
    by (subst scan_candidates.simps) (simp add: candidate_def A_def)
qed

lemma map_pages_run:
  assumes "scannable_pages env inst n" "\<And>i k. same_frames env inst i \<Longrightarrow> f i (guest_page env inst k) (page_addr k) = Some (g k)"
    and "\<forall>k\<in>set ks. k < n" "same_frames env inst i"
  shows "\<exists>i'. map_pages f env (map page_addr ks) i = Some (map (\<lambda>k. (page_addr k, g k)) ks, i') \<and> same_frames env inst i'"
  using assms(3,4)
proof (induction ks arbitrary: i)
  case (Cons k ks)
  then have "k < n" by simp
  from scannable_page [OF assms(1) Cons.prems(2) this] obtain r i1 where
    r: "xa_access_pa env i (page_addr k) PROT_READ = Some (r, i1)" "map_option fst r = guest_page env inst k" "same_frames env inst i1" .
  have "\<forall>k\<in>set ks. k < n" using Cons.prems(1) by simp
  from Cons.IH [OF this r(3)] obtain i' where
    "map_pages f env (map page_addr ks) i1 = Some (map (\<lambda>k. (page_addr k, g k)) ks, i')" "same_frames env inst i'" by blast
  then show ?case using r assms(2) [OF r(3), of k] by simp
qed simp

text \<open>\<open>matches\<close> is positive when another candidate has the same sum.\<close>

lemma another_in_filter:
  assumes "distinct ks" "k \<in> set ks" "P k"
  shows "1 < length (filter P ks) \<longleftrightarrow> (\<exists>j\<in>set ks. j \<noteq> k \<and> P j)"
proof -
  have "length (filter P ks) = card (set (filter P ks))" using assms(1) by (metis distinct_card distinct_filter)
  also have "set (filter P ks) = insert k {j \<in> set ks. j \<noteq> k \<and> P j}" using assms by auto
  also have "card \<dots> = Suc (card {j \<in> set ks. j \<noteq> k \<and> P j})" by simp
  finally show ?thesis by (simp add: card_gt_0_iff) blast
qed

lemma pd_matches_positive:
  assumes "distinct ks" "k \<in> set ks"
  shows "0 < pd_matches (map (\<lambda>k. (addr k, cs k)) ks) (addr k, cs k) \<longleftrightarrow>
    cs k \<noteq> 0 \<and> (\<exists>j\<in>set ks. j \<noteq> k \<and> cs j = cs k)"
proof -
  have "length (filter (\<lambda>d. cs k = snd d) (map (\<lambda>k. (addr k, cs k)) ks)) = length (filter (\<lambda>j. cs j = cs k) ks)"
    by (simp add: filter_map comp_def eq_commute)
  then show ?thesis using another_in_filter [OF assms, of "\<lambda>j. cs j = cs k"] by (auto simp: pd_matches_def)
qed

lemma filter_matches:
  assumes "distinct ks"
  shows "map fst (filter (\<lambda>c. 0 < pd_matches (map (\<lambda>k. (addr k, cs k)) ks) c) (map (\<lambda>k. (addr k, cs k)) ks))
    = map addr (filter (\<lambda>k. cs k \<noteq> 0 \<and> (\<exists>j\<in>set ks. j \<noteq> k \<and> cs j = cs k)) ks)"
proof -
  have "filter ((\<lambda>c. 0 < pd_matches (map (\<lambda>k. (addr k, cs k)) ks) c) \<circ> (\<lambda>k. (addr k, cs k))) ks
      = filter (\<lambda>k. cs k \<noteq> 0 \<and> (\<exists>j\<in>set ks. j \<noteq> k \<and> cs j = cs k)) ks"
    using pd_matches_positive [OF assms, of _ addr cs] unfolding comp_def by (rule filter_cong [OF refl])
  then show ?thesis unfolding filter_map by simp
qed

text \<open>Only page 0 ends the list early.\<close>

lemma page_addr_nonzero: "0 < k \<Longrightarrow> 4096 * k < 2 ^ 32 \<Longrightarrow> page_addr k \<noteq> 0"
  using unat_of_nat32 [of "4096 * k"] unfolding page_addr_def by (metis mult_eq_0_iff nless_le unat_0 zero_neq_numeral)

lemma no_early_end:
  assumes "\<forall>k\<in>set ks. 0 < k \<and> 4096 * k < 2 ^ 32"
  shows "takeWhile (\<lambda>a. a \<noteq> 0) (map page_addr ks) = map page_addr ks"
  unfolding takeWhile_eq_all_conv using assms page_addr_nonzero by (metis (mono_tags, lifting) imageE list.set_map)

text \<open>The last pass, which only a Windows guest makes.\<close>

definition refers :: "xa_env \<Rightarrow> xa_instance \<Rightarrow> nat \<Rightarrow> bool" where
  "refers env inst k \<longleftrightarrow> (os_type inst = XA_OS_WINDOWS \<longrightarrow> 0 < page_refs env inst k)"

lemma selfref_pass:
  assumes "scannable_pages env inst n" "\<forall>k\<in>set ks. k < n" "same_frames env inst i"
  obtains refs i' where "(if os_type i = XA_OS_WINDOWS then map_pages xa_kernel_pd_selfref env (map page_addr ks) i
      else Some (map (\<lambda>a. (a, 1)) (map page_addr ks), i)) = Some (refs, i')" "same_frames env inst i'"
    "map fst (filter (\<lambda>c. 0 < snd c) refs) = map page_addr (filter (refers env inst) ks)"
proof (cases "os_type inst = XA_OS_WINDOWS")
  case True
  obtain i' where "map_pages xa_kernel_pd_selfref env (map page_addr ks) i = Some (map (\<lambda>k. (page_addr k, page_refs env inst k)) ks, i')"
    "same_frames env inst i'"
    using map_pages_run [where f = xa_kernel_pd_selfref and g = "page_refs env inst",
        OF assms(1) heuristics_defined(3) [OF assms(1)] assms(2,3)] by blast
  moreover have "refers env inst = (\<lambda>k. 0 < page_refs env inst k)" using True by (simp add: refers_def fun_eq_iff)
  ultimately show thesis using that same_frames_page(4) [OF assms(1,3)] True by (simp add: filter_map comp_def)
next
  case False
  then have "refers env inst = (\<lambda>k. True)" by (simp add: refers_def fun_eq_iff)
  then show thesis using that [of "map (\<lambda>a. (a, 1)) (map page_addr ks)" i] same_frames_page(4) [OF assms(1,3)] assms(3) False
    by (simp add: filter_map comp_def)
qed

lemma first_of_filter:
  "(case map f (filter P xs) of [] \<Rightarrow> d | a # as \<Rightarrow> a) = (case List.find P xs of None \<Rightarrow> d | Some k \<Rightarrow> f k)"
  by (induction xs) auto

section \<open>Properties\<close>

text \<open>The page that the search is after.\<close>

definition kernel_pd :: "xa_env \<Rightarrow> xa_instance \<Rightarrow> nat \<Rightarrow> nat \<Rightarrow> bool" where
  "kernel_pd env inst n k \<longleftrightarrow> candidate env inst (page_addr n) k \<and> page_sum env inst k \<noteq> 0 \<and>
     (\<exists>j<n. j \<noteq> k \<and> candidate env inst (page_addr n) j \<and> page_sum env inst j = page_sum env inst k) \<and>
     refers env inst k"

text \<open>(C34) The search for the kernel page directory of a guest of \<open>n\<close> pages, of which the first is not a
  candidate and some page is: it ends with the virtual address of the lowest candidate whose first kernel
  entries have the same non-zero sum as those of another candidate and that, for a Windows guest, has an entry
  for itself; without such a page it returns the start of the kernel's address space.\<close>

theorem xa_find_kernel_pd_finds:
  assumes "mode inst = XA_MODE_XEN" "xen_size (m_xen inst) = page_addr n" "4096 * n < 2 ^ 32" "scannable_pages env inst n"
    and "\<not> candidate env inst (page_addr n) 0" "\<exists>k<n. candidate env inst (page_addr n) k"
  shows "map_option fst (xa_find_kernel_pd env inst) = Some (page_offset inst +
    (case List.find (kernel_pd env inst n) [0..<n] of None \<Rightarrow> 0 | Some k \<Rightarrow> page_addr k))"
proof -
  let ?E = "page_addr n"
  define ks where "ks = filter (candidate env inst ?E) [0..<n]"
  define good where "good k \<longleftrightarrow> page_sum env inst k \<noteq> 0 \<and> (\<exists>j\<in>set ks. j \<noteq> k \<and> page_sum env inst j = page_sum env inst k)" for k
  have "k < n \<and> 0 < k" if "k \<in> set ks" for k using that assms(5) unfolding ks_def set_filter by (cases k) simp_all
  then have ks: "\<forall>k\<in>set ks. k < n" "\<forall>k\<in>set ks. 0 < k \<and> 4096 * k < 2 ^ 32" using assms(3) by fastforce+
  have ne: "map page_addr ks \<noteq> []" "distinct ks" using assms(6) by (auto simp: ks_def filter_empty_conv)
  obtain i1 where s: "scan_candidates env ?E 0 inst = Some (map page_addr ks, i1)" "same_frames env inst i1"
    using scan_candidates_filter [OF assms(4,3) same_frames_refl, of 0 n] by (auto simp: ks_def page_addr_def [of 0])
  obtain i2 where m: "map_pages (\<lambda>i m a. xa_kernel_pd_checksum i m) env (map page_addr ks) i1
      = Some (map (\<lambda>k. (page_addr k, page_sum env inst k)) ks, i2)" "same_frames env inst i2"
    using map_pages_run [where f = "\<lambda>i m a. xa_kernel_pd_checksum i m" and g = "page_sum env inst",
        OF assms(4) heuristics_defined(2) [OF assms(4)] ks(1) s(2)] by blast
  have "\<forall>k\<in>set (filter good ks). k < n" using ks(1) by simp
  from selfref_pass [OF assms(4) this m(2)] obtain refs i3 where
    r: "(if os_type i2 = XA_OS_WINDOWS then map_pages xa_kernel_pd_selfref env (map page_addr (filter good ks)) i2
      else Some (map (\<lambda>a. (a, 1)) (map page_addr (filter good ks)), i2)) = Some (refs, i3)" "same_frames env inst i3"
      "map fst (filter (\<lambda>c. 0 < snd c) refs) = map page_addr (filter (refers env inst) (filter good ks))" .
  have f: "filter (refers env inst) (filter good ks) = filter (kernel_pd env inst n) [0..<n]"
    unfolding ks_def filter_filter by (rule filter_cong) (auto simp: kernel_pd_def good_def ks_def)
  have kept: "filter (\<lambda>k. page_sum env inst k \<noteq> 0 \<and> (\<exists>j\<in>set ks. j \<noteq> k \<and> page_sum env inst j = page_sum env inst k)) ks = filter good ks"
    unfolding good_def ..
  have "map_option fst (xa_find_kernel_pd env inst)
      = Some ((case map page_addr (filter (kernel_pd env inst n) [0..<n]) of [] \<Rightarrow> 0 | a # as \<Rightarrow> a) + page_offset inst)"
    unfolding xa_find_kernel_pd_def Let_def assms(1,2) f [symmetric]
    by (simp only: if_True refl bind.simps prod.case if_False option.map fst_conv s(1) m(1) ne(1) no_early_end [OF ks(2)]
        filter_matches [OF ne(2)] kept r(1,3) same_frames_page(3) [OF assms(4) r(2)])
  then show ?thesis unfolding first_of_filter by (simp only: add.commute)
qed

text \<open>A guest of three pages, the first of which cannot be mapped; the other two hold 1024 equal entries.\<close>

definition pd_page :: "u8 list" where
  "pd_page = concat (replicate 1024 [0x67, 0, 0, 0])"

definition pd_env :: xa_env where
  "pd_env = frames_env (\<lambda>f. if f = 1 \<or> f = 2 then Some pd_page else None)"

definition pd_inst :: xa_instance where
  "pd_inst = std_inst\<lparr>hvm := True, os_type := XA_OS_LINUX, page_offset := 0xC0000000,
     m_xen := (m_xen std_inst)\<lparr>xen_size := 0x3000\<rparr>\<rparr>"

lemma pd_page_access:
  "xa_access_pa pd_env pd_inst a prot = Some (if drop_bit 12 a = 1 \<or> drop_bit 12 a = 2
     then Some (map_page_of prot pd_page, a AND 0xFFF) else None, pd_inst)"
  using drop12_not_minus1 [of a]
  by (simp add: pd_env_def pd_inst_def frames_env_def std_inst_def xa_instance_zero_def xa_access_pa_def
      xa_mmap_pfn_def helper_pfn_to_mfn_def xa_map_page_def and.commute)

lemma pd_pages: "guest_page pd_env pd_inst 0 = None" "guest_page pd_env pd_inst (Suc 0) = Some (map_page_of PROT_READ pd_page)"
  "guest_page pd_env pd_inst 2 = Some (map_page_of PROT_READ pd_page)"
  by (simp_all add: guest_page_def pd_page_access page_addr_def)

lemma pd_words: "rd_words (concat (replicate (n + m) [0x67, 0, 0, 0])) n = Some (replicate n 0x67)"
  by (induction n) (simp_all add: rd_def le_word_def)

lemma score_equal_entries:
  "score_loop 0x3000 (replicate n 0x67) True (NOT 0x67) 0x67 0 = (NOT 0x67, 0x67, 0)"
  by (induction n) (simp_all add: xa_kernel_pd_valid_entry_def xa_get_bit_def)

lemma pd_page_parts: "rd_words pd_page 1024 = Some (replicate 1024 0x67)" "rd_words (drop 3072 pd_page) 8 = Some (replicate 8 0x67)"
  "length pd_page = 4096"
proof -
  show "rd_words pd_page 1024 = Some (replicate 1024 0x67)" using pd_words [of 1024 0] by (simp only: pd_page_def add_0_right)
  have l: "length (concat (replicate n [0x67, 0, 0, 0 :: u8])) = 4 * n" for n by (induction n) auto
  then show "length pd_page = 4096" by (simp only: pd_page_def)
  have "pd_page = concat (replicate 768 [0x67, 0, 0, 0]) @ concat (replicate (8 + 248) [0x67, 0, 0, 0])"
    unfolding pd_page_def concat_append [symmetric] replicate_add [symmetric] by simp
  then have "drop (length (concat (replicate 768 [0x67, 0, 0, 0 :: u8]))) pd_page = concat (replicate (8 + 248) [0x67, 0, 0, 0])"
    by (metis append_eq_conv_conj)
  then have "drop 3072 pd_page = concat (replicate (8 + 248) [0x67, 0, 0, 0])" unfolding l by simp
  then show "rd_words (drop 3072 pd_page) 8 = Some (replicate 8 0x67)" using pd_words [of 8 248] by (simp only:)
qed

lemma pd_score: "xa_kernel_pd_score (Some (map_page_of PROT_READ pd_page)) 4096 0x3000 = Some 32"
proof -
  have r: "replicate 1024 (0x67 :: u32) = 0x67 # 0x67 # replicate 1022 0x67" by (simp add: numeral_eq_Suc)
  have "score_loop 0x3000 (replicate 1024 0x67) False 0 0 0 = (NOT 0x67, 0x67, 0)"
    unfolding r using score_equal_entries [of 1022] by (simp add: xa_kernel_pd_valid_entry_def xa_get_bit_def)
  then show ?thesis
    by (simp add: xa_kernel_pd_score_def map_page_of_def pd_page_parts(1) xa_kernel_pd_bitcount_def Let_def)
qed

lemma pd_candidates: "\<not> candidate pd_env pd_inst 0x3000 0" "candidate pd_env pd_inst 0x3000 1" "candidate pd_env pd_inst 0x3000 2"
  "page_sum pd_env pd_inst 1 = 0x338" "page_sum pd_env pd_inst 2 = 0x338"
proof -
  have "xa_kernel_pd_checksum pd_inst (Some (map_page_of PROT_READ pd_page)) = Some 0x338"
    using pd_page_parts(2) by (simp add: xa_kernel_pd_checksum_def pd_inst_def map_page_of_def std_inst_def xa_instance_zero_def sum_list_replicate)
  then show "page_sum pd_env pd_inst 1 = 0x338" "page_sum pd_env pd_inst 2 = 0x338" by (simp_all add: page_sum_def pd_pages)
qed (simp_all add: candidate_def page_score_def pd_pages pd_score xa_kernel_pd_score_def [of None])

theorem xa_find_kernel_pd_finds_witness: "map_option fst (xa_find_kernel_pd pd_env pd_inst) = Some 0xC0001000"
proof -
  have e: "page_addr 3 = 0x3000" by (simp add: page_addr_def)
  have "length (map_bytes m) = 4096" if "xa_map_page pd_env pd_inst prot f = Some m" for prot f m
    using that pd_page_parts(3)
    by (auto simp: pd_inst_def pd_env_def frames_env_def std_inst_def xa_instance_zero_def xa_map_page_def map_page_of_def split: if_split_asm)
  then have sc: "scannable_pages pd_env pd_inst 3" unfolding scannable_pages_def full_pages_def pd_page_access
    by (simp add: std_pages_def pd_inst_def)
  have u: "[0..<3] = [0, 1, 2]" by (simp add: upt_rec)
  have k: "\<not> kernel_pd pd_env pd_inst 3 0" "kernel_pd pd_env pd_inst 3 1" unfolding kernel_pd_def refers_def e using pd_candidates
    by (auto simp: pd_inst_def intro!: exI [of _ 2])
  have "map_option fst (xa_find_kernel_pd pd_env pd_inst) = Some (page_offset pd_inst +
      (case List.find (kernel_pd pd_env pd_inst 3) [0..<3] of None \<Rightarrow> 0 | Some k \<Rightarrow> page_addr k))"
    by (rule xa_find_kernel_pd_finds)
      (use sc pd_candidates in \<open>auto simp: e pd_inst_def std_inst_def xa_instance_zero_def intro: exI [of _ 1]\<close>)
  then show ?thesis unfolding u using k by (simp add: page_addr_def pd_inst_def)
qed

end
