(* ===== verification/Xa_Examples.thy ===== *)
theory Xa_Examples
  imports Xa_Core Xa_Print
begin

text \<open>
  The programs under \<open>examples/\<close> that inspect a guest through the library:
  \<open>process-list.c\<close>, \<open>process-list-file.c\<close>, \<open>module-list.c\<close>,
  \<open>process-data.c\<close>, \<open>map-addr.c\<close> and \<open>map-symbol.c\<close>. A program is the
  text it prints on standard output; what \<open>perror\<close> prints is left out. Every program ends with
  \<open>xa_destroy\<close>. What the programs print for a guest is shown in \<open>Xa_Programs\<close>.
\<close>

section \<open>Printing\<close>

text \<open>The C string at \<open>memory + i\<close>, undefined when it leaves the mapping.\<close>

definition c_string :: "u8 list \<Rightarrow> int \<Rightarrow> string option" where
  "c_string bs i = (if i < 0 then None else strn_bytes (drop (nat i) bs) (Suc (length bs)))"

text \<open>\<open>printf("[%5d] %s\n", pid, name)\<close>\<close>

definition process_line :: "u32 \<Rightarrow> string \<Rightarrow> string" where
  "process_line pid name = (let d = int_str (sint pid) in
     ''['' @ replicate (5 - length d) (CHR '' '') @ d @ ''] '' @ name @ [CHR 0x0A])"

text \<open>What every program does around its work: initialise, and destroy the instance in any case.\<close>

definition with_instance ::
  "xa_env \<Rightarrow> (bool \<times> xa_instance) option \<Rightarrow> (xa_instance \<Rightarrow> (string \<times> xa_instance) option) \<Rightarrow> string option" where
  "with_instance env init work = do {
     (ok, xai) \<leftarrow> init;
     (out, xai1) \<leftarrow> (if ok then work xai else Some ([], xai));
     (r, xai2) \<leftarrow> xa_destroy env xai1;
     Some out }"

section \<open>The process list\<close>

partial_function (option) list_processes ::
  "xa_env \<Rightarrow> u32 \<Rightarrow> u32 \<Rightarrow> u32 \<Rightarrow> u32 \<Rightarrow> u32 \<Rightarrow> xa_instance \<Rightarrow> (string \<times> xa_instance) option" where
  "list_processes env name_offset pid_offset tasks_offset list_head next_process inst = do {
     (m, inst1) \<leftarrow> xa_access_kernel_va env inst next_process PROT_READ;
     (case m of
        None \<Rightarrow> Some ([], inst1)
      | Some (memory, offset) \<Rightarrow> do {
          next1 \<leftarrow> rd32 (map_bytes memory) (unat offset);
          if list_head = next1 then Some ([], inst1)
          else do {
            pid \<leftarrow> rd_rel (map_bytes memory) offset pid_offset tasks_offset;
            l \<leftarrow> (if sint pid < 0 then Some []
                  else do {
                    name \<leftarrow> c_string (map_bytes memory) (int (unat offset) + sint name_offset - sint tasks_offset);
                    Some (process_line pid name) });
            (ls, inst2) \<leftarrow> list_processes env name_offset pid_offset tasks_offset list_head next1 inst1;
            Some (l @ ls, inst2) } }) }"

declare list_processes.simps [code]

text \<open>The start of the walk: the head of the list is where \<open>tasks_offset\<close> of the first
  structure points to; a Windows guest's first process is printed at once.\<close>

definition list_from ::
  "xa_env \<Rightarrow> u32 \<Rightarrow> u32 \<Rightarrow> u32 \<Rightarrow> bool \<Rightarrow> (mapping \<times> u32) option \<times> xa_instance \<Rightarrow> (string \<times> xa_instance) option" where
  "list_from env name_offset pid_offset tasks_offset print_first = (\<lambda>(m, inst). case m of
       None \<Rightarrow> Some ([], inst)
     | Some (memory, offset) \<Rightarrow> do {
         next_process \<leftarrow> rd_rel (map_bytes memory) offset tasks_offset 0;
         l \<leftarrow> (if print_first then do {
                 pid \<leftarrow> rd_rel (map_bytes memory) offset pid_offset 0;
                 name \<leftarrow> c_string (map_bytes memory) (int (unat offset) + sint name_offset);
                 Some (process_line pid name) }
               else Some []);
         (ls, inst1) \<leftarrow> list_processes env name_offset pid_offset tasks_offset next_process next_process inst;
         Some (l @ ls, inst1) })"

text \<open>An operating system that is neither leaves \<open>next_process\<close> uninitialised, and so does a
  failed read of the symbol with \<open>list_head\<close>.\<close>

definition process_list :: "xa_env \<Rightarrow> xa_instance \<Rightarrow> (string \<times> xa_instance) option" where
  "process_list env xai =
     (if os_type xai = XA_OS_LINUX then do {
        r \<leftarrow> xa_access_kernel_sym env xai ''init_task'' PROT_READ;
        list_from env 0x194 (l_pid_offset (linux_inst xai)) (l_tasks_offset (linux_inst xai)) False r }
      else if os_type xai = XA_OS_WINDOWS then do {
        (r, xai1) \<leftarrow> xa_read_long_sym env xai ''PsInitialSystemProcess'';
        (case r of
           XA_FAILURE \<Rightarrow> None
         | XA_SUCCESS list_head \<Rightarrow> do {
             r2 \<leftarrow> xa_access_kernel_va env xai1 list_head PROT_READ;
             list_from env 0x174 (w_pid_offset (windows_inst xai)) (w_tasks_offset (windows_inst xai)) True r2 }) }
      else None)"

definition process_list_main :: "xa_env \<Rightarrow> string \<Rightarrow> string option" where
  "process_list_main env arg1 =
     with_instance env (xa_init_vm_id_strict env (word_of_int (strtol10 arg1))) (process_list env)"

text \<open>The same over an image file, with the offsets fixed at compile time; \<open>junk\<close> is what the
  stack holds where the instance is filled in.\<close>

definition process_list_file :: "xa_env \<Rightarrow> xa_instance \<Rightarrow> (string \<times> xa_instance) option" where
  "process_list_file env xai =
     (if os_type xai = XA_OS_LINUX then do {
        r \<leftarrow> xa_access_kernel_sym env xai ''init_task'' PROT_READ;
        list_from env (108 * 4) (39 * 4) (24 * 4) False r }
      else if os_type xai = XA_OS_WINDOWS then do {
        (list_head, xai1) \<leftarrow> windows_find_eprocess env xai ''System'';
        r \<leftarrow> xa_access_pa env xai1 list_head PROT_READ;
        list_from env 0x174 0x84 0x88 True r }
      else None)"

definition process_list_file_main :: "xa_env \<Rightarrow> xa_instance \<Rightarrow> string \<Rightarrow> string option" where
  "process_list_file_main env junk arg1 =
     with_instance env (xa_init_file_strict env arg1 ''WinXP-HVM'' junk) (process_list_file env)"

section \<open>The module list\<close>

text \<open>The even bytes of a UTF-16 string, in a buffer of \<open>len\<close> cleared bytes; \<open>printf\<close>
  reads it up to a NUL.\<close>

definition even_bytes :: "u8 list \<Rightarrow> u8 list" where
  "even_bytes bs = map (\<lambda>i. bs ! (2 * i)) [0..<(length bs + 1) div 2]"

definition print_unicode_string :: "xa_env \<Rightarrow> xa_instance \<Rightarrow> u16 \<Rightarrow> u32 \<Rightarrow> (string \<times> xa_instance) option" where
  "print_unicode_string env xai len addr = do {
     (m, xai1) \<leftarrow> xa_access_kernel_va env xai addr PROT_READ;
     (case m of
        None \<Rightarrow> Some ([], xai1)
      | Some (memory, offset) \<Rightarrow>
          (let tmpname = take (unat len) (drop (unat offset) (map_bytes memory)) in
           if length tmpname < unat len then None
           else do {
             name \<leftarrow> c_string (even_bytes tmpname @ replicate (unat len div 2) 0) 0;
             Some (name @ [CHR 0x0A], xai1) })) }"

partial_function (option) list_modules :: "xa_env \<Rightarrow> u32 \<Rightarrow> u32 \<Rightarrow> xa_instance \<Rightarrow> (string \<times> xa_instance) option" where
  "list_modules env list_head next_module inst = do {
     (m, inst1) \<leftarrow> xa_access_kernel_va env inst next_module PROT_READ;
     (case m of
        None \<Rightarrow> Some ([], inst1)
      | Some (memory, offset) \<Rightarrow> do {
          next1 \<leftarrow> rd32 (map_bytes memory) (unat offset);
          if list_head = next1 then Some ([], inst1)
          else do {
            (l, inst2) \<leftarrow>
              (if os_type inst1 = XA_OS_LINUX then do {
                 name \<leftarrow> c_string (map_bytes memory) (int (unat offset) + 8);
                 Some (name @ [CHR 0x0A], inst1) }
               else if os_type inst1 = XA_OS_WINDOWS then do {
                 len \<leftarrow> rd16 (map_bytes memory) (unat offset + 0x2c);
                 buffer_addr \<leftarrow> rd32 (map_bytes memory) (unat offset + 0x30);
                 print_unicode_string env inst1 len buffer_addr }
               else Some ([], inst1));
            (ls, inst3) \<leftarrow> list_modules env list_head next1 inst2;
            Some (l @ ls, inst3) } }) }"

declare list_modules.simps [code]

definition module_list :: "xa_env \<Rightarrow> xa_instance \<Rightarrow> (string \<times> xa_instance) option" where
  "module_list env xai =
     (if os_type xai = XA_OS_LINUX then do {
        (r, xai1) \<leftarrow> xa_read_long_sym env xai ''modules'';
        (case r of
           XA_FAILURE \<Rightarrow> None
         | XA_SUCCESS next_module \<Rightarrow> list_modules env next_module next_module xai1) }
      else if os_type xai = XA_OS_WINDOWS then do {
        (m, xai1) \<leftarrow> xa_access_kernel_va env xai (if pae xai then 0x805533a0 else 0x8055a620) PROT_READ;
        (case m of
           None \<Rightarrow> Some ([], xai1)
         | Some (memory, offset) \<Rightarrow> do {
             next_module \<leftarrow> rd32 (map_bytes memory) (unat offset);
             list_modules env next_module next_module xai1 }) }
      else None)"

definition module_list_main :: "xa_env \<Rightarrow> string \<Rightarrow> string option" where
  "module_list_main env arg1 =
     with_instance env (xa_init_vm_id_strict env (word_of_int (strtol10 arg1))) (module_list env)"

section \<open>Pages\<close>

text \<open>A mapped page printed after its offset, as \<open>map-addr\<close> and \<open>map-symbol\<close>
  do.\<close>

definition print_page :: "(mapping \<times> u32) option \<times> xa_instance \<Rightarrow> (string \<times> xa_instance) option" where
  "print_page = (\<lambda>(m, xai). case m of
       None \<Rightarrow> Some ([], xai)
     | Some (memory, offset) \<Rightarrow> do {
         dump \<leftarrow> print_hex (map_bytes memory) (sint (page_size xai));
         Some (''offset = 0x'' @ hex_digits 8 (unat offset) @ [CHR 0x0A] @ dump, xai) })"

definition map_addr_main :: "xa_env \<Rightarrow> string \<Rightarrow> string \<Rightarrow> string option" where
  "map_addr_main env arg1 arg2 =
     with_instance env (xa_init_vm_id_strict env (word_of_int (strtol10 arg1)))
       (\<lambda>xai. xa_access_kernel_va env xai (strtoul16 arg2) PROT_READ \<bind> print_page)"

definition map_symbol_main :: "xa_env \<Rightarrow> string \<Rightarrow> string \<Rightarrow> string option" where
  "map_symbol_main env arg1 arg2 =
     with_instance env (xa_init_vm_id_strict env (word_of_int (strtol10 arg1)))
       (\<lambda>xai. xa_access_kernel_sym env xai arg2 PROT_READ \<bind> print_page)"

section \<open>The data of a process\<close>

definition hex_line :: "string \<Rightarrow> u32 \<Rightarrow> string" where
  "hex_line field v = field @ '' = 0x'' @ hex_digits 8 (unat v) @ [CHR 0x0A]"

definition linux_printaddr :: "xa_linux_taskaddr \<Rightarrow> string" where
  "linux_printaddr t =
     hex_line ''start_code'' (ta_start_code t) @ hex_line ''end_code'' (ta_end_code t) @
     hex_line ''start_data'' (ta_start_data t) @ hex_line ''end_data'' (ta_end_data t) @
     hex_line ''start_brk'' (ta_start_brk t) @ hex_line ''brk'' (ta_brk t) @
     hex_line ''start_stack'' (ta_start_stack t) @ hex_line ''arg_stack'' (ta_arg_stack t) @
     hex_line ''arg_end'' (ta_arg_end t) @ hex_line ''env_start'' (ta_env_start t) @
     hex_line ''env_end'' (ta_env_end t)"

definition windows_printaddr :: "xa_windows_peb \<Rightarrow> string" where
  "windows_printaddr peb = hex_line ''ImageBaseAddress'' (peb_ImageBaseAddress peb) @
     hex_line ''ProcessHeap'' (peb_ProcessHeap peb)"

text \<open>The page at \<open>addr\<close> of the process, printed after the lines \<open>header\<close>.\<close>

definition print_user_page ::
  "xa_env \<Rightarrow> u32 \<Rightarrow> u32 \<Rightarrow> string \<Rightarrow> xa_instance \<Rightarrow> (string \<times> xa_instance) option" where
  "print_user_page env addr pid header xai = do {
     (m, xai1) \<leftarrow> xa_access_user_va env xai addr pid PROT_READ;
     (case m of
        None \<Rightarrow> Some (header, xai1)
      | Some (memory, offset) \<Rightarrow> do {
          dump \<leftarrow> print_hex (map_bytes memory) (sint (page_size xai1));
          Some (header @ dump @ ''offset = 0x'' @ hex_str (unat offset) @ [CHR 0x0A], xai1) }) }"

definition process_data :: "xa_env \<Rightarrow> xa_windows_peb \<Rightarrow> u32 \<Rightarrow> xa_instance \<Rightarrow> (string \<times> xa_instance) option" where
  "process_data env junk pid xai =
     (let title = ''Memory descriptor addresses for pid = '' @ int_str (sint pid) @ '':'' @ [CHR 0x0A] in
      if os_type xai = XA_OS_LINUX then do {
        (r, xai1) \<leftarrow> xa_linux_get_taskaddr env xai pid;
        (case r of
           XA_FAILURE \<Rightarrow> Some ([], xai1)
         | XA_SUCCESS taskaddr \<Rightarrow>
             print_user_page env (ta_start_code taskaddr) pid (title @ linux_printaddr taskaddr) xai1) }
      else if os_type xai = XA_OS_WINDOWS then do {
        (r, xai1) \<leftarrow> xa_windows_get_peb env xai pid junk;
        (case r of
           XA_FAILURE \<Rightarrow> Some ([], xai1)
         | XA_SUCCESS peb \<Rightarrow>
             print_user_page env (peb_ImageBaseAddress peb) pid (title @ windows_printaddr peb) xai1) }
      else Some (title, xai))"

definition process_data_main :: "xa_env \<Rightarrow> xa_windows_peb \<Rightarrow> string \<Rightarrow> string \<Rightarrow> string option" where
  "process_data_main env junk arg1 arg2 =
     with_instance env (xa_init_vm_id_strict env (word_of_int (strtol10 arg1)))
       (process_data env junk (word_of_int (strtol10 arg2)))"

end
