(* ===== verification/Xa_Programs.thy ===== *)
theory Xa_Programs
  imports Xa_Examples Xa_Lifecycle Xa_Conftext
begin

text \<open>
  What the example programs print, from the initialisation of the library to the destruction of the
  instance. The guest's tasks and modules are circular lists in its memory; both programs follow such a
  list until it is back at its head, so that one locale carries both.
\<close>

section \<open>Circular lists\<close>

abbreviation (input) next_of :: "(u32 \<times> 'a) list \<Rightarrow> u32 \<Rightarrow> u32" where
  "next_of xs lst \<equiv> (case xs of [] \<Rightarrow> lst | x # xs' \<Rightarrow> fst x)"

text \<open>\<open>ring env inst at lh xs lst\<close>: in the guest's memory the entries \<open>xs\<close>, each an
  address and what \<open>at\<close> reads there, are linked in this order, the last links to \<open>lst\<close>,
  and the entry at \<open>lst\<close> links back to \<open>lh\<close>.\<close>

fun ring :: "xa_env \<Rightarrow> xa_instance \<Rightarrow> (mapping \<Rightarrow> u32 \<Rightarrow> 'a \<Rightarrow> bool) \<Rightarrow> u32 \<Rightarrow> (u32 \<times> 'a) list \<Rightarrow> u32 \<Rightarrow> bool" where
  "ring env inst at lh [] lst \<longleftrightarrow>
     (\<exists>m off. kernel_va_spec env inst lst PROT_READ = Some (Some (m, off)) \<and> rd32 (map_bytes m) (unat off) = Some lh)"
| "ring env inst at lh ((a, x) # xs) lst \<longleftrightarrow>
     (\<exists>m off. kernel_va_spec env inst a PROT_READ = Some (Some (m, off)) \<and>
        rd32 (map_bytes m) (unat off) = Some (next_of xs lst) \<and> at m off x) \<and>
     next_of xs lst \<noteq> lh \<and> ring env inst at lh xs lst"

text \<open>A program that walks such a list: it stops at the entry that links back to the head, and prints a line
  for every other.\<close>

locale ring_walk =
  fixes env :: xa_env and inst0 :: xa_instance and at :: "mapping \<Rightarrow> u32 \<Rightarrow> 'a \<Rightarrow> bool" and line :: "'a \<Rightarrow> string"
    and lh :: u32 and walk :: "u32 \<Rightarrow> xa_instance \<Rightarrow> (string \<times> xa_instance) option"
  assumes walk_end: "xa_access_kernel_va env inst a PROT_READ = Some (Some (m, off), inst1) \<Longrightarrow>
      rd32 (map_bytes m) (unat off) = Some lh \<Longrightarrow> walk a inst = Some ([], inst1)"
    and walk_entry: "xa_access_kernel_va env inst a PROT_READ = Some (Some (m, off), inst1) \<Longrightarrow> coherent env inst0 inst1 \<Longrightarrow>
      rd32 (map_bytes m) (unat off) = Some next1 \<Longrightarrow> next1 \<noteq> lh \<Longrightarrow> at m off x \<Longrightarrow>
      \<exists>inst2. coherent env inst0 inst2 \<and> walk a inst = do { (ls, inst3) \<leftarrow> walk next1 inst2; Some (line x @ ls, inst3) }"
begin

lemma walk_prints:
  assumes "coherent env inst0 inst" "ring env inst0 at lh xs lst"
  shows "\<exists>inst'. walk (next_of xs lst) inst = Some (concat (map (\<lambda>x. line (snd x)) xs), inst') \<and> coherent env inst0 inst'"
  using assms
proof (induction xs arbitrary: inst)
  case Nil
  from Nil.prems(1) show ?case
    by (cases rule: access_kernel_cases [of _ _ _ _ lst PROT_READ]) (use Nil.prems(2) walk_end in auto)
next
  case (Cons p xs)
  obtain a x where p: "p = (a, x)" by (cases p)
  obtain m off where e: "kernel_va_spec env inst0 a PROT_READ = Some (Some (m, off))"
    "rd32 (map_bytes m) (unat off) = Some (next_of xs lst)" "at m off x" "next_of xs lst \<noteq> lh" "ring env inst0 at lh xs lst"
    using Cons.prems(2) p by auto
  from Cons.prems(1) obtain inst1 where i: "xa_access_kernel_va env inst a PROT_READ = Some (Some (m, off), inst1)" "coherent env inst0 inst1"
    by (cases rule: access_kernel_cases [of _ _ _ _ a PROT_READ]) (use e(1) in auto)
  obtain inst2 where w: "coherent env inst0 inst2" "walk a inst = do { (ls, inst3) \<leftarrow> walk (next_of xs lst) inst2; Some (line x @ ls, inst3) }"
    using walk_entry [OF i e(2,4,3)] by blast
  from Cons.IH [OF w(1) e(5)] obtain inst3 where
    "walk (next_of xs lst) inst2 = Some (concat (map (\<lambda>x. line (snd x)) xs), inst3)" "coherent env inst0 inst3" by blast
  then show ?case using w(2) p by simp
qed

end

section \<open>Processes and modules\<close>

text \<open>The pid and the name of a process, found from its list entry, and its line; a negative pid is passed
  over.\<close>

definition process_at :: "u32 \<Rightarrow> u32 \<Rightarrow> u32 \<Rightarrow> mapping \<Rightarrow> u32 \<Rightarrow> u32 \<times> string \<Rightarrow> bool" where
  "process_at no po to m off p \<longleftrightarrow> rd_rel (map_bytes m) off po to = Some (fst p) \<and>
     c_string (map_bytes m) (int (unat off) + sint no - sint to) = Some (snd p)"

definition shown :: "u32 \<times> string \<Rightarrow> string" where
  "shown p = (if sint (fst p) < 0 then [] else process_line (fst p) (snd p))"

interpretation processes: ring_walk env inst0 "process_at no po to" shown lh "list_processes env no po to lh"
  for env inst0 no po to lh
proof
  fix inst a m off inst1
  assume "xa_access_kernel_va env inst a PROT_READ = Some (Some (m, off), inst1)" "rd32 (map_bytes m) (unat off) = Some lh"
  then show "list_processes env no po to lh a inst = Some ([], inst1)" by (subst list_processes.simps) simp
next
  fix inst a m off inst1 next1 x
  assume "xa_access_kernel_va env inst a PROT_READ = Some (Some (m, off), inst1)" and c: "coherent env inst0 inst1"
    and "rd32 (map_bytes m) (unat off) = Some next1" "next1 \<noteq> lh" "process_at no po to m off x"
  then have "list_processes env no po to lh a inst = do { (ls, inst3) \<leftarrow> list_processes env no po to lh next1 inst1; Some (shown x @ ls, inst3) }"
    by (subst list_processes.simps) (simp add: process_at_def shown_def)
  with c show "\<exists>inst2. coherent env inst0 inst2 \<and>
      list_processes env no po to lh a inst = do { (ls, inst3) \<leftarrow> list_processes env no po to lh next1 inst2; Some (shown x @ ls, inst3) }"
    by blast
qed

text \<open>The name of a module: a C string behind the list entry of Linux, a counted UTF-16 string in a page of its
  own on Windows.\<close>

definition unicode_at :: "xa_env \<Rightarrow> xa_instance \<Rightarrow> u16 \<Rightarrow> u32 \<Rightarrow> string \<Rightarrow> bool" where
  "unicode_at env inst len buf name \<longleftrightarrow> (\<exists>m off. kernel_va_spec env inst buf PROT_READ = Some (Some (m, off)) \<and>
     unat off + unat len \<le> length (map_bytes m) \<and>
     c_string (even_bytes (take (unat len) (drop (unat off) (map_bytes m))) @ replicate (unat len div 2) 0) 0 = Some name)"

definition module_at :: "xa_env \<Rightarrow> xa_instance \<Rightarrow> mapping \<Rightarrow> u32 \<Rightarrow> string \<Rightarrow> bool" where
  "module_at env inst m off name \<longleftrightarrow>
     os_type inst = XA_OS_LINUX \<and> c_string (map_bytes m) (int (unat off) + 8) = Some name \<or>
     os_type inst = XA_OS_WINDOWS \<and> (\<exists>len buf. rd16 (map_bytes m) (unat off + 0x2c) = Some len \<and>
       rd32 (map_bytes m) (unat off + 0x30) = Some buf \<and> unicode_at env inst len buf name)"

lemma print_unicode_string_prints:
  assumes "coherent env inst0 inst" "unicode_at env inst0 len buf name"
  shows "\<exists>inst'. print_unicode_string env inst len buf = Some (name @ [CHR 0x0A], inst') \<and> coherent env inst0 inst'"
  using assms(1)
  by (cases rule: access_kernel_cases [of _ _ _ _ buf PROT_READ])
    (use assms(2) in \<open>auto simp: print_unicode_string_def unicode_at_def Let_def\<close>)

interpretation modules: ring_walk env inst0 "module_at env inst0" "\<lambda>name. name @ [CHR 0x0A]" lh "list_modules env lh"
  for env inst0 lh
proof
  fix inst a m off inst1
  assume "xa_access_kernel_va env inst a PROT_READ = Some (Some (m, off), inst1)" "rd32 (map_bytes m) (unat off) = Some lh"
  then show "list_modules env lh a inst = Some ([], inst1)" by (subst list_modules.simps) simp
next
  fix inst a m off inst1 next1 name
  assume a: "xa_access_kernel_va env inst a PROT_READ = Some (Some (m, off), inst1)" and c: "coherent env inst0 inst1"
    and n: "rd32 (map_bytes m) (unat off) = Some next1" "next1 \<noteq> lh" and e: "module_at env inst0 m off name"
  have os: "os_type inst1 = os_type inst0" using same_guest_fields(8) [OF guest_coherent_same [OF c]] .
  show "\<exists>inst2. coherent env inst0 inst2 \<and>
      list_modules env lh a inst = do { (ls, inst3) \<leftarrow> list_modules env lh next1 inst2; Some ((name @ [CHR 0x0A]) @ ls, inst3) }"
  proof (cases "os_type inst0 = XA_OS_LINUX")
    case True
    then show ?thesis using a n e os c by (subst list_modules.simps) (auto simp: module_at_def)
  next
    case False
    then obtain len buf where w: "os_type inst0 = XA_OS_WINDOWS" "rd16 (map_bytes m) (unat off + 0x2c) = Some len"
      "rd32 (map_bytes m) (unat off + 0x30) = Some buf" "unicode_at env inst0 len buf name" using e by (auto simp: module_at_def)
    obtain inst2 where "print_unicode_string env inst1 len buf = Some (name @ [CHR 0x0A], inst2)" "coherent env inst0 inst2"
      using print_unicode_string_prints [OF c w(4)] by blast
    then show ?thesis using a n w(1-3) os by (subst list_modules.simps) auto
  qed
qed

section \<open>From the initialisation to the end\<close>

lemma with_instance_runs:
  assumes "init = Some (True, inst)" "work inst = Some (out, inst')" "coherent env inst0 inst'"
  shows "with_instance env init work = Some out"
proof -
  obtain xs ys where "lru_rep (cache inst') xs" "lru_rep (pid_cache inst') ys"
    using assms(3) by (auto simp: guest_coherent_def va_coherent_def pid_coherent_def)
  from xa_destroy_lists [OF this, of env] assms(1,2) show ?thesis by (auto simp: with_instance_def)
qed

text \<open>The tasks of a Linux guest, all but \<open>init_task\<close> with which the list ends.\<close>

definition linux_processes :: "xa_env \<Rightarrow> xa_instance \<Rightarrow> (u32 \<times> u32 \<times> string) list \<Rightarrow> bool" where
  "linux_processes env inst ps \<longleftrightarrow> (let to = l_tasks_offset (linux_inst inst) in
     \<exists>m off inst1 lst. xa_access_kernel_sym env inst ''init_task'' PROT_READ = Some (Some (m, off), inst1) \<and>
       rd_rel (map_bytes m) off to 0 = Some (next_of ps lst) \<and>
       ring env inst (process_at 0x194 (l_pid_offset (linux_inst inst)) to) (next_of ps lst) ps lst)"

text \<open>The System process \<open>p\<close> of a Windows guest, and what its list links to before it is back there;
  the last of these is the head of the list, which the program takes for a process.\<close>

definition windows_processes :: "xa_env \<Rightarrow> xa_instance \<Rightarrow> u32 \<times> string \<Rightarrow> (u32 \<times> u32 \<times> string) list \<Rightarrow> bool" where
  "windows_processes env inst p ps \<longleftrightarrow> (let to = w_tasks_offset (windows_inst inst); po = w_pid_offset (windows_inst inst) in
     \<exists>head inst1 m off lst. xa_read_long_sym env inst ''PsInitialSystemProcess'' = Some (XA_SUCCESS head, inst1) \<and>
       kernel_va_spec env inst head PROT_READ = Some (Some (m, off)) \<and>
       rd_rel (map_bytes m) off to 0 = Some (next_of ps lst) \<and> process_at 0x174 po 0 m off p \<and>
       ring env inst (process_at 0x174 po to) (next_of ps lst) ps lst)"

lemma process_list_linux:
  assumes "coherent env inst inst" "os_type inst = XA_OS_LINUX" "linux_processes env inst ps"
  shows "\<exists>inst'. process_list env inst = Some (concat (map (\<lambda>p. shown (snd p)) ps), inst') \<and> coherent env inst inst'"
proof -
  obtain m off inst1 lst where r: "xa_access_kernel_sym env inst ''init_task'' PROT_READ = Some (Some (m, off), inst1)"
    "rd_rel (map_bytes m) off (l_tasks_offset (linux_inst inst)) 0 = Some (next_of ps lst)"
    "ring env inst (process_at 0x194 (l_pid_offset (linux_inst inst)) (l_tasks_offset (linux_inst inst))) (next_of ps lst) ps lst"
    using assms(3) by (auto simp: linux_processes_def Let_def)
  have "coherent env inst inst1" using kernel.kernel_sym [OF assms(1)] r(1) by (rule staysD)
  from processes.walk_prints [OF this r(3)] r(1,2) assms(2) show ?thesis
    by (auto simp: process_list_def list_from_def)
qed

lemma process_list_windows:
  assumes "coherent env inst inst" "os_type inst = XA_OS_WINDOWS" "windows_processes env inst p ps"
  shows "\<exists>inst'. process_list env inst = Some (process_line (fst p) (snd p) @ concat (map (\<lambda>p. shown (snd p)) ps), inst') \<and>
    coherent env inst inst'"
proof -
  let ?w = "windows_inst inst"
  obtain head inst1 m off lst where r: "xa_read_long_sym env inst ''PsInitialSystemProcess'' = Some (XA_SUCCESS head, inst1)"
    "kernel_va_spec env inst head PROT_READ = Some (Some (m, off))" "rd_rel (map_bytes m) off (w_tasks_offset ?w) 0 = Some (next_of ps lst)"
    "process_at 0x174 (w_pid_offset ?w) 0 m off p"
    "ring env inst (process_at 0x174 (w_pid_offset ?w) (w_tasks_offset ?w)) (next_of ps lst) ps lst"
    using assms(3) unfolding windows_processes_def Let_def by blast
  have "coherent env inst inst1" using coherence.readers(1) [OF assms(1)] r(1) by (rule staysD)
  then obtain inst2 where i: "xa_access_kernel_va env inst1 head PROT_READ = Some (Some (m, off), inst2)" "coherent env inst inst2"
    by (cases rule: access_kernel_cases [of _ _ _ _ head PROT_READ]) (use r(2) in auto)
  from processes.walk_prints [OF i(2) r(5)] r(1,3,4) i(1) assms(2) show ?thesis
    by (auto simp: process_list_def list_from_def process_at_def)
qed

text \<open>The modules of a guest: the symbol \<open>modules\<close> of Linux holds the address of the first, for
  Windows XP the program knows where the list starts.\<close>

definition guest_modules :: "xa_env \<Rightarrow> xa_instance \<Rightarrow> (u32 \<times> string) list \<Rightarrow> bool" where
  "guest_modules env inst ms \<longleftrightarrow> (\<exists>lst. ring env inst (module_at env inst) (next_of ms lst) ms lst \<and>
     (os_type inst = XA_OS_LINUX \<and> map_option fst (xa_read_long_sym env inst ''modules'') = Some (XA_SUCCESS (next_of ms lst)) \<or>
      os_type inst = XA_OS_WINDOWS \<and> (\<exists>m off. rd32 (map_bytes m) (unat off) = Some (next_of ms lst) \<and>
        kernel_va_spec env inst (if pae inst then 0x805533a0 else 0x8055a620) PROT_READ = Some (Some (m, off)))))"

lemma module_list_prints:
  assumes "coherent env inst inst" "guest_modules env inst ms"
  shows "\<exists>inst'. module_list env inst = Some (concat (map (\<lambda>p. snd p @ [CHR 0x0A]) ms), inst') \<and> coherent env inst inst'"
proof -
  obtain lst where r: "ring env inst (module_at env inst) (next_of ms lst) ms lst" and
    os: "os_type inst = XA_OS_LINUX \<and> map_option fst (xa_read_long_sym env inst ''modules'') = Some (XA_SUCCESS (next_of ms lst)) \<or>
      os_type inst = XA_OS_WINDOWS \<and> (\<exists>m off. rd32 (map_bytes m) (unat off) = Some (next_of ms lst) \<and>
        kernel_va_spec env inst (if pae inst then 0x805533a0 else 0x8055a620) PROT_READ = Some (Some (m, off)))"
    using assms(2) unfolding guest_modules_def by blast
  from os have "\<exists>inst1. coherent env inst inst1 \<and> module_list env inst = list_modules env (next_of ms lst) (next_of ms lst) inst1"
  proof (elim disjE conjE exE)
    assume "os_type inst = XA_OS_LINUX" "map_option fst (xa_read_long_sym env inst ''modules'') = Some (XA_SUCCESS (next_of ms lst))"
    moreover from this obtain inst1 where "xa_read_long_sym env inst ''modules'' = Some (XA_SUCCESS (next_of ms lst), inst1)" by auto
    ultimately show ?thesis using staysD [OF coherence.readers(1) [OF assms(1)]] by (auto simp: module_list_def)
  next
    fix m off
    let ?a = "if pae inst then 0x805533a0 else 0x8055a620 :: u32"
    assume w: "os_type inst = XA_OS_WINDOWS" "rd32 (map_bytes m) (unat off) = Some (next_of ms lst)"
      "kernel_va_spec env inst ?a PROT_READ = Some (Some (m, off))"
    from assms(1) show ?thesis
      by (cases rule: access_kernel_cases [of _ _ _ _ ?a PROT_READ]) (use w in \<open>auto simp: module_list_def\<close>)
  qed
  then show ?thesis using modules.walk_prints [OF _ r] by metis
qed

text \<open>A symbol that the cache does not have is looked up in the System.map and its page in the page tables.\<close>

lemma linux_symbol_miss:
  assumes "coherent env inst0 inst" "lru_rep (cache inst) xs" "List.find (sym_hit s 0) xs = None"
    and "\<And>i. only_cache inst i \<Longrightarrow> linux_system_map_symbol_to_address env i s = Some (XA_SUCCESS v, i)"
    and "xa_translate_kv2p env inst0 v = Some a" "kernel_va_spec env inst0 v prot = Some r"
  shows "\<exists>inst'. linux_access_kernel_symbol env inst s prot = Some (r, inst')"
proof -
  obtain inst1 xs1 where c: "xa_check_cache_sym env inst s 0 = Some (None, inst1)" "only_cache inst inst1" "lru_rep (cache inst1) xs1"
    using xa_check_cache_sym_rep [OF assms(2), of env s 0] assms(3) by auto
  have c1: "coherent env inst0 inst1" using staysD [OF kernel.check_sym [OF assms(1)] c(1)] .
  have "xa_translate_kv2p env inst1 v = Some a"
    using assms(5) guest_coherent_same [OF c1] by (simp add: xa_translate_kv2p_def same_guest_walk [of inst0 inst1])
  then have "Some s = None \<or> sym_mach env inst1 v 0 = Some a" by (simp add: sym_mach_def)
  then obtain inst2 where u: "xa_update_cache env inst1 (Some s) v 0 0 = Some inst2" using xa_update_cache_rep [OF c(3)] by blast
  have "coherent env inst0 inst2" using kernel.enter_symbol [OF c1 u] .
  then show ?thesis using xa_access_kernel_va_coherent(1) [of env inst0 _ inst2 v prot] assms(6) c(1,2) u assms(4)
    by (auto simp: linux_access_kernel_symbol_def)
qed

section \<open>A guest\<close>

text \<open>A fully virtualised Linux guest with the process \<open>sh\<close> beside the idle task and the module
  \<open>ext3\<close>. Every frame but the first, which holds the page directory, has the same contents.\<close>

definition guest_page :: "u8 list" where
  "guest_page = [0x08, 0x10, 0, 0, 0, 0, 0, 0, 0x00, 0x10, 0, 0, 42, 0, 0, 0, 0x14, 0x10, 0, 0, 0x10, 0x10, 0, 0, 0, 0, 0, 0,
     0x65, 0x78, 0x74, 0x33, 0] @ replicate 379 0 @ [0x73, 0x68, 0]"

definition guest_symbols :: "(u32 \<times> char \<times> string) list" where
  "guest_symbols = [(0x2000, CHR ''D'', ''swapper_pg_dir''), (0x1000, CHR ''D'', ''init_task''), (0x1010, CHR ''D'', ''modules'')]"

abbreviation (input) guest_conf :: string where
  "guest_conf \<equiv> ''dom1 {ostype = \"Linux\"; sysmap = \"/boot/map\"; linux_pid = 4;}''"

definition guest_env :: xa_env where
  "guest_env = (flat_env (\<lambda>f. guest_page))
    \<lparr>xs_read := (\<lambda>p. if p = ''/local/domain/1/memory/target'' then Some ''16'' else if p = ''/local/domain/1/name'' then Some ''dom1''
       else if p = ''/local/domain/1/vm'' then Some ''/vm'' else Some ''hvm''),
     fopen_text := (\<lambda>p. Some (if p = ''/etc/xenaccess.conf'' then guest_conf else concat (map map_line guest_symbols)))\<rparr>"

lemma guest_reads:
  "rd_rel guest_page 0 0 0 = Some 0x1008" "rd32 guest_page 8 = Some 0x1000" "rd_rel guest_page 8 4 0 = Some 42"
  "c_string guest_page 412 = Some ''sh''" "rd32 guest_page 16 = Some 0x1014" "rd32 guest_page 20 = Some 0x1010"
  "c_string guest_page 28 = Some ''ext3''" "rd32 guest_page 0 = Some 0x1008"
  by code_simp+

lemma guest_lookup:
  assumes "sysmap i = Some ''/boot/map''"
  shows "linux_system_map_symbol_to_address guest_env i ''swapper_pg_dir'' = Some (XA_SUCCESS 0x2000, i)"
    "linux_system_map_symbol_to_address guest_env i ''init_task'' = Some (XA_SUCCESS 0x1000, i)"
    "linux_system_map_symbol_to_address guest_env i ''modules'' = Some (XA_SUCCESS 0x1010, i)"
  by (subst system_map_find [OF assms, where es = guest_symbols];
      simp add: guest_env_def guest_symbols_def map_entry_def token_def isspace_def)+

lemma guest_memory:
  assumes "plain_inst i" "\<not> pae i" "v < 0x400000" "drop_bit 12 v \<noteq> 0"
  shows "xa_translate_kv2p guest_env i v = Some v"
    "xa_access_ma guest_env i v prot = Some (map_page_of prot guest_page, 0xFFF AND v)"
    "kernel_va_spec guest_env i v prot = Some (Some (map_page_of prot guest_page, 0xFFF AND v))"
proof -
  let ?e = "flat_env (\<lambda>f. guest_page)"
  show t: "xa_translate_kv2p guest_env i v = Some v"
    by (subst machine_translate [of _ ?e]) (simp_all add: guest_env_def flat_kv2p assms)
  show m: "xa_access_ma guest_env i v prot = Some (map_page_of prot guest_page, 0xFFF AND v)"
    by (subst machine_access_ma [of _ ?e]) (simp_all add: guest_env_def flat_access_ma assms)
  have "v \<noteq> 0" using assms(4) by auto
  then show "kernel_va_spec guest_env i v prot = Some (Some (map_page_of prot guest_page, 0xFFF AND v))"
    by (simp add: kernel_va_spec_def t m)
qed

text \<open>Up to the initialisation of Linux.\<close>

definition guest_ready :: "xa_instance \<Rightarrow> bool" where
  "guest_ready i \<longleftrightarrow> os_type i = XA_OS_LINUX \<and> sysmap i = Some ''/boot/map'' \<and> plain_inst i \<and> \<not> pae i \<and>
     l_tasks_offset (linux_inst i) = 0 \<and> l_pid_offset (linux_inst i) = 4"

lemma guest_config: "xa_parse_config guest_conf ''dom1'' = Some \<lparr>cfg_sysmap = ''/boot/map'', cfg_ostype = ''Linux'',
    cfg_linux = \<lparr>l_tasks_offset = 0, l_mm_offset = 0, l_pid_offset = 4, l_pgd_offset = 0, l_addr_offset = 0\<rparr>,
    cfg_windows = \<lparr>w_ntoskrnl = 0, w_tasks_offset = 0, w_pdbase_offset = 4, w_pid_offset = 0, w_peb_offset = 0, w_iba_offset = 0, w_ph_offset = 0\<rparr>\<rparr>"
  by code_simp

lemma guest_names: "int_str (sint (1 :: u32)) = ''1''" "xa_ishvm guest_env 1 = Some True"
  "strtol10 ''16'' = 16" "strtol10 ''1'' = 1" "int_str 3 = ''3''" "int_str 1 = ''1''"
  by code_simp+

lemma guest_start:
  "\<exists>i. xa_init_vm_id_strict guest_env 1 = linux_init guest_env i \<and> empty_caches i \<and> hvm i \<and> guest_ready i"
proof -
  have e: "xc_interface_open guest_env" "xc_domain_getinfo guest_env = (\<lambda>d. True)" "xc_version guest_env = 0x30001"
    "xc_extraversion guest_env = ''.0''" "fopen_text guest_env ''/etc/xenaccess.conf'' = Some guest_conf"
    "vcpu_ctrlreg guest_env = (\<lambda>d n. Some (if n = 0 then 0x80000000 else 0))"
    "xs_read guest_env ''/local/domain/1/name'' = Some ''dom1''" "xs_read guest_env ''/local/domain/1/memory/target'' = Some ''16''"
    by (simp_all add: guest_env_def flat_env_def frames_env_def)
  show ?thesis
    apply (simp add: xa_init_vm_id_strict_def xa_init_vm_private_def helper_init_def e init_xen_version_def read_config_file_def
      apply_config_def get_page_info_xen_def init_page_offset_def get_memory_size_def xa_init_common_def Let_def xa_instance_zero_def
      guest_names guest_config sprintf100_def strncmp_eq_def xa_get_bit_def)
    apply (rule exI, rule conjI, rule refl)
    apply (simp add: empty_caches_def guest_ready_def copy_linux_offsets_def override_def plain_inst_def std_pages_def
      lru_init_def lru_rep_def lru_ok_def)
    done
qed

lemma guest_ready_settings:
  "guest_ready (i\<lparr>kpgd := a\<rparr>) = guest_ready i" "guest_ready (i\<lparr>init_task := a\<rparr>) = guest_ready i"
  "guest_ready (i\<lparr>cache := c, ticks := t\<rparr>) = guest_ready i"
  by (simp_all add: guest_ready_def plain_inst_def std_pages_def)

lemma guest_opens:
  obtains inst e p where "xa_init_vm_id_strict guest_env 1 = Some (True, inst)" "guest_ready inst" "lru_rep (cache inst) [e, p]"
    "sym_hit ''init_task'' 0 e" "ce_mach_address e = 0x1000" "ce_symbol_name e = ''init_task''" "ce_symbol_name p = []"
proof -
  obtain i where i: "xa_init_vm_id_strict guest_env 1 = linux_init guest_env i" "empty_caches i" "hvm i" "guest_ready i"
    using guest_start by blast
  let ?j = "i\<lparr>kpgd := 0x2000\<rparr>"
  have k: "linux_kpgd guest_env i = Some (True, ?j)"
    using guest_lookup(1) [of i] i(3,4) by (simp add: linux_kpgd_def out_val_def guest_ready_def)
  have j: "guest_ready ?j" "empty_caches ?j" using i(2,4) by (simp_all add: guest_ready_settings)
  have m: "xa_translate_kv2p guest_env ?j 0x1000 = Some 0x1000"
    "xa_access_ma guest_env ?j 0x1000 PROT_READ = Some (map_page_of PROT_READ guest_page, 0)"
    using guest_memory(1) [of ?j "0x1000"] guest_memory(2) [of ?j "0x1000" PROT_READ] j(1) by (simp_all add: guest_ready_def)
  have "linux_system_map_symbol_to_address guest_env ?j ''init_task'' = Some (XA_SUCCESS 0x1000, ?j)"
    using guest_lookup(2) j(1) by (simp add: guest_ready_def)
  from mapped_symbol [OF j(2) _ _ this _ m(1) _ m(2)] obtain inst' e p where
    s: "linux_access_kernel_symbol guest_env ?j ''init_task'' PROT_READ = Some (Some (map_page_of PROT_READ guest_page, 0), inst')"
      "only_cache ?j inst'" "lru_rep (cache inst') [e, p]"
      "sym_hit ''init_task'' 0 e" "ce_mach_address e = 0x1000" "ce_symbol_name e = ''init_task''" "ce_symbol_name p = []"
    by auto
  have r: "guest_ready inst'" using j(1) s(2) guest_ready_settings(3) unfolding only_cache_def by metis
  have "linux_init guest_env i = Some (True, inst'\<lparr>init_task := 0x1008\<rparr>)"
    using k s(1) j(1) r guest_reads(1) by (simp add: linux_init_def xa_access_kernel_sym_def guest_ready_def read_task_head_def map_page_of_def)
  then show thesis using that [of "inst'\<lparr>init_task := 0x1008\<rparr>" e p] i(1) s(3-7) r by (simp add: guest_ready_settings)
qed

lemma guest_lists_sh:
  assumes "guest_ready inst" "lru_rep (cache inst) [e, p]" "sym_hit ''init_task'' 0 e" "ce_mach_address e = 0x1000"
  shows "linux_processes guest_env inst [(0x1008, 42, ''sh'')]"
proof -
  have g: "plain_inst inst" "\<not> pae inst" "os_type inst = XA_OS_LINUX" "l_tasks_offset (linux_inst inst) = 0" "l_pid_offset (linux_inst inst) = 4"
    using assms(1) by (simp_all add: guest_ready_def)
  obtain inst' where "linux_access_kernel_symbol guest_env inst ''init_task'' PROT_READ = Some (xa_access_ma guest_env inst 0x1000 PROT_READ, inst')"
    using cached_symbol [OF assms(2), of "''init_task''" e guest_env PROT_READ] assms(3,4) by auto
  then have "xa_access_kernel_sym guest_env inst ''init_task'' PROT_READ = Some (Some (map_page_of PROT_READ guest_page, 0), inst')"
    using g(3) guest_memory(2) [of inst "0x1000" PROT_READ] g(1,2) by (simp add: xa_access_kernel_sym_def)
  then show ?thesis unfolding linux_processes_def Let_def g(4,5)
    by (intro exI [of _ "map_page_of PROT_READ guest_page"] exI [of _ 0] exI [of _ inst'] exI [of _ "0x1000"])
      (simp add: guest_memory [OF g(1,2)] guest_reads process_at_def map_page_of_def)
qed

lemma guest_lists_ext3:
  assumes "coherent guest_env inst inst" "guest_ready inst" "lru_rep (cache inst) [e, p]"
    and "ce_symbol_name e = ''init_task''" "ce_symbol_name p = []"
  shows "guest_modules guest_env inst [(0x1014, ''ext3'')]"
proof -
  have g: "plain_inst inst" "\<not> pae inst" "os_type inst = XA_OS_LINUX" using assms(2) by (simp_all add: guest_ready_def)
  have n: "List.find (sym_hit ''modules'' 0) [e, p] = None" using assms(4,5) by (simp add: sym_hit_def sym_match_def strncmp_eq_def)
  have k: "kernel_va_spec guest_env inst 0x1010 PROT_READ = Some (Some (map_page_of PROT_READ guest_page, 0x10))"
    using guest_memory(3) [of inst "0x1010" PROT_READ] g(1,2) by simp
  have l: "linux_system_map_symbol_to_address guest_env i ''modules'' = Some (XA_SUCCESS 0x1010, i)" if "only_cache inst i" for i
  proof -
    have "guest_ready i" using assms(2) that guest_ready_settings(3) unfolding only_cache_def by metis
    then show ?thesis using guest_lookup(3) by (simp add: guest_ready_def)
  qed
  obtain inst' where "linux_access_kernel_symbol guest_env inst ''modules'' PROT_READ = Some (Some (map_page_of PROT_READ guest_page, 0x10), inst')"
    using linux_symbol_miss [OF assms(1,3) n l _ k] guest_memory(1) [of inst "0x1010"] g(1,2) by auto
  then have "map_option fst (xa_read_long_sym guest_env inst ''modules'') = Some (XA_SUCCESS 0x1014)"
    using g(3) guest_reads(5) by (simp add: xa_read_long_sym_def xa_access_kernel_sym_def read_mapped_def map_page_of_def)
  then show ?thesis unfolding guest_modules_def
    by (intro exI [of _ "0x1010"]) (simp add: g(3) guest_memory [OF g(1,2)] guest_reads module_at_def map_page_of_def)
qed

section \<open>Properties\<close>

text \<open>(C6) \<open>process-list\<close> from start to end: when the library can be initialised for the domain and the
  guest's tasks form a circular list that starts behind \<open>init_task\<close>, or behind the System process of a
  Windows guest, the program walks the list once, ends, and prints one line with pid and name for every entry
  after the first, in the order of the list, but for negative pids; on Windows the System process comes before
  them.\<close>

theorem process_list_main_prints:
  assumes "xa_init_vm_id_strict env (word_of_int (strtol10 arg1)) = Some (True, inst)"
  shows "(os_type inst = XA_OS_LINUX \<and> linux_processes env inst ps \<longrightarrow>
      process_list_main env arg1 = Some (concat (map (\<lambda>p. shown (snd p)) ps))) \<and>
    (os_type inst = XA_OS_WINDOWS \<and> windows_processes env inst p ps \<longrightarrow>
      process_list_main env arg1 = Some (process_line (fst p) (snd p) @ concat (map (\<lambda>p. shown (snd p)) ps)))"
proof -
  have c: "coherent env inst inst" using opened_coherent [OF opened.vm_id_strict [OF assms]] .
  show ?thesis unfolding process_list_main_def
    using process_list_linux [OF c] process_list_windows [OF c] with_instance_runs [OF assms] by blast
qed

theorem process_list_main_prints_witness:
  "process_list_main guest_env ''1'' = Some (''[   42] sh'' @ [CHR 0x0A])"
proof -
  obtain inst e p where g: "xa_init_vm_id_strict guest_env 1 = Some (True, inst)" "guest_ready inst" "lru_rep (cache inst) [e, p]"
    "sym_hit ''init_task'' 0 e" "ce_mach_address e = 0x1000" using guest_opens by metis
  have "xa_init_vm_id_strict guest_env (word_of_int (strtol10 ''1'')) = Some (True, inst)" using g(1) by (simp add: guest_names)
  from process_list_main_prints [OF this, of "[(0x1008, 42, ''sh'')]"] guest_lists_sh [OF g(2-5)] g(2)
  have "process_list_main guest_env ''1'' = Some (shown (42, ''sh''))" by (simp add: guest_ready_def)
  moreover have "shown (42, ''sh'') = ''[   42] sh'' @ [CHR 0x0A]" by code_simp
  ultimately show ?thesis by simp
qed

text \<open>(C16) \<open>module-list\<close> from start to end: when the library can be initialised for the domain and the
  guest's modules form a circular list, the program walks the list once, ends, and prints the name of every
  module in the order of the list, on Windows the even bytes of its UTF-16 name.\<close>

theorem module_list_main_prints:
  assumes "xa_init_vm_id_strict env (word_of_int (strtol10 arg1)) = Some (True, inst)" "guest_modules env inst ms"
  shows "module_list_main env arg1 = Some (concat (map (\<lambda>p. snd p @ [CHR 0x0A]) ms))"
proof -
  have c: "coherent env inst inst" using opened_coherent [OF opened.vm_id_strict [OF assms(1)]] .
  show ?thesis unfolding module_list_main_def
    using module_list_prints [OF c assms(2)] with_instance_runs [OF assms(1)] by blast
qed

theorem module_list_main_prints_witness:
  "module_list_main guest_env ''1'' = Some (''ext3'' @ [CHR 0x0A])"
proof -
  obtain inst e p where g: "xa_init_vm_id_strict guest_env 1 = Some (True, inst)" "guest_ready inst" "lru_rep (cache inst) [e, p]"
    "ce_symbol_name e = ''init_task''" "ce_symbol_name p = []" using guest_opens by metis
  have c: "coherent guest_env inst inst" using opened_coherent [OF opened.vm_id_strict [OF g(1)]] .
  have "xa_init_vm_id_strict guest_env (word_of_int (strtol10 ''1'')) = Some (True, inst)" using g(1) by (simp add: guest_names)
  from module_list_main_prints [OF this guest_lists_ext3 [OF c g(2-5)]] show ?thesis by simp
qed

end
