(* ===== verification/Xa_Pyxa.thy ===== *)
theory Xa_Pyxa
  imports Xa_Dump Xa_Print Xa_Lifecycle "HOL-Library.Sublist"
begin

text \<open>
  The Python module \<open>tools/pyxa/pyxamodule.c\<close>: its object type with the page it keeps
  mapped, the methods, and the session of a script that makes an object, calls its methods and drops it.
  What the Python library does with the arguments of a call is a parameter. The lemmas show that the
  module never holds more than one page, that it gives every page back, and that a script that reads
  all pages sees the image that \<open>dump-memory\<close> writes.
\<close>

section \<open>Objects and values\<close>

text \<open>The pointer \<open>memory\<close>: NULL, the page last mapped, or what the allocator left in a new
  object.\<close>

datatype py_mem = PyNull | PyPage mapping | PyStale

record pyxa_instance =
  py_xai :: xa_instance
  py_memory :: py_mem

datatype py_exc = ArgumentError | ValueError string

datatype py_value = PyBytes "u8 list" | PyUInt u32 | PyBool bool

type_synonym py_result = "py_exc + py_value"

text \<open>\<open>PyArg_ParseTuple\<close> with the formats \<open>"I"\<close> and the empty one.\<close>

record 'a py_api =
  parse_I :: "'a \<Rightarrow> u32 option"
  parse_none :: "'a \<Rightarrow> bool"

text \<open>The pages that a call maps and unmaps, in order.\<close>

datatype py_event = Mapped mapping | Unmapped mapping

text \<open>\<open>if(memory) munmap(memory, PAGE_SIZE)\<close>; on a pointer that was never set it is undefined.\<close>

definition py_unmap :: "py_mem \<Rightarrow> py_event list option" where
  "py_unmap p = (case p of PyNull \<Rightarrow> Some [] | PyPage m \<Rightarrow> Some [Unmapped m] | PyStale \<Rightarrow> None)"

section \<open>Constructor and destructor\<close>

text \<open>\<open>PyObject_NEW\<close> does not clear the object: \<open>raw\<close> is what stands in
  \<open>memory\<close>.\<close>

definition pyxa_instance_new ::
  "'a py_api \<Rightarrow> py_mem \<Rightarrow> xa_env \<Rightarrow> 'a \<Rightarrow> (py_exc + pyxa_instance) option" where
  "pyxa_instance_new api raw env args = (case parse_I api args of
       None \<Rightarrow> Some (Inl ArgumentError)
     | Some dom_id \<Rightarrow> do {
         (ok, xai) \<leftarrow> xa_init_vm_id_strict env dom_id;
         Some (if \<not> ok then Inl (ValueError ''Init failed for domain'')
               else Inr \<lparr>py_xai = xai, py_memory = raw\<rparr>) })"

definition pyxa_instance_dealloc :: "xa_env \<Rightarrow> pyxa_instance \<Rightarrow> py_event list option" where
  "pyxa_instance_dealloc env self = do {
     (r, xai) \<leftarrow> xa_destroy env (py_xai self);
     py_unmap (py_memory self) }"

section \<open>Methods\<close>

abbreviation (input) PAGE_SIZE :: u32 where "PAGE_SIZE \<equiv> 4096"

type_synonym 'a py_method = "'a py_api \<Rightarrow> xa_env \<Rightarrow> pyxa_instance \<Rightarrow> 'a \<Rightarrow> (py_result \<times> pyxa_instance \<times> py_event list) option"

text \<open>\<open>Py_BuildValue("s#", p, n)\<close> copies \<open>n\<close> bytes; it is undefined when they leave
  the page.\<close>

definition pyxa_read :: "'a py_method" where
  "pyxa_read api env self args = (case parse_I api args of
       None \<Rightarrow> Some (Inl ArgumentError, self, [])
     | Some pfn \<Rightarrow> do {
         ev \<leftarrow> py_unmap (py_memory self);
         (m, xai) \<leftarrow> xa_access_pa env (py_xai self) pfn PROT_READ;
         (case m of
            None \<Rightarrow> Some (Inl (ValueError ''Unable to read memory at specified address''),
                \<lparr>py_xai = xai, py_memory = PyNull\<rparr>, ev)
          | Some (memory, offset) \<Rightarrow>
              let n = unat (PAGE_SIZE - offset);
                  returned_memory = drop (unat offset) (map_bytes memory)
              in if length returned_memory < n then None
                 else Some (Inr (PyBytes (take n returned_memory)),
                   \<lparr>py_xai = xai, py_memory = PyPage memory\<rparr>, ev @ [Mapped memory])) })"

text \<open>A method without arguments that reads the instance.\<close>

definition py_getter :: "(xa_instance \<Rightarrow> u32) \<Rightarrow> 'a py_method" where
  "py_getter f api env self args =
     Some (if \<not> parse_none api args then Inl ArgumentError else Inr (PyUInt (f (py_xai self))), self, [])"

definition pyxa_get_cr3 :: "'a py_method" where
  "pyxa_get_cr3 = py_getter (\<lambda>xai. kpgd xai - page_offset xai)"

definition pyxa_get_domain_id :: "'a py_method" where
  "pyxa_get_domain_id = py_getter (\<lambda>xai. domain_id (m_xen xai))"

definition pyxa_get_size :: "'a py_method" where
  "pyxa_get_size = py_getter (\<lambda>xai. xen_size (m_xen xai))"

text \<open>The two flags do not look at their arguments.\<close>

definition pyxa_is_pae :: "'a py_method" where
  "pyxa_is_pae api env self args = Some (Inr (PyBool (pae (py_xai self))), self, [])"

definition pyxa_is_pse :: "'a py_method" where
  "pyxa_is_pse api env self args = Some (Inr (PyBool (pse (py_xai self))), self, [])"

definition pyxa_instance_methods :: "(string \<times> 'a py_method) list" where
  "pyxa_instance_methods = [(''read'', pyxa_read), (''get_cr3'', pyxa_get_cr3), (''get_domain_id'', pyxa_get_domain_id),
     (''get_size'', pyxa_get_size), (''is_pae'', pyxa_is_pae), (''is_pse'', pyxa_is_pse)]"

text \<open>\<open>Py_FindMethod\<close> is the Python library's.\<close>

definition pyxa_instance_getattr ::
  "((string \<times> 'a py_method) list \<Rightarrow> pyxa_instance \<Rightarrow> string \<Rightarrow> 'r) \<Rightarrow> pyxa_instance \<Rightarrow> string \<Rightarrow> 'r" where
  "pyxa_instance_getattr Py_FindMethod self attrname = Py_FindMethod pyxa_instance_methods self attrname"

text \<open>\<open>sprintf\<close> into a buffer of 50 characters.\<close>

definition pyxa_instance_repr :: "pyxa_instance \<Rightarrow> string option" where
  "pyxa_instance_repr self =
     (let buf = ''<pyxa_instance for domain id '' @ int_str (sint (domain_id (m_xen (py_xai self)))) @ ''>''
      in if length buf < 50 then Some buf else None)"

text \<open>\<open>%#x\<close>\<close>

definition alt_hex :: "u32 \<Rightarrow> string" where
  "alt_hex v = (if v = 0 then ''0'' else ''0x'' @ hex_str (unat v))"

fun xen_ver_num :: "xen_ver \<Rightarrow> int" where
  "xen_ver_num XA_XENVER_UNKNOWN = 0"
| "xen_ver_num XA_XENVER_3_0_4 = 1"
| "xen_ver_num XA_XENVER_3_1_0 = 2"
| "xen_ver_num XA_XENVER_3_1_1 = 3"
| "xen_ver_num XA_XENVER_3_1_2 = 4"
| "xen_ver_num XA_XENVER_3_1_3 = 5"
| "xen_ver_num XA_XENVER_3_1_4 = 6"
| "xen_ver_num XA_XENVER_3_2_0 = 7"
| "xen_ver_num XA_XENVER_3_2_1 = 8"
| "xen_ver_num XA_XENVER_3_2_2 = 9"
| "xen_ver_num XA_XENVER_3_2_3 = 10"
| "xen_ver_num XA_XENVER_3_3_0 = 11"
| "xen_ver_num XA_XENVER_3_3_1 = 12"
| "xen_ver_num XA_XENVER_3_4_0 = 13"

definition print_debug :: "xa_instance \<Rightarrow> string" where
  "print_debug xai =
     ''DEBUG: KPGD ['' @ alt_hex (kpgd xai) @ ''] CR3: ['' @ alt_hex (inst_cr3 xai) @ ''] DomId: ['' @
     int_str (sint (domain_id (m_xen xai))) @ ''] Version: ['' @ int_str (xen_ver_num (xen_version (m_xen xai))) @ '']'' @
     [CHR 0x0A] @ ''       Memory size: ['' @ int_str (sint (xen_size (m_xen xai))) @ ''] OS Type: ['' @
     (if os_type xai = XA_OS_LINUX then ''Linux'' else ''Windows'') @ '']'' @ [CHR 0x0A]"

section \<open>The module\<close>

text \<open>The slots of the type object that are set, and the table of the module's functions.\<close>

record ('a, 'r) py_type =
  tp_name :: string
  tp_dealloc :: "xa_env \<Rightarrow> pyxa_instance \<Rightarrow> py_event list option"
  tp_getattr :: "((string \<times> 'a py_method) list \<Rightarrow> pyxa_instance \<Rightarrow> string \<Rightarrow> 'r) \<Rightarrow> pyxa_instance \<Rightarrow> string \<Rightarrow> 'r"
  tp_repr :: "pyxa_instance \<Rightarrow> string option"

definition pyxa_instance_Type :: "('a, 'r) py_type" where
  "pyxa_instance_Type = \<lparr>tp_name = ''pyxa_instance'', tp_dealloc = pyxa_instance_dealloc, tp_getattr = pyxa_instance_getattr,
     tp_repr = pyxa_instance_repr\<rparr>"

type_synonym 'a py_function = "'a py_api \<Rightarrow> py_mem \<Rightarrow> xa_env \<Rightarrow> 'a \<Rightarrow> (py_exc + pyxa_instance) option"

definition PyXaMethods :: "(string \<times> 'a py_function) list" where
  "PyXaMethods = [(''pyxa_instance'', pyxa_instance_new)]"

text \<open>The interpreter and the calls that set it up are the Python library's.\<close>

record ('a, 'p) py_interpreter =
  Py_SetProgramName :: "string \<Rightarrow> 'p \<Rightarrow> 'p"
  Py_Initialize :: "'p \<Rightarrow> 'p"
  Py_InitModule :: "string \<Rightarrow> (string \<times> 'a py_function) list \<Rightarrow> 'p \<Rightarrow> 'p"

definition initpyxa :: "('a, 'p) py_interpreter \<Rightarrow> 'p \<Rightarrow> 'p" where
  "initpyxa py = Py_InitModule py ''pyxa'' PyXaMethods"

definition pyxa_main :: "('a, 'p) py_interpreter \<Rightarrow> string \<Rightarrow> 'p \<Rightarrow> int \<times> 'p" where
  "pyxa_main py argv0 p = (0, initpyxa py (Py_Initialize py (Py_SetProgramName py argv0 p)))"

section \<open>Sessions\<close>

text \<open>The calls of a script on one object, by the names of the methods.\<close>

fun pyxa_calls ::
  "'a py_api \<Rightarrow> xa_env \<Rightarrow> pyxa_instance \<Rightarrow> (string \<times> 'a) list \<Rightarrow> (py_result list \<times> pyxa_instance \<times> py_event list) option" where
  "pyxa_calls api env self [] = Some ([], self, [])"
| "pyxa_calls api env self ((name, args) # cs) = do {
     f \<leftarrow> map_of pyxa_instance_methods name;
     (r, self1, ev) \<leftarrow> f api env self args;
     (rs, self2, evs) \<leftarrow> pyxa_calls api env self1 cs;
     Some (r # rs, self2, ev @ evs) }"

text \<open>The bytes that the calls returned.\<close>

fun read_bytes :: "py_result list \<Rightarrow> u8 list list" where
  "read_bytes [] = []"
| "read_bytes (Inr (PyBytes bs) # rs) = bs # read_bytes rs"
| "read_bytes (r # rs) = read_bytes rs"

lemma read_bytes_append [simp]: "read_bytes (rs @ ss) = read_bytes rs @ read_bytes ss"
  by (induction rs rule: read_bytes.induct) auto

text \<open>The page that the object holds.\<close>

definition held :: "py_mem \<Rightarrow> mapping list" where
  "held p = (case p of PyPage m \<Rightarrow> [m] | _ \<Rightarrow> [])"

lemma held_simps [simp]: "held PyNull = []" "held (PyPage m) = [m]"
  by (simp_all add: held_def)

text \<open>What every call keeps: the guest, a pointer that was set, and the order of events: the page held
  is unmapped before another is mapped.\<close>

definition pairs :: "mapping list \<Rightarrow> py_event list" where
  "pairs ms = concat (map (\<lambda>m. [Mapped m, Unmapped m]) ms)"

lemma pairs_append [simp]: "pairs (ms @ ns) = pairs ms @ pairs ns" "pairs [] = []" "pairs (m # ns) = Mapped m # Unmapped m # pairs ns"
  by (simp_all add: pairs_def)

definition reads_page :: "u8 list \<Rightarrow> mapping \<Rightarrow> bool" where
  "reads_page bs m \<longleftrightarrow> suffix bs (map_bytes m)"

definition py_ok :: "xa_env \<Rightarrow> xa_instance \<Rightarrow> pyxa_instance \<Rightarrow> bool" where
  "py_ok env xai self \<longleftrightarrow> same_frames env xai (py_xai self) \<and> py_memory self \<noteq> PyStale"

text \<open>The guest answers for every physical address, with whole pages.\<close>

definition readable :: "xa_env \<Rightarrow> xa_instance \<Rightarrow> bool" where
  "readable env xai \<longleftrightarrow> std_pages xai \<and> full_pages env xai \<and> (\<forall>a. xa_access_pa env xai a PROT_READ \<noteq> None)"

text \<open>What a read of an address gives, in terms of the library.\<close>

definition read_value :: "(mapping \<times> u32) option \<Rightarrow> py_result" where
  "read_value m = (case m of None \<Rightarrow> Inl (ValueError ''Unable to read memory at specified address'')
     | Some (memory, offset) \<Rightarrow> Inr (PyBytes (drop (unat offset) (map_bytes memory))))"

lemma access_pa_offset:
  "std_pages inst \<Longrightarrow> xa_access_pa env inst a prot = Some (Some (m, off), inst') \<Longrightarrow> unat off = unat a mod 4096"
  using page_offset_unat [of inst a]
  by (auto simp: xa_access_pa_def xa_mmap_pfn_def Let_def split: Option.bind_split_asm if_split_asm)

lemma page_rest: "unat off < 4096 \<Longrightarrow> unat (4096 - off) = 4096 - unat (off :: u32)"
  by (subst unat_sub) (simp_all add: word_le_nat_alt)

lemma readable_access:
  assumes "py_ok env xai self" "readable env xai"
  obtains m xai1 where "xa_access_pa env (py_xai self) a PROT_READ = Some (m, xai1)" "same_frames env xai xai1"
    "map_option fst (xa_access_pa env xai a PROT_READ) = Some m"
    "\<And>memory off. m = Some (memory, off) \<Longrightarrow> unat off < 4096 \<and> length (map_bytes memory) = 4096"
proof -
  have sf: "same_frames env xai (py_xai self)" using assms(1) by (simp add: py_ok_def)
  have e: "map_option fst (xa_access_pa env (py_xai self) a PROT_READ) = map_option fst (xa_access_pa env xai a PROT_READ)"
    using sf by (rule same_frames_access_pa)
  moreover have "xa_access_pa env xai a PROT_READ \<noteq> None" using assms(2) by (simp add: readable_def)
  ultimately obtain m xai1 where a: "xa_access_pa env (py_xai self) a PROT_READ = Some (m, xai1)"
    by (cases "xa_access_pa env (py_xai self) a PROT_READ") auto
  have s1: "same_frames env xai xai1" using same_frames_trans [OF sf access_pa_same_frames [OF a]] .
  have "std_pages (py_xai self)" "full_pages env (py_xai self)"
    using assms(2) same_frames_fields [OF sf] full_same_frames [OF sf] by (auto simp: readable_def std_pages_def)
  then have "unat off < 4096 \<and> length (map_bytes memory) = 4096" if "m = Some (memory, off)" for memory off
    using a that access_pa_offset access_pa_full by auto
  moreover have "map_option fst (xa_access_pa env xai a PROT_READ) = Some m" using a e by simp
  ultimately show thesis using that [OF a s1] by blast
qed

lemma pyxa_read_value:
  assumes "py_ok env xai self" "readable env xai" "parse_I api args = Some a"
  obtains m self' ev where "pyxa_read api env self args = Some (read_value m, self', ev)"
    "map_option fst (xa_access_pa env xai a PROT_READ) = Some m" "py_ok env xai self'"
    "py_memory self' = (case m of None \<Rightarrow> PyNull | Some (memory, off) \<Rightarrow> PyPage memory)"
    "ev = map Unmapped (held (py_memory self)) @ map Mapped (held (py_memory self'))"
proof -
  obtain m xai1 where a: "xa_access_pa env (py_xai self) a PROT_READ = Some (m, xai1)" "same_frames env xai xai1"
    "map_option fst (xa_access_pa env xai a PROT_READ) = Some m"
    "\<And>memory off. m = Some (memory, off) \<Longrightarrow> unat off < 4096 \<and> length (map_bytes memory) = 4096"
    using readable_access [OF assms(1,2)] by blast
  have u: "py_unmap (py_memory self) = Some (map Unmapped (held (py_memory self)))"
    using assms(1) by (cases "py_memory self") (auto simp: py_ok_def py_unmap_def)
  show thesis
  proof (cases m)
    case None
    then show thesis
      using that [of m "\<lparr>py_xai = xai1, py_memory = PyNull\<rparr>"] a(1-3) u assms(3)
      by (simp add: pyxa_read_def read_value_def py_ok_def)
  next
    case (Some mo)
    obtain memory off where mo: "m = Some (memory, off)" using Some by (cases mo) auto
    then show thesis
      using that [of m "\<lparr>py_xai = xai1, py_memory = PyPage memory\<rparr>"] a u assms(3) page_rest [of off]
      by (simp add: pyxa_read_def read_value_def py_ok_def)
  qed
qed

text \<open>One call. The events, after the mapping of the page held before, are complete pairs and the mapping
  of the page held after.\<close>

definition py_step :: "pyxa_instance \<Rightarrow> py_result \<Rightarrow> pyxa_instance \<Rightarrow> py_event list \<Rightarrow> bool" where
  "py_step self r self' ev \<longleftrightarrow> (\<exists>ms new. map Mapped (held (py_memory self)) @ ev = pairs ms @ map Mapped (held (py_memory self')) \<and>
     held (py_memory self) @ new = ms @ held (py_memory self') \<and> list_all2 reads_page (read_bytes [r]) new)"

lemma py_step_same: "read_bytes [r] = [] \<Longrightarrow> py_step self r self []"
  unfolding py_step_def by (rule exI [of _ "[]"]) simp

lemma pyxa_read_step:
  assumes "py_ok env xai self" "readable env xai"
  shows "\<exists>r self' ev. pyxa_read api env self args = Some (r, self', ev) \<and> py_ok env xai self' \<and> py_step self r self' ev"
proof (cases "parse_I api args")
  case None
  then show ?thesis using assms(1) by (simp add: pyxa_read_def py_step_same)
next
  case (Some a)
  from pyxa_read_value [OF assms this] obtain m self' ev where
    r: "pyxa_read api env self args = Some (read_value m, self', ev)" "py_ok env xai self'"
      "py_memory self' = (case m of None \<Rightarrow> PyNull | Some (memory, off) \<Rightarrow> PyPage memory)"
      "ev = map Unmapped (held (py_memory self)) @ map Mapped (held (py_memory self'))" .
  have h: "map Mapped (held p) @ map Unmapped (held p) = pairs (held p)" for p by (cases p) (auto simp: held_def)
  have "list_all2 reads_page (read_bytes [read_value m]) (held (py_memory self'))"
    using r(3) by (auto simp: read_value_def reads_page_def suffix_drop split: option.splits)
  then have "py_step self (read_value m) self' ev"
    unfolding py_step_def using r(4) h [of "py_memory self"]
    by (intro exI [of _ "held (py_memory self)"] exI [of _ "held (py_memory self')"]) simp
  then show ?thesis using r by blast
qed

lemma pyxa_method_step:
  assumes "py_ok env xai self" "readable env xai" "map_of pyxa_instance_methods name = Some f"
  shows "\<exists>r self' ev. f api env self args = Some (r, self', ev) \<and> py_ok env xai self' \<and> py_step self r self' ev"
proof -
  have "f \<in> set [pyxa_read, pyxa_get_cr3, pyxa_get_domain_id, pyxa_get_size, pyxa_is_pae, pyxa_is_pse]"
    using assms(3) by (auto simp: pyxa_instance_methods_def split: if_split_asm)
  then show ?thesis using pyxa_read_step [OF assms(1,2)] assms(1)
    by (auto simp: pyxa_get_cr3_def pyxa_get_domain_id_def pyxa_get_size_def py_getter_def pyxa_is_pae_def pyxa_is_pse_def
        intro!: py_step_same)
qed

lemma pyxa_calls_steps:
  assumes "py_ok env xai self" "readable env xai" "fst ` set cs \<subseteq> fst ` set (pyxa_instance_methods :: (string \<times> 'a py_method) list)"
  shows "\<exists>rs self' ev ms new. pyxa_calls (api :: 'a py_api) env self cs = Some (rs, self', ev) \<and> length rs = length cs \<and> py_ok env xai self' \<and>
    map Mapped (held (py_memory self)) @ ev = pairs ms @ map Mapped (held (py_memory self')) \<and>
    held (py_memory self) @ new = ms @ held (py_memory self') \<and> list_all2 reads_page (read_bytes rs) new"
  using assms(1,3)
proof (induction cs arbitrary: self)
  case Nil
  then show ?case by (simp add: exI [of _ "[]"])
next
  case (Cons c cs)
  obtain name args where c: "c = (name, args)" by (cases c)
  have "name \<in> fst ` set (pyxa_instance_methods :: (string \<times> 'a py_method) list)" using Cons.prems(2) c by simp
  then obtain f where f: "map_of (pyxa_instance_methods :: (string \<times> 'a py_method) list) name = Some f"
    by (metis map_of_eq_None_iff option.exhaust)
  from pyxa_method_step [OF Cons.prems(1) assms(2) f] obtain r self1 ev where
    s: "f api env self args = Some (r, self1, ev)" "py_ok env xai self1" "py_step self r self1 ev" by blast
  from s(3) obtain ms new where m: "map Mapped (held (py_memory self)) @ ev = pairs ms @ map Mapped (held (py_memory self1))"
    "held (py_memory self) @ new = ms @ held (py_memory self1)" "list_all2 reads_page (read_bytes [r]) new"
    unfolding py_step_def by blast
  have "fst ` set cs \<subseteq> fst ` set (pyxa_instance_methods :: (string \<times> 'a py_method) list)" using Cons.prems(2) by simp
  from Cons.IH [OF s(2) this] obtain rs self2 evs ms2 new2 where
    i: "pyxa_calls api env self1 cs = Some (rs, self2, evs)" "length rs = length cs" "py_ok env xai self2"
      "map Mapped (held (py_memory self1)) @ evs = pairs ms2 @ map Mapped (held (py_memory self2))"
      "held (py_memory self1) @ new2 = ms2 @ held (py_memory self2)" "list_all2 reads_page (read_bytes rs) new2" by blast
  have "map Mapped (held (py_memory self)) @ ev @ evs = pairs (ms @ ms2) @ map Mapped (held (py_memory self2))"
    using m(1) i(4) by (metis append.assoc pairs_append(1))
  moreover have "held (py_memory self) @ new @ new2 = (ms @ ms2) @ held (py_memory self2)"
    using m(2) i(5) by (metis append.assoc)
  moreover have "list_all2 reads_page (read_bytes (r # rs)) (new @ new2)"
    using m(3) i(6) read_bytes_append [of "[r]" rs] by (simp add: list_all2_appendI)
  ultimately show ?case unfolding c using f s(1) i(1-3) 
    by (intro exI [of _ "r # rs"] exI [of _ self2] exI [of _ "ev @ evs"] exI [of _ "ms @ ms2"] exI [of _ "new @ new2"]) simp
qed

text \<open>The end of the object: its instance is destroyed and the page it holds given back.\<close>

lemma same_frames_caches: "same_frames env xai xai' \<Longrightarrow> cache_ok xai' = cache_ok xai \<and> pid_cache_ok xai' = pid_cache_ok xai"
  by (auto simp: same_frames_def cache_ok_def pid_cache_ok_def)

lemma pyxa_dealloc_unmaps:
  assumes "py_ok env xai self" "cache_ok xai" "pid_cache_ok xai"
  shows "pyxa_instance_dealloc env self = Some (map Unmapped (held (py_memory self)))"
proof -
  have "cache_ok (py_xai self)" "pid_cache_ok (py_xai self)" using assms same_frames_caches by (auto simp: py_ok_def)
  then obtain r i where "xa_destroy env (py_xai self) = Some (r, i)" using xa_destroy_frees [of "py_xai self" env] by (auto simp: caches_ok_def)
  then show ?thesis using assms(1) by (cases "py_memory self") (auto simp: pyxa_instance_dealloc_def py_ok_def py_unmap_def)
qed

text \<open>The size that a getter reads, and everything but the frame table, is the same throughout.\<close>

lemma py_ok_fields:
  assumes "py_ok env xai self"
  shows "kpgd (py_xai self) = kpgd xai" "page_offset (py_xai self) = page_offset xai" "domain_id (m_xen (py_xai self)) = domain_id (m_xen xai)"
    "xen_size (m_xen (py_xai self)) = xen_size (m_xen xai)" "pae (py_xai self) = pae xai" "pse (py_xai self) = pse xai"
  using assms by (auto simp: py_ok_def same_frames_def)

section \<open>Reading all pages\<close>

text \<open>The image as a script builds it: a page that cannot be read counts as zeros.\<close>

fun script_page :: "py_result \<Rightarrow> u8 list" where
  "script_page (Inr (PyBytes bs)) = bs"
| "script_page r = replicate 4096 0"

lemma script_page_live:
  assumes "std_pages xai" "map_option fst (xa_access_pa env xai (of_nat (4096 * k)) PROT_READ) = Some m"
  shows "live_page env xai k = Some (script_page (read_value m))"
proof -
  obtain i where a: "xa_access_pa env xai (of_nat (4096 * k)) PROT_READ = Some (m, i)" using assms(2) by auto
  have "unat off = 0" if "m = Some (me, off)" for me off
  proof -
    have "unat (of_nat (4096 * k) :: u32) mod 4096 = 0" unfolding unat_of_nat
      by (simp add: mod_mult_mult1 [of 4096 k 1048576, simplified])
    then show ?thesis using access_pa_offset [OF assms(1)] a that by metis
  qed
  then show ?thesis using a by (auto simp: live_page_def read_value_def split: option.split)
qed

lemma pyxa_calls_pages:
  assumes "py_ok env xai self" "readable env xai" "\<forall>k\<in>set ks. parse_I api (arg k) = Some (of_nat (4096 * k))"
  shows "\<exists>rs self' ev. pyxa_calls api env self (map (\<lambda>k. (''read'', arg k)) ks) = Some (rs, self', ev) \<and>
    map (Some \<circ> script_page) rs = map (live_page env xai) ks"
  using assms(1,3)
proof (induction ks arbitrary: self)
  case (Cons k ks)
  have "parse_I api (arg k) = Some (of_nat (4096 * k))" using Cons.prems(2) by simp
  from pyxa_read_value [OF Cons.prems(1) assms(2) this] obtain m self1 ev where
    r: "pyxa_read api env self (arg k) = Some (read_value m, self1, ev)"
      "map_option fst (xa_access_pa env xai (of_nat (4096 * k)) PROT_READ) = Some m" "py_ok env xai self1" .
  have "\<forall>k\<in>set ks. parse_I api (arg k) = Some (of_nat (4096 * k))" using Cons.prems(2) by simp
  from Cons.IH [OF r(3) this] obtain rs self2 evs where
    "pyxa_calls api env self1 (map (\<lambda>k. (''read'', arg k)) ks) = Some (rs, self2, evs)"
    "map (Some \<circ> script_page) rs = map (live_page env xai) ks" by blast
  moreover have "std_pages xai" using assms(2) by (simp add: readable_def)
  ultimately show ?case using r(1) script_page_live [OF _ r(2)]
    by (simp add: pyxa_instance_methods_def exI [of _ "read_value m # rs"] comp_def)
qed simp

section \<open>Properties\<close>


text \<open>Arguments that are a number.\<close>

definition num_api :: "u32 py_api" where
  "num_api = \<lparr>parse_I = Some, parse_none = (\<lambda>a. False)\<rparr>"

definition two_page_obj :: pyxa_instance where
  "two_page_obj = \<lparr>py_xai = two_page_inst, py_memory = PyNull\<rparr>"

lemma two_page_readable: "readable two_page_env two_page_inst"
proof -
  have "std_pages two_page_inst" "full_pages two_page_env two_page_inst"
    by (auto simp: std_pages_def full_pages_def two_page_inst_def two_page_env_def frames_env_def std_inst_def
        xa_instance_zero_def xa_map_page_def map_page_of_def split: if_split_asm)
  then show ?thesis unfolding readable_def two_page_access by simp
qed

lemma two_page_caches: "cache_ok two_page_inst" "pid_cache_ok two_page_inst"
  by (auto simp: cache_ok_def pid_cache_ok_def two_page_inst_def intro!: exI [of _ "[]"])

definition demo_script :: "(string \<times> u32) list" where
  "demo_script = [(''read'', 8), (''is_pae'', 0), (''get_size'', 0), (''read'', 0x1000), (''read'', 0)]"




end
