(* ===== verification/Xa_Offsets.thy ===== *)
theory Xa_Offsets
  imports Xa_Conftext Xa_Print
begin

text \<open>
  The kernel module \<open>tools/linux-offset-finder/findoffsets.c\<close>, which a user loads into a
  Linux guest to learn the offsets that the configuration file needs. It prints a domain block with two
  places to fill in; the lemmas join it with the configuration parser: the filled-in text configures the
  library with the layout of the guest's own kernel.
\<close>

section \<open>The module\<close>

text \<open>Where the kernel that the module is built against keeps the fields of \<open>task_struct\<close> and
  \<open>mm_struct\<close>.\<close>

record kernel_layout =
  at_comm :: u32
  at_tasks :: u32
  at_mm :: u32
  at_pid :: u32
  at_pgd :: u32
  at_start_code :: u32

text \<open>The address of a field less the address of its structure, with a 32-bit \<open>unsigned long\<close>.\<close>

definition field_offset :: "u32 \<Rightarrow> u32 \<Rightarrow> u32" where
  "field_offset p at = (p + at) - p"

definition MYMODNAME :: string where
  "MYMODNAME = ''FindOffsets ''"

abbreviation (input) newline :: string where "newline \<equiv> [CHR 0x0A]"

abbreviation (input) quote :: string where "quote \<equiv> [CHR 0x22]"

text \<open>A line \<open>field = 0x%x;\<close>\<close>

definition offset_line :: "string \<Rightarrow> u32 \<Rightarrow> string" where
  "offset_line field v = field @ '' = 0x'' @ hex_str (unat v) @ '';'' @ newline"

text \<open>The messages of the module, each at level \<open>KERN_ALERT\<close>, and its return value.
  \<open>current\<close> is the task that loads the module, with its \<open>mm\<close> pointer.\<close>

definition my_init_module :: "kernel_layout \<Rightarrow> (u32 \<times> u32) option \<Rightarrow> string list \<times> int" where
  "my_init_module ly current =
     (let start = [''Module '' @ MYMODNAME @ '' loaded.'' @ newline @ newline] in
      case current of
        Some (p, mm) \<Rightarrow>
          let commOffset = field_offset p (at_comm ly);
              tasksOffset = field_offset p (at_tasks ly);
              mmOffset = field_offset p (at_mm ly);
              pidOffset = field_offset p (at_pid ly);
              pgdOffset = field_offset mm (at_pgd ly);
              addrOffset = field_offset mm (at_start_code ly)
          in (start @
             [''[domain name] {'' @ newline,
              ''    ostype = '' @ quote @ ''Linux'' @ quote @ '';'' @ newline,
              ''    sysmap = '' @ quote @ ''[insert path here]'' @ quote @ '';'' @ newline,
              offset_line ''#    linux_name'' commOffset,
              offset_line ''    linux_tasks'' tasksOffset,
              offset_line ''    linux_mm'' mmOffset,
              offset_line ''    linux_pid'' pidOffset,
              offset_line ''    linux_pgd'' pgdOffset,
              offset_line ''    linux_addr'' addrOffset,
              ''}'' @ newline], 0)
      | None \<Rightarrow> (start @ [MYMODNAME @ '': found no process to populate task_struct.'' @ newline], 0))"

definition my_cleanup_module :: "string list" where
  "my_cleanup_module = [''Module '' @ MYMODNAME @ '' unloaded.'' @ newline]"

section \<open>From the messages to a configuration file\<close>

text \<open>What a user does with the messages: drop the first, and put the domain's name and the path of its
  System.map in the two places.\<close>

fun fill_in :: "string \<Rightarrow> string \<Rightarrow> string \<Rightarrow> string" where
  "fill_in hole new [] = []"
| "fill_in hole new (c # s) =
     (if take (length hole) (c # s) = hole then new @ drop (length hole) (c # s) else c # fill_in hole new s)"

definition conf_of_messages :: "string \<Rightarrow> string \<Rightarrow> string list \<Rightarrow> string" where
  "conf_of_messages dom_name path ms =
     fill_in ''[domain name]'' dom_name (fill_in ''[insert path here]'' path (concat (tl ms)))"

section \<open>Hexadecimal numbers as the parser reads them\<close>

declare hex_str.simps [simp del]

lemma hex_str_set: "c \<in> set (hex_str n) \<Longrightarrow> \<exists>d<16. c = hex_char d"
proof (induction n rule: hex_str.induct)
  case (1 n)
  then show ?case by (subst (asm) (2) hex_str.simps) (auto split: if_split_asm intro: exI [of _ "n mod 16"])
qed

lemma hex_str_Cons: "\<exists>d s. hex_str n = hex_char d # s \<and> d < 16"
proof -
  have "hex_str n \<noteq> []" by (subst hex_str.simps) simp
  then obtain c s where "hex_str n = c # s" by (cases "hex_str n") auto
  then show ?thesis using hex_str_set [of c n] by auto
qed

lemma takeWhile_hex_str [simp]: "takeWhile (is_digit 16) (hex_str n) = hex_str n"
  using hex_str_set [of _ n] is_digit_hex by (auto simp: takeWhile_eq_all_conv)

lemma digits_val_hex_str: "digits_val 16 (hex_str n) = n"
proof (induction n rule: hex_str.induct)
  case (1 n)
  show ?case
  proof (cases "n < 16")
    case True
    then show ?thesis by (simp add: hex_str.simps [of n] digits_val_def is_digit_hex digit_val_hex)
  next
    case False
    then have e: "hex_str n = hex_str (n div 16) @ [hex_char (n mod 16)]" by (simp add: hex_str.simps [of n])
    have "digits_val 16 (hex_str n) = digits_val 16 (hex_str (n div 16)) * 16 + n mod 16"
      unfolding digits_val_def takeWhile_hex_str by (simp add: e digit_val_hex)
    then show ?thesis using "1.IH" [OF False] by simp
  qed
qed

lemma strtol0_hex_str: "n < 2 ^ 31 \<Longrightarrow> strtol0 (''0x'' @ hex_str n) = int n"
proof -
  assume n: "n < 2 ^ 31"
  obtain d s where h: "hex_str n = hex_char d # s" "d < 16" using hex_str_Cons [of n] by blast
  have "strip_0x (''0x'' @ hex_str n) = hex_str n" using h is_digit_hex by (simp add: strip_0x_def)
  moreover have "dropWhile isspace (''0x'' @ hex_str n) = ''0x'' @ hex_str n" by (simp add: isspace_def)
  moreover have "strip_sign (''0x'' @ hex_str n) = (False, ''0x'' @ hex_str n)" by (simp add: strip_sign_def)
  ultimately show ?thesis using n digits_val_hex_str [of n] by (simp add: strtol0_def)
qed

lemma num_text_hex_str: "num_text (''0x'' @ hex_str n)"
proof -
  have "conf_hex (hex_char d)" if "d < 16" for d using that by (simp add: conf_hex_def of_char_hex)
  moreover have "hex_str n \<noteq> []" using hex_str_Cons [of n] by auto
  ultimately show ?thesis using hex_str_set [of _ n] by (auto simp: num_text_def)
qed

section \<open>The filled-in text\<close>

text \<open>The block that the filled-in text spells, and its layout: the offset of the name is a comment.\<close>

definition found_block :: "string \<Rightarrow> string \<Rightarrow> kernel_layout \<Rightarrow> domain_block" where
  "found_block dom_name path ly = (dom_name, [Ostype ''Linux'', Sysmap path,
     Number LINUX_TASKS (''0x'' @ hex_str (unat (at_tasks ly))), Number LINUX_MM (''0x'' @ hex_str (unat (at_mm ly))),
     Number LINUX_PID (''0x'' @ hex_str (unat (at_pid ly))), Number LINUX_PGD (''0x'' @ hex_str (unat (at_pgd ly))),
     Number LINUX_ADDR (''0x'' @ hex_str (unat (at_start_code ly)))])"

abbreviation (input) sp :: gap where "sp \<equiv> Blank (CHR '' '')"

abbreviation (input) nl :: gap where "nl \<equiv> Blank (CHR 0x0A)"

definition number_layout :: "conf_token \<Rightarrow> u32 \<Rightarrow> gap list \<Rightarrow> layout" where
  "number_layout t v gs = [(t, [sp]), (EQUALS, [sp]), (NUM (''0x'' @ hex_str (unat v)), []), (SEMICOLON, nl # gs)]"

definition found_layout :: "string \<Rightarrow> string \<Rightarrow> kernel_layout \<Rightarrow> layout" where
  "found_layout dom_name path ly =
     [(WORD dom_name, [sp]), (OBRACE, [nl, sp, sp, sp, sp]),
      (OSTYPETOK, [sp]), (EQUALS, [sp]), (QUOTE, []), (WORD ''Linux'', []), (QUOTE, []), (SEMICOLON, [nl, sp, sp, sp, sp]),
      (SYSMAPTOK, [sp]), (EQUALS, [sp]), (QUOTE, []), (FILENAME path, []), (QUOTE, []),
      (SEMICOLON, [nl, Comment (''    linux_name = 0x'' @ hex_str (unat (at_comm ly)) @ '';''), sp, sp, sp, sp])] @
     number_layout LINUX_TASKS (at_tasks ly) [sp, sp, sp, sp] @ number_layout LINUX_MM (at_mm ly) [sp, sp, sp, sp] @
     number_layout LINUX_PID (at_pid ly) [sp, sp, sp, sp] @ number_layout LINUX_PGD (at_pgd ly) [sp, sp, sp, sp] @
     number_layout LINUX_ADDR (at_start_code ly) [] @ [(EBRACE, [nl])]"

lemma field_offset_at [simp]: "field_offset p at = at"
  by (simp add: field_offset_def)

lemma conf_of_messages_text:
  "conf_of_messages dom_name path (fst (my_init_module ly (Some (p, mm)))) = conf_text [] (found_layout dom_name path ly)"
  by (simp add: conf_of_messages_def my_init_module_def MYMODNAME_def offset_line_def conf_text_def found_layout_def
      number_layout_def conf_keywords_def)

lemma found_layout_tokens: "map fst (found_layout dom_name path ly) = concat (map block_tokens [found_block dom_name path ly])"
  by (simp add: found_layout_def number_layout_def block_tokens_def found_block_def)

lemma hex_str_no_newline: "CHR 0x0A \<notin> set (hex_str n)"
proof
  assume "CHR 0x0A \<in> set (hex_str n)"
  then obtain d where d: "d < 16" "CHR 0x0A = hex_char d" using hex_str_set by blast
  have "isspace (CHR 0x0A)" by (simp add: isspace_def)
  then show False using hex_char_plain(1) [OF d(1)] d(2) by simp
qed

lemma spaced_found:
  assumes "word_text dom_name" "file_text path"
  shows "spaced (found_layout dom_name path ly)"
proof -
  have l: "word_text ''Linux''" by code_simp
  show ?thesis using assms l num_text_hex_str hex_str_no_newline
    by (simp add: found_layout_def number_layout_def punctuation_def conf_keywords_def blank_def)
qed

lemma found_number: "unat v < 2 ^ 31 \<Longrightarrow> word_of_int (strtol0 (CHR ''0'' # CHR ''x'' # hex_str (unat v))) = (v :: u32)"
  using strtol0_hex_str [of "unat v"] by simp

lemma found_entry:
  assumes "\<forall>v\<in>{at_tasks ly, at_mm ly, at_pid ly, at_pgd ly, at_start_code ly}. unat v < 2 ^ 31"
  shows "block_entry (found_block dom_name path ly) = \<lparr>ce_domain_name = dom_name, ce_sysmap = path, ce_ostype = ''Linux'',
    ce_offsets = [at_tasks ly, at_mm ly, at_pid ly, at_pgd ly, at_start_code ly, 0, 0]\<rparr>"
proof -
  have "replicate 7 0 = [0, 0, 0, 0, 0, 0, 0 :: u32]" by (simp add: eval_nat_numeral)
  moreover have "\<forall>v\<in>{at_tasks ly, at_mm ly, at_pid ly, at_pgd ly, at_start_code ly}.
      word_of_int (strtol0 (CHR ''0'' # CHR ''x'' # hex_str (unat v))) = v"
    using assms found_number by blast
  ultimately show ?thesis
    by (simp add: block_entry_def found_block_def conf_zero_def)
qed

text \<open>Without the two replacements the text is a syntax error: the brackets are passed over, and two
  words follow each other.\<close>

lemma longest_none: "\<forall>r\<in>set rs. fst r = 0 \<Longrightarrow> longest rs = (0, None)"
  unfolding longest_def by (induction rs) auto

lemma yylex_bracket: "yylex (CHR ''['' # s) = yylex s"
proof -
  have "\<forall>r\<in>set (conf_rules (CHR ''['' # s)). fst r = 0"
    by (simp add: conf_rules_def conf_keywords_def match_text_def match_num_def match_hex_def match_word_def match_file_def
        match_comment_def blank_def file_char_def word_char_def conf_alpha_def conf_digit_def)
  then have "longest (conf_rules (CHR ''['' # s)) = (0, None)"
    by (rule longest_none)
  then show ?thesis by (subst yylex.simps) simp
qed

lemma unedited_messages:
  "xa_parse_config (concat (tl (fst (my_init_module ly (Some (p, mm)))))) td = None"
proof -
  have w: "word_text ''domain''" "word_text ''name''" by code_simp+
  have st: "stops (CHR '' '' # s)" "stops (CHR '']'' # s)" for s
    by (simp_all add: stops_def file_char_def word_char_def conf_alpha_def conf_digit_def)
  have "yylex (CHR ''['' # ''domain'' @ CHR '' '' # ''name'' @ CHR '']'' # s) = WORD ''domain'' # WORD ''name'' # yylex (CHR '']'' # s)" for s
    by (simp only: yylex_bracket yylex_word [OF w(1) st(1)] yylex_word [OF w(2) st(2)] yylex_blank [of "CHR '' ''"] blank_def simp_thms)
  then have "\<exists>ts. yylex (concat (tl (fst (my_init_module ly (Some (p, mm)))))) = WORD ''domain'' # WORD ''name'' # ts"
    by (simp add: my_init_module_def)
  then show ?thesis by (auto simp: xa_parse_config_def conf_domains.simps)
qed

section \<open>Properties\<close>

text \<open>(C20) From the guest's kernel to the instance: when the messages of the offset finder, with the
  domain's name and the path of its System.map put in the two places, are the configuration file,
  initialisation of that domain takes it for a Linux guest with that System.map and with the offsets at
  which the guest's kernel keeps \<open>tasks\<close>, \<open>mm\<close>, \<open>pid\<close>, \<open>pgd\<close> and \<open>start_code\<close> (an
  offset of zero leaves the default), whatever task loaded the module.\<close>

theorem findoffsets_configures:
  assumes "fopen_text env ''/etc/xenaccess.conf'' = Some (conf_of_messages td path (fst (my_init_module ly (Some (p, mm)))))"
    and "word_text td" "length td < CONFIG_STR_LENGTH" "file_text path" "length path < CONFIG_STR_LENGTH"
    and "\<forall>v\<in>{at_tasks ly, at_mm ly, at_pid ly, at_pgd ly, at_start_code ly}. unat v < 2 ^ 31"
    and "mode inst = XA_MODE_XEN" "xs_read env (''/local/domain/'' @ int_str (sint (domain_id (m_xen inst))) @ ''/name'') = Some td"
  shows "read_config_file env inst = Some (True, inst\<lparr>image_type := Some td, sysmap := Some path, os_type := XA_OS_LINUX,
    linux_inst := copy_linux_offsets \<lparr>l_tasks_offset = at_tasks ly, l_mm_offset = at_mm ly, l_pid_offset = at_pid ly,
      l_pgd_offset = at_pgd ly, l_addr_offset = at_start_code ly\<rparr> (linux_inst inst)\<rparr>)"
proof -
  have ok: "\<forall>d\<in>set [found_block td path ly]. block_ok d" using assms(3,5) by (simp add: block_ok_def found_block_def)
  have "xa_parse_config (conf_text [] (found_layout td path ly)) td = Some (config_of (block_entry (found_block td path ly)))"
    using parse_config_blocks [OF _ spaced_found [OF assms(2,4)] found_layout_tokens ok assms(3), of "[]"]
    by (simp add: found_block_def)
  then show ?thesis using assms(1,7,8) found_entry [OF assms(6)] sprintf100_domain [of "''/name''" "domain_id (m_xen inst)"]
    by (simp add: conf_of_messages_text read_config_file_def apply_config_def config_of_def strncmp_eq_def Let_def)
qed

text \<open>The layout of a kernel of the 2.6 series.\<close>

definition fc_layout :: kernel_layout where
  "fc_layout = \<lparr>at_comm = 0x194, at_tasks = 0x7c, at_mm = 0x84, at_pid = 0xa8, at_pgd = 0x28, at_start_code = 0x88\<rparr>"

definition fc_env :: xa_env where
  "fc_env = no_env\<lparr>fopen_text := (\<lambda>p. Some (conf_of_messages ''fc8'' ''/boot/System.map-2.6'' (fst (my_init_module fc_layout (Some (0xC1000000, 0)))))),
     xs_read := (\<lambda>p. Some ''fc8'')\<rparr>"

theorem findoffsets_configures_witness:
  "map_option (\<lambda>(ok, i). (ok, os_type i, sysmap i, linux_inst i)) (read_config_file fc_env (std_inst\<lparr>mode := XA_MODE_XEN\<rparr>)) =
     Some (True, XA_OS_LINUX, Some ''/boot/System.map-2.6'', \<lparr>l_tasks_offset = 0x7c, l_mm_offset = 0x84, l_pid_offset = 0xa8,
       l_pgd_offset = 0x28, l_addr_offset = 0x88\<rparr>)"
proof -
  have w: "word_text ''fc8''" "file_text ''/boot/System.map-2.6''" by code_simp+
  show ?thesis
    by (subst findoffsets_configures [OF _ w(1) _ w(2), where ly = fc_layout and p = "0xC1000000" and mm = 0])
      (simp_all add: fc_env_def fc_layout_def std_inst_def xa_instance_zero_def copy_linux_offsets_def override_def)
qed

end
