(* ===== verification/Xadisk_Parse.thy ===== *)
theory Xadisk_Parse
  imports Xa_Prelude "HOL-Library.Multiset"
begin

text \<open>
  Directory blocks of the disk monitor: the accessors of \<open>xadisk_linux_ext2.c\<close> for an ext2
  directory entry, and parsing, sorting and comparing directories in \<open>xadisk_parse.c\<close>.

  A pointer into a block is the block with a position. A \<open>dir_table\<close> is the list of its
  first \<open>size\<close> entries; storing an entry beyond \<open>DIRMAX\<close> or an operation beyond
  \<open>OPMAX\<close> is undefined. The operation code of a \<open>dir_op\<close> is \<open>None\<close>
  while it has not been written.
\<close>

section \<open>Directory entries\<close>

abbreviation (input) DIRMAX :: nat where "DIRMAX \<equiv> 256"
abbreviation (input) OPMAX :: nat where "OPMAX \<equiv> 256"
abbreviation (input) MAX_PATH_LEN :: nat where "MAX_PATH_LEN \<equiv> 256"

datatype fs_op = OP_MKDIR | OP_RMDIR | OP_MKFILE | OP_RMFILE

record dir_entry =
  de_inode :: u32
  de_type :: u8
  de_path_elem :: string

record dir_op =
  do_op :: "fs_op option"
  do_path_elem :: string

definition xa_linux_ext2_dir_gettype :: "u8 list \<Rightarrow> nat \<Rightarrow> u8 option" where
  "xa_linux_ext2_dir_gettype block pos = rd8 block (pos + 7)"

definition xa_linux_ext2_dir_getinode :: "u8 list \<Rightarrow> nat \<Rightarrow> u32 option" where
  "xa_linux_ext2_dir_getinode block pos = rd32 block pos"

definition xa_linux_ext2_dir_getreclen :: "u8 list \<Rightarrow> nat \<Rightarrow> u16 option" where
  "xa_linux_ext2_dir_getreclen block pos = rd16 block (pos + 4)"

definition xa_linux_ext2_dir_getnamelen :: "u8 list \<Rightarrow> nat \<Rightarrow> u8 option" where
  "xa_linux_ext2_dir_getnamelen block pos = rd8 block (pos + 6)"

definition xa_linux_ext2_dir_getname :: "u8 list \<Rightarrow> nat \<Rightarrow> u8 list" where
  "xa_linux_ext2_dir_getname block pos = drop (pos + 8) block"

section \<open>Parsing\<close>

definition parse_name :: "u8 list \<Rightarrow> nat \<Rightarrow> string option" where
  "parse_name block pos = do {
     len \<leftarrow> rd8 block (pos + 6);
     strn_bytes (drop (pos + 8) block) (unat len) }"

text \<open>The loop of \<open>parse_block_dir\<close>; \<open>i\<close> entries have been stored.\<close>

function parse_entries :: "u8 list \<Rightarrow> nat \<Rightarrow> nat \<Rightarrow> nat \<Rightarrow> dir_entry list option" where
  "parse_entries block limit pos i =
     (if pos < limit then
        (if DIRMAX \<le> i then None
         else do {
           inode \<leftarrow> xa_linux_ext2_dir_getinode block pos;
           type \<leftarrow> xa_linux_ext2_dir_gettype block pos;
           len \<leftarrow> xa_linux_ext2_dir_getnamelen block pos;
           name \<leftarrow> parse_name block pos;
           reclen \<leftarrow> xa_linux_ext2_dir_getreclen block pos;
           rest \<leftarrow> parse_entries block limit (pos + unat reclen) (Suc i);
           Some (\<lparr>de_inode = inode, de_type = type, de_path_elem = name\<rparr> # rest) })
      else Some [])"
  by pat_completeness auto
termination
  by (relation "measure (\<lambda>(block, limit, pos, i). DIRMAX - i)") auto

declare parse_entries.simps [simp del]

definition parse_block_dir :: "u8 list \<Rightarrow> nat \<Rightarrow> dir_entry list option" where
  "parse_block_dir block dir_size = parse_entries block dir_size 0 0"

section \<open>Sorting\<close>

text \<open>The inner loop of \<open>sort_dir\<close>, with \<open>k\<close> for \<open>j + 1\<close>: shift
  larger entries up, then store \<open>aux\<close> in the slot that is left.\<close>

fun shift_down :: "dir_entry list \<Rightarrow> dir_entry \<Rightarrow> nat \<Rightarrow> dir_entry list" where
  "shift_down t aux 0 = t[0 := aux]"
| "shift_down t aux (Suc j) =
     (if strcmp_lt (de_path_elem aux) (de_path_elem (t ! j))
      then shift_down (t[Suc j := t ! j]) aux j
      else t[Suc j := aux])"

function sort_from :: "dir_entry list \<Rightarrow> nat \<Rightarrow> nat \<Rightarrow> dir_entry list" where
  "sort_from t i n = (if i < n then sort_from (shift_down t (t ! i) i) (Suc i) n else t)"
  by pat_completeness auto
termination
  by (relation "measure (\<lambda>(t, i, n). n - i)") auto

declare sort_from.simps [simp del]

definition sort_dir :: "dir_entry list \<Rightarrow> dir_entry list" where
  "sort_dir t = sort_from t 1 (length t)"

section \<open>Comparing\<close>

definition rm_op :: "u8 \<Rightarrow> fs_op option" where
  "rm_op type = (if type = 1 then Some OP_RMFILE else if type = 2 then Some OP_RMDIR else None)"

definition mk_op :: "u8 \<Rightarrow> fs_op option" where
  "mk_op type = (if type = 1 then Some OP_MKFILE else if type = 2 then Some OP_MKDIR else None)"

text \<open>Store the operation number \<open>k\<close>; \<open>path_elem\<close> holds 255 characters and the
  NUL.\<close>

definition put_op :: "nat \<Rightarrow> fs_op option \<Rightarrow> string \<Rightarrow> dir_op option" where
  "put_op k opn name =
     (if OPMAX \<le> k \<or> MAX_PATH_LEN \<le> length name then None
      else Some \<lparr>do_op = opn, do_path_elem = name\<rparr>)"

text \<open>The three loops of \<open>compare_dirs\<close>: both vectors, then what is left of either.\<close>

fun compare_loop :: "dir_entry list \<Rightarrow> dir_entry list \<Rightarrow> nat \<Rightarrow> dir_op list option" where
  "compare_loop [] [] k = Some []"
| "compare_loop (o1 # os) [] k = do {
     x \<leftarrow> put_op k (rm_op (de_type o1)) (de_path_elem o1);
     r \<leftarrow> compare_loop os [] (Suc k);
     Some (x # r) }"
| "compare_loop [] (n1 # ns) k = do {
     x \<leftarrow> put_op k (mk_op (de_type n1)) (de_path_elem n1);
     r \<leftarrow> compare_loop [] ns (Suc k);
     Some (x # r) }"
| "compare_loop (o1 # os) (n1 # ns) k =
     (if strcmp_lt (de_path_elem o1) (de_path_elem n1) then do {
        x \<leftarrow> put_op k (rm_op (de_type o1)) (de_path_elem o1);
        r \<leftarrow> compare_loop os (n1 # ns) (Suc k);
        Some (x # r) }
      else if strcmp_lt (de_path_elem n1) (de_path_elem o1) then do {
        x \<leftarrow> put_op k (mk_op (de_type n1)) (de_path_elem n1);
        r \<leftarrow> compare_loop (o1 # os) ns (Suc k);
        Some (x # r) }
      else compare_loop os ns k)"

definition compare_dirs :: "dir_entry list \<Rightarrow> dir_entry list \<Rightarrow> dir_op list option" where
  "compare_dirs dir_old dir_new = compare_loop dir_old dir_new 0"

section \<open>The order of \<open>strcmp\<close>\<close>

abbreviation (input) char_less :: "(char \<times> char) set" where
  "char_less \<equiv> {(c, d). (of_char c :: nat) < of_char d}"

lemma strcmp_lt_lexord: "strcmp_lt s t \<longleftrightarrow> (s, t) \<in> lexord char_less"
  by (induction s t rule: strcmp_lt.induct) auto

lemma strcmp_lt_irrefl [simp]: "\<not> strcmp_lt s s"
  by (induction s) auto

lemma strcmp_lt_trans [trans]: "strcmp_lt s t \<Longrightarrow> strcmp_lt t u \<Longrightarrow> strcmp_lt s u"
  unfolding strcmp_lt_lexord by (rule lexord_trans) (auto simp: trans_def)

lemma strcmp_lt_linear: "strcmp_lt s t \<or> s = t \<or> strcmp_lt t s"
proof -
  have "\<forall>c d. (c, d) \<in> char_less \<or> c = d \<or> (d, c) \<in> char_less"
    by (auto simp: neq_iff)
  then show ?thesis unfolding strcmp_lt_lexord by (rule lexord_linear)
qed

lemma strcmp_lt_asym: "strcmp_lt s t \<Longrightarrow> \<not> strcmp_lt t s"
  using strcmp_lt_trans strcmp_lt_irrefl by blast

section \<open>Insertion sort\<close>

definition name_le :: "dir_entry \<Rightarrow> dir_entry \<Rightarrow> bool" where
  "name_le a b \<longleftrightarrow> \<not> strcmp_lt (de_path_elem b) (de_path_elem a)"

lemma name_le_trans: "name_le a b \<Longrightarrow> name_le b c \<Longrightarrow> name_le a c"
  unfolding name_le_def using strcmp_lt_linear strcmp_lt_trans by metis

lemma shift_down_split:
  assumes "sorted_wrt name_le xs"
  shows "\<exists>as bs. xs = as @ bs \<and> shift_down (xs @ y # ys) aux (length xs) = as @ aux # bs @ ys \<and>
    (\<forall>a\<in>set as. name_le a aux) \<and> (\<forall>b\<in>set bs. strcmp_lt (de_path_elem aux) (de_path_elem b))"
  using assms
proof (induction xs arbitrary: y ys rule: rev_induct)
  case Nil
  then show ?case by simp
next
  case (snoc x xs)
  from snoc.prems have s: "sorted_wrt name_le xs" and le: "\<forall>a\<in>set xs. name_le a x"
    by (auto simp: sorted_wrt_append)
  have nth: "(xs @ x # y # ys) ! length xs = x" by simp
  show ?case
  proof (cases "strcmp_lt (de_path_elem aux) (de_path_elem x)")
    case True
    have "shift_down ((xs @ [x]) @ y # ys) aux (length (xs @ [x])) = shift_down (xs @ x # x # ys) aux (length xs)"
      using True by (simp add: list_update_append)
    with snoc.IH [OF s, of x "x # ys"] True show ?thesis by force
  next
    case False
    then have "name_le x aux" by (simp add: name_le_def)
    then have "\<forall>a\<in>set (xs @ [x]). name_le a aux" using le name_le_trans by auto
    moreover have "shift_down ((xs @ [x]) @ y # ys) aux (length (xs @ [x])) = (xs @ [x]) @ aux # ys"
      using False by (simp add: list_update_append)
    ultimately show ?thesis by (intro exI [of _ "xs @ [x]"] exI [of _ "[]"]) simp
  qed
qed

lemma shift_down_sorted:
  assumes "sorted_wrt name_le xs"
  shows "\<exists>zs. shift_down (xs @ aux # ys) aux (length xs) = zs @ ys \<and> sorted_wrt name_le zs \<and>
    mset zs = mset (xs @ [aux])"
proof -
  obtain as bs where s: "xs = as @ bs" "shift_down (xs @ aux # ys) aux (length xs) = as @ aux # bs @ ys"
    "\<forall>a\<in>set as. name_le a aux" "\<forall>b\<in>set bs. strcmp_lt (de_path_elem aux) (de_path_elem b)"
    using shift_down_split [OF assms, of aux ys aux] by blast
  have "sorted_wrt name_le (as @ aux # bs)"
    using assms s(1,3,4) by (auto simp: sorted_wrt_append name_le_def dest: strcmp_lt_asym)
  with s(1,2) show ?thesis by (intro exI [of _ "as @ aux # bs"]) simp
qed

lemma sort_from_sorted:
  assumes "sorted_wrt name_le xs"
  shows "sorted_wrt name_le (sort_from (xs @ ys) (length xs) (length (xs @ ys))) \<and>
    mset (sort_from (xs @ ys) (length xs) (length (xs @ ys))) = mset (xs @ ys)"
  using assms
proof (induction ys arbitrary: xs)
  case Nil
  then show ?case by (simp add: sort_from.simps)
next
  case (Cons y ys)
  obtain zs where z: "shift_down (xs @ y # ys) y (length xs) = zs @ ys" "sorted_wrt name_le zs"
    "mset zs = mset (xs @ [y])" using shift_down_sorted [OF Cons.prems, of y ys] by blast
  have len: "length zs = Suc (length xs)" using mset_eq_length [OF z(3)] by simp
  have "sort_from (xs @ y # ys) (length xs) (length (xs @ y # ys))
      = sort_from (zs @ ys) (length zs) (length (zs @ ys))"
    by (subst sort_from.simps) (simp add: z(1) len)
  with Cons.IH [OF z(2)] z(3) show ?case by simp
qed

lemma sort_dir_props: "sorted_wrt name_le (sort_dir t)" "mset (sort_dir t) = mset t"
proof -
  have "sorted_wrt name_le (sort_dir t) \<and> mset (sort_dir t) = mset t"
  proof (cases t)
    case Nil
    then show ?thesis by (simp add: sort_dir_def sort_from.simps)
  next
    case (Cons x xs)
    then show ?thesis using sort_from_sorted [of "[x]" xs] by (simp add: sort_dir_def)
  qed
  then show "sorted_wrt name_le (sort_dir t)" "mset (sort_dir t) = mset t" by simp_all
qed

text \<open>\<open>sort_dir\<close> sorts a directory by name and only permutes its entries.\<close>

theorem sort_dir_correct: "sorted_wrt name_le (sort_dir t) \<and> mset (sort_dir t) = mset t"
  by (simp add: sort_dir_props)

section \<open>The difference of two directories\<close>

definition names :: "dir_entry list \<Rightarrow> string set" where
  "names t = de_path_elem ` set t"

definition name_lt :: "dir_entry \<Rightarrow> dir_entry \<Rightarrow> bool" where
  "name_lt a b \<longleftrightarrow> strcmp_lt (de_path_elem a) (de_path_elem b)"

definition removed :: "dir_entry list \<Rightarrow> dir_entry list \<Rightarrow> dir_op list" where
  "removed old new = map (\<lambda>e. \<lparr>do_op = rm_op (de_type e), do_path_elem = de_path_elem e\<rparr>)
     (filter (\<lambda>e. de_path_elem e \<notin> names new) old)"

definition created :: "dir_entry list \<Rightarrow> dir_entry list \<Rightarrow> dir_op list" where
  "created old new = map (\<lambda>e. \<lparr>do_op = mk_op (de_type e), do_path_elem = de_path_elem e\<rparr>)
     (filter (\<lambda>e. de_path_elem e \<notin> names old) new)"

definition short_names :: "dir_entry list \<Rightarrow> bool" where
  "short_names t \<longleftrightarrow> (\<forall>e\<in>set t. length (de_path_elem e) < MAX_PATH_LEN)"

lemma names_above:
  assumes "\<forall>e\<in>set t. strcmp_lt s (de_path_elem e)"
  shows "s \<notin> names t"
  using assms by (auto simp: names_def)

lemma filter_names_Cons:
  assumes "\<forall>e\<in>set t. strcmp_lt (de_path_elem x) (de_path_elem e)"
  shows "filter (\<lambda>e. de_path_elem e \<notin> names (x # u)) t = filter (\<lambda>e. de_path_elem e \<notin> names u) t"
  using assms by (intro filter_cong) (auto simp: names_def)

lemma removed_simps:
  "removed [] new = []"
  "de_path_elem e \<notin> names new \<Longrightarrow> removed (e # old) new
     = \<lparr>do_op = rm_op (de_type e), do_path_elem = de_path_elem e\<rparr> # removed old new"
  "de_path_elem e \<in> names new \<Longrightarrow> removed (e # old) new = removed old new"
  "\<forall>e\<in>set old. strcmp_lt (de_path_elem x) (de_path_elem e) \<Longrightarrow> removed old (x # new) = removed old new"
  by (simp_all add: removed_def filter_names_Cons)

lemma created_simps:
  "created old [] = []"
  "de_path_elem e \<notin> names old \<Longrightarrow> created old (e # new)
     = \<lparr>do_op = mk_op (de_type e), do_path_elem = de_path_elem e\<rparr> # created old new"
  "de_path_elem e \<in> names old \<Longrightarrow> created old (e # new) = created old new"
  "\<forall>e\<in>set new. strcmp_lt (de_path_elem x) (de_path_elem e) \<Longrightarrow> created (x # old) new = created old new"
  by (simp_all add: created_def filter_names_Cons)

text \<open>The smaller of the two first names decides what is reported first.\<close>

lemma diff_old_first:
  assumes "strcmp_lt (de_path_elem o1) (de_path_elem n1)" "sorted_wrt name_lt (n1 # ns)"
  shows "removed (o1 # os) (n1 # ns) = \<lparr>do_op = rm_op (de_type o1), do_path_elem = de_path_elem o1\<rparr> # removed os (n1 # ns)"
    "created (o1 # os) (n1 # ns) = created os (n1 # ns)"
proof -
  have "\<forall>e\<in>set (n1 # ns). strcmp_lt (de_path_elem o1) (de_path_elem e)"
    using assms strcmp_lt_trans by (auto simp: name_lt_def)
  from removed_simps(2) [OF names_above [OF this]] created_simps(4) [OF this]
  show "removed (o1 # os) (n1 # ns) = \<lparr>do_op = rm_op (de_type o1), do_path_elem = de_path_elem o1\<rparr> # removed os (n1 # ns)"
    "created (o1 # os) (n1 # ns) = created os (n1 # ns)" .
qed

lemma diff_new_first:
  assumes "strcmp_lt (de_path_elem n1) (de_path_elem o1)" "sorted_wrt name_lt (o1 # os)"
  shows "created (o1 # os) (n1 # ns) = \<lparr>do_op = mk_op (de_type n1), do_path_elem = de_path_elem n1\<rparr> # created (o1 # os) ns"
    "removed (o1 # os) (n1 # ns) = removed (o1 # os) ns"
proof -
  have "\<forall>e\<in>set (o1 # os). strcmp_lt (de_path_elem n1) (de_path_elem e)"
    using assms strcmp_lt_trans by (auto simp: name_lt_def)
  from created_simps(2) [OF names_above [OF this]] removed_simps(4) [OF this]
  show "created (o1 # os) (n1 # ns) = \<lparr>do_op = mk_op (de_type n1), do_path_elem = de_path_elem n1\<rparr> # created (o1 # os) ns"
    "removed (o1 # os) (n1 # ns) = removed (o1 # os) ns" .
qed

lemma diff_same_first:
  assumes "de_path_elem o1 = de_path_elem n1" "sorted_wrt name_lt (o1 # os)" "sorted_wrt name_lt (n1 # ns)"
  shows "removed (o1 # os) (n1 # ns) = removed os ns" "created (o1 # os) (n1 # ns) = created os ns"
proof -
  have "removed os (n1 # ns) = removed os ns" "created (o1 # os) ns = created os ns"
    using assms by (simp_all add: removed_simps(4) created_simps(4) name_lt_def)
  then show "removed (o1 # os) (n1 # ns) = removed os ns" "created (o1 # os) (n1 # ns) = created os ns"
    using assms(1) by (simp_all add: removed_simps(3) created_simps(3) names_def)
qed

lemma put_op_fits: "k < OPMAX \<Longrightarrow> length s < MAX_PATH_LEN \<Longrightarrow> put_op k opn s = Some \<lparr>do_op = opn, do_path_elem = s\<rparr>"
  by (simp add: put_op_def)

lemma compare_loop_diff:
  assumes "sorted_wrt name_lt old" "sorted_wrt name_lt new" "short_names old" "short_names new"
    "k + length old + length new \<le> OPMAX"
  shows "\<exists>ops. compare_loop old new k = Some ops \<and> mset ops = mset (removed old new) + mset (created old new)"
  using assms
proof (induction old new k rule: compare_loop.induct)
  case (1 k)
  then show ?case by (simp add: removed_simps created_simps)
next
  case (2 o1 os k)
  have "de_path_elem o1 \<notin> names []" by (simp add: names_def)
  with 2 show ?case by (auto simp: put_op_def short_names_def removed_simps created_simps)
next
  case (3 n1 ns k)
  have "de_path_elem n1 \<notin> names []" by (simp add: names_def)
  with 3 show ?case by (auto simp: put_op_def short_names_def removed_simps created_simps)
next
  case (4 o1 os n1 ns k)
  have p: "put_op k opn (de_path_elem o1) = Some \<lparr>do_op = opn, do_path_elem = de_path_elem o1\<rparr>"
    "put_op k opn (de_path_elem n1) = Some \<lparr>do_op = opn, do_path_elem = de_path_elem n1\<rparr>" for opn
    using "4.prems"(3-5) by (intro put_op_fits; simp add: short_names_def)+
  consider (lt) "strcmp_lt (de_path_elem o1) (de_path_elem n1)"
    | (gt) "strcmp_lt (de_path_elem n1) (de_path_elem o1)" | (eq) "de_path_elem o1 = de_path_elem n1"
    using strcmp_lt_linear by blast
  then show ?case
  proof cases
    case lt
    then show ?thesis using "4.IH"(1) [OF lt p(1)] "4.prems" diff_old_first [OF lt "4.prems"(2), of os]
      by (auto simp: p short_names_def)
  next
    case gt
    note n = strcmp_lt_asym [OF gt]
    then show ?thesis using gt "4.IH"(2) [OF n gt p(2)] "4.prems" diff_new_first [OF gt "4.prems"(1), of ns]
      by (auto simp: p short_names_def)
  next
    case eq
    then show ?thesis using "4.IH"(3) "4.prems" diff_same_first [OF eq "4.prems"(1,2)] by (auto simp: short_names_def)
  qed
qed

lemma sorted_distinct_lt:
  "sorted_wrt name_le t \<Longrightarrow> distinct (map de_path_elem t) \<Longrightarrow> sorted_wrt name_lt t"
proof (induction t)
  case (Cons a t)
  have "name_lt a b" if "b \<in> set t" for b
    using Cons.prems that strcmp_lt_linear [of "de_path_elem a" "de_path_elem b"]
    by (auto simp: name_le_def name_lt_def image_iff)
  with Cons show ?case by simp
qed simp

lemma sort_dir_lt:
  assumes "distinct (map de_path_elem t)"
  shows "sorted_wrt name_lt (sort_dir t)"
proof -
  have m: "mset (sort_dir t) = mset t" and s: "sorted_wrt name_le (sort_dir t)"
    by (simp_all add: sort_dir_props)
  have "mset (map de_path_elem (sort_dir t)) = mset (map de_path_elem t)" using m by simp
  then have "distinct (map de_path_elem (sort_dir t))" using assms mset_eq_imp_distinct_iff by blast
  with s show ?thesis by (rule sorted_distinct_lt)
qed

lemma mset_filter_names: "mset t = mset u \<Longrightarrow> names t = names u"
  by (metis names_def set_mset_mset)

lemma diff_sort:
  "mset (removed (sort_dir old) (sort_dir new)) = mset (removed old new)"
  "mset (created (sort_dir old) (sort_dir new)) = mset (created old new)"
  unfolding removed_def created_def mset_map mset_filter
  by (simp_all add: sort_dir_props mset_filter_names [OF sort_dir_props(2)])

lemma sort_dir_set [simp]: "set (sort_dir t) = set t" "length (sort_dir t) = length t"
  using sort_dir_props(2) [of t] by (metis set_mset_mset, metis size_mset)

lemma compare_sorted_dirs:
  assumes "distinct (map de_path_elem old)" "distinct (map de_path_elem new)"
    and "short_names old" "short_names new" "length old + length new \<le> OPMAX"
  shows "\<exists>ops. compare_dirs (sort_dir old) (sort_dir new) = Some ops \<and>
    mset ops = mset (removed old new) + mset (created old new)"
proof -
  have "short_names (sort_dir old)" "short_names (sort_dir new)"
    using assms(3,4) by (simp_all add: short_names_def)
  then show ?thesis unfolding compare_dirs_def
    using compare_loop_diff [OF sort_dir_lt [OF assms(1)] sort_dir_lt [OF assms(2)], of 0] assms(5)
    by (simp add: diff_sort)
qed

text \<open>(C30) Parsing, sorting and comparing two versions of a directory reports exactly the entries whose
  name disappeared as removed and those whose name is new as created, each once, as long as names are
  unique, fit their buffers, and the tables have room.\<close>

theorem compare_dirs_symmetric_difference:
  assumes "distinct (map de_path_elem old)" "distinct (map de_path_elem new)"
    and "short_names old" "short_names new" "length old + length new \<le> OPMAX"
  shows "\<exists>ops. compare_dirs (sort_dir old) (sort_dir new) = Some ops \<and>
    mset ops = mset (removed old new) + mset (created old new)"
  using assms by (rule compare_sorted_dirs)

definition dir_a :: "dir_entry list" where
  "dir_a = [\<lparr>de_inode = 2, de_type = 2, de_path_elem = ''etc''\<rparr>, \<lparr>de_inode = 3, de_type = 1, de_path_elem = ''a''\<rparr>]"

definition dir_b :: "dir_entry list" where
  "dir_b = [\<lparr>de_inode = 2, de_type = 2, de_path_elem = ''etc''\<rparr>, \<lparr>de_inode = 5, de_type = 2, de_path_elem = ''b''\<rparr>]"

theorem compare_dirs_symmetric_difference_witness:
  "\<exists>ops. compare_dirs (sort_dir dir_a) (sort_dir dir_b) = Some ops \<and>
    mset ops = mset (removed dir_a dir_b) + mset (created dir_a dir_b)"
  by (rule compare_dirs_symmetric_difference) (simp_all add: dir_a_def dir_b_def short_names_def)


section \<open>Round trip\<close>

text \<open>A directory entry as ext2 lays it out, in a record of \<open>r\<close> bytes.\<close>

definition char_byte :: "char \<Rightarrow> u8" where
  "char_byte c = of_nat (of_char c)"

definition enc_entry :: "nat \<times> dir_entry \<Rightarrow> u8 list" where
  "enc_entry re = (case re of (r, e) \<Rightarrow>
     le_bytes 4 (de_inode e) @ le_bytes 2 (of_nat r :: u16) @
     [of_nat (length (de_path_elem e)), de_type e] @ map char_byte (de_path_elem e) @
     replicate (r - 8 - length (de_path_elem e)) 0)"

definition fits :: "nat \<times> dir_entry \<Rightarrow> bool" where
  "fits re = (case re of (r, e) \<Rightarrow> length (de_path_elem e) < 256 \<and> CHR 0x00 \<notin> set (de_path_elem e) \<and>
     8 + length (de_path_elem e) \<le> r \<and> r < 65536)"

lemma char_byte_val: "unat (char_byte c) = of_char c"
  using nat_of_char_less_256 [of c] by (simp add: char_byte_def unat_of_nat)

lemma strn_bytes_name:
  "CHR 0x00 \<notin> set s \<Longrightarrow> strn_bytes (map char_byte s @ X) (length s) = Some s"
proof (induction s)
  case (Cons c s)
  have "char_byte c \<noteq> 0"
  proof
    assume "char_byte c = 0"
    then have "(of_char c :: nat) = 0" using char_byte_val [of c] by simp
    then have "char_of (of_char c :: nat) = CHR 0x00" by (simp add: char_of_def)
    then have "c = CHR 0x00" by simp
    then show False using Cons.prems by simp
  qed
  then show ?case using Cons by (simp add: char_byte_val)
qed simp

lemma length_enc_entry: "fits (r, e) \<Longrightarrow> length (enc_entry (r, e)) = r"
  by (auto simp: fits_def enc_entry_def)

lemma entry_reads:
  assumes "fits (r, e)" and b: "block = pre @ enc_entry (r, e) @ post"
  shows "rd32 block (length pre) = Some (de_inode e)"
    "rd16 block (length pre + 4) = Some (of_nat r)"
    "rd8 block (length pre + 6) = Some (of_nat (length (de_path_elem e)))"
    "rd8 block (length pre + 7) = Some (de_type e)"
    "strn_bytes (drop (length pre + 8) block) (length (de_path_elem e)) = Some (de_path_elem e)"
    "\<exists>pad. drop (length pre + 8) block = map char_byte (de_path_elem e) @ pad"
proof -
  let ?n = "map char_byte (de_path_elem e) @ replicate (r - 8 - length (de_path_elem e)) 0 @ post"
  let ?i = "le_bytes 4 (de_inode e)" and ?r = "le_bytes 2 (of_nat r :: u16)"
  let ?l = "of_nat (length (de_path_elem e)) :: u8"
  have blk: "block = pre @ ?i @ ?r @ [?l] @ [de_type e] @ ?n"
    by (simp add: b enc_entry_def)
  have "block = pre @ ?i @ (?r @ [?l] @ [de_type e] @ ?n)" by (simp add: blk)
  then show "rd32 block (length pre) = Some (de_inode e)" by (simp only: rd_append_exact length_le_bytes le_word_le_bytes_id)
  have "block = (pre @ ?i) @ ?r @ ([?l] @ [de_type e] @ ?n)" by (simp add: blk)
  then show "rd16 block (length pre + 4) = Some (of_nat r)"
    by (simp only: rd_append_exact length_append length_le_bytes le_word_le_bytes_id)
  have "block = (pre @ ?i @ ?r) @ [?l] @ ([de_type e] @ ?n)" by (simp add: blk)
  then show "rd8 block (length pre + 6) = Some ?l" by (simp only:) (subst rd_append_exact; simp)
  have "block = (pre @ ?i @ ?r @ [?l]) @ [de_type e] @ ?n" by (simp add: blk)
  then show "rd8 block (length pre + 7) = Some (de_type e)" by (simp only:) (subst rd_append_exact; simp)
  have n: "drop (length pre + 8) block = ?n"
  proof -
    have "block = (pre @ ?i @ ?r @ [?l] @ [de_type e]) @ ?n" by (simp add: blk)
    moreover have "length (pre @ ?i @ ?r @ [?l] @ [de_type e]) = length pre + 8" by simp
    ultimately show ?thesis by (metis append_eq_conv_conj)
  qed
  then show "strn_bytes (drop (length pre + 8) block) (length (de_path_elem e)) = Some (de_path_elem e)"
    using assms(1) by (simp add: strn_bytes_name fits_def)
  show "\<exists>pad. drop (length pre + 8) block = map char_byte (de_path_elem e) @ pad"
    unfolding n by blast
qed

lemma parse_entries_enc:
  assumes "\<forall>re\<in>set res. fits re" "i + length res \<le> DIRMAX" "block = pre @ concat (map enc_entry res)"
  shows "parse_entries block (length block) (length pre) i = Some (map snd res)"
  using assms
proof (induction res arbitrary: pre i)
  case Nil
  then show ?case by (simp add: parse_entries.simps)
next
  case (Cons re res)
  obtain r e where re: "re = (r, e)" by (cases re)
  have f: "fits (r, e)" using Cons.prems(1) re by simp
  have b: "block = pre @ enc_entry (r, e) @ concat (map enc_entry res)" using Cons.prems(3) re by simp
  note rd = entry_reads [OF f b]
  have r: "unat (of_nat r :: u16) = r" using f by (simp add: fits_def unat_of_nat)
  have l: "unat (of_nat (length (de_path_elem e)) :: u8) = length (de_path_elem e)"
    using f by (simp add: fits_def unat_of_nat)
  have pos: "length pre < length block" using f by (simp add: b length_enc_entry) (simp add: fits_def)
  have "parse_entries block (length block) (length (pre @ enc_entry (r, e))) (Suc i) = Some (map snd res)"
    using Cons.prems by (intro Cons.IH) (simp_all add: re)
  then have rest: "parse_entries block (length block) (length pre + r) (Suc i) = Some (map snd res)"
    by (simp add: length_enc_entry [OF f])
  have "i < DIRMAX" using Cons.prems(2) by simp
  then show ?case
    by (subst parse_entries.simps) (simp del: One_nat_def add: pos rd r l rest re parse_name_def xa_linux_ext2_dir_getinode_def
      xa_linux_ext2_dir_gettype_def xa_linux_ext2_dir_getnamelen_def xa_linux_ext2_dir_getreclen_def)
qed

lemma parse_block_enc:
  assumes "\<forall>re\<in>set res. fits re" "length res \<le> DIRMAX"
  shows "parse_block_dir (concat (map enc_entry res)) (length (concat (map enc_entry res))) = Some (map snd res)"
  unfolding parse_block_dir_def using parse_entries_enc [of res 0 "concat (map enc_entry res)" "[]"] assms by simp

text \<open>(C31) Reading back a directory block: for up to 256 entries laid out as ext2 does, with any record
  lengths that hold the names, \<open>parse_block_dir\<close> gives back exactly these entries.\<close>

theorem parse_block_dir_roundtrip:
  assumes "\<forall>re\<in>set res. fits re" "length res \<le> DIRMAX"
  shows "parse_block_dir (concat (map enc_entry res)) (length (concat (map enc_entry res))) = Some (map snd res)"
  using assms by (rule parse_block_enc)

definition laid_out :: "(nat \<times> dir_entry) list" where
  "laid_out = [(12, \<lparr>de_inode = 2, de_type = 2, de_path_elem = ''etc''\<rparr>),
     (4084, \<lparr>de_inode = 3, de_type = 1, de_path_elem = ''a''\<rparr>)]"

theorem parse_block_dir_roundtrip_witness:
  "parse_block_dir (concat (map enc_entry laid_out)) (length (concat (map enc_entry laid_out)))
    = Some (map snd laid_out)"
  by (rule parse_block_dir_roundtrip) (simp_all add: laid_out_def fits_def)

end
