(* ===== verification/Xadisk_Hash.thy ===== *)
theory Xadisk_Hash
  imports Xadisk_Parse
begin

text \<open>
  The table of watched blocks, \<open>xadisk_hash.c\<close>. A bucket is its \<open>active\<close> byte
  and its linked list; the lists share no cells, so a list is the sequence of its nodes and
  updating one through a pointer to its \<open>next\<close> field is an update of the sequence.
\<close>

section \<open>The table\<close>

abbreviation (input) HASH_SIZE :: nat where "HASH_SIZE \<equiv> 32768"

record block_node =
  bn_block :: u32
  bn_inode :: u32
  bn_type :: u8
  bn_path :: string
  bn_dir :: "dir_entry list"

record hash_entry =
  he_active :: u8
  he_list :: "block_node list"

type_synonym hash_table = "nat \<Rightarrow> hash_entry"

definition hash_block :: "u32 \<Rightarrow> nat" where
  "hash_block block = unat block mod HASH_SIZE"

definition init_hash :: "hash_table \<Rightarrow> hash_table" where
  "init_hash ht = (\<lambda>i. if i < HASH_SIZE then \<lparr>he_active = 0, he_list = []\<rparr> else ht i)"

fun destroy_list :: "block_node list \<Rightarrow> block_node list" where
  "destroy_list [] = []"
| "destroy_list (b # aux) = destroy_list aux"

definition destroy_hash :: "hash_table \<Rightarrow> hash_table" where
  "destroy_hash ht = (\<lambda>i. if i < HASH_SIZE
     then \<lparr>he_active = 0, he_list = destroy_list (he_list (ht i))\<rparr> else ht i)"

fun insert_list :: "block_node list \<Rightarrow> block_node \<Rightarrow> block_node list" where
  "insert_list [] b = [b]"
| "insert_list (q # l) b = (if bn_block q < bn_block b then q # insert_list l b else b # q # l)"

definition insert_hash :: "hash_table \<Rightarrow> block_node \<Rightarrow> hash_table" where
  "insert_hash ht b = (let i = hash_block (bn_block b) in
     ht(i := (ht i)\<lparr>he_active := he_active (ht i) OR 0xFF,
                    he_list := insert_list (he_list (ht i)) b\<rparr>))"

fun remove_list :: "block_node list \<Rightarrow> u32 \<Rightarrow> block_node list" where
  "remove_list [] block = []"
| "remove_list (q # l) block =
     (if bn_block q < block then q # remove_list l block
      else if bn_block q = block then l else q # l)"

definition remove_hash :: "hash_table \<Rightarrow> u32 \<Rightarrow> hash_table" where
  "remove_hash ht block = (let i = hash_block block; l = remove_list (he_list (ht i)) block in
     ht(i := (ht i)\<lparr>he_list := l,
        he_active := (if l = [] then he_active (ht i) AND 0x00 else he_active (ht i))\<rparr>))"

fun check_list :: "block_node list \<Rightarrow> u32 \<Rightarrow> block_node option" where
  "check_list [] block = None"
| "check_list (q # l) block =
     (if bn_block q < block then check_list l block
      else if bn_block q = block then Some q else None)"

definition check_hash :: "hash_table \<Rightarrow> u32 \<Rightarrow> block_node option" where
  "check_hash ht block =
     (if he_active (ht (hash_block block)) = 0 then None
      else check_list (he_list (ht (hash_block block))) block)"

section \<open>The interface\<close>

text \<open>What the monitor relies on: a finite map from block numbers to nodes.\<close>

locale block_table =
  fixes invar :: "'t \<Rightarrow> bool"
    and lookup :: "'t \<Rightarrow> u32 \<Rightarrow> block_node option"
    and insert_node :: "'t \<Rightarrow> block_node \<Rightarrow> 't"
    and remove_block :: "'t \<Rightarrow> u32 \<Rightarrow> 't"
    and empty_table :: 't
  assumes invar_empty: "invar empty_table"
    and lookup_empty: "lookup empty_table k = None"
    and invar_insert: "invar t \<Longrightarrow> lookup t (bn_block b) = None \<Longrightarrow> invar (insert_node t b)"
    and lookup_insert: "invar t \<Longrightarrow> lookup t (bn_block b) = None \<Longrightarrow>
      lookup (insert_node t b) = (lookup t)(bn_block b \<mapsto> b)"
    and invar_remove: "invar t \<Longrightarrow> invar (remove_block t k)"
    and lookup_remove: "invar t \<Longrightarrow> lookup (remove_block t k) = (lookup t)(k := None)"
begin

text \<open>Entering the blocks of a directory and taking them out again.\<close>

lemma insert_all:
  assumes "invar t" "distinct (map bn_block bs)" "\<forall>b\<in>set bs. lookup t (bn_block b) = None"
  shows "invar (foldl insert_node t bs)"
    and "lookup (foldl insert_node t bs) = lookup t ++ map_of (map (\<lambda>b. (bn_block b, b)) bs)"
proof -
  have "invar (foldl insert_node t bs) \<and>
    lookup (foldl insert_node t bs) = lookup t ++ map_of (map (\<lambda>b. (bn_block b, b)) bs)"
    using assms
  proof (induction bs arbitrary: t)
    case (Cons b bs)
    have t': "invar (insert_node t b)" "lookup (insert_node t b) = (lookup t)(bn_block b \<mapsto> b)"
      using Cons.prems by (simp_all add: invar_insert lookup_insert)
    have "\<forall>c\<in>set bs. lookup (insert_node t b) (bn_block c) = None"
      using Cons.prems(2,3) by (auto simp: t'(2) image_iff)
    from Cons.IH [OF t'(1) _ this] Cons.prems(2)
    have "invar (foldl insert_node (insert_node t b) bs)"
      "lookup (foldl insert_node (insert_node t b) bs)
        = (lookup t)(bn_block b \<mapsto> b) ++ map_of (map (\<lambda>b. (bn_block b, b)) bs)"
      unfolding t'(2) by (simp_all del: fun_upd_apply)
    moreover have "bn_block b \<notin> dom (map_of (map (\<lambda>b. (bn_block b, b)) bs))"
      using Cons.prems(2) by (simp add: dom_map_of_conv_image_fst image_image)
    ultimately show ?case by (auto simp: map_add_def fun_eq_iff domIff split: option.splits)
  qed simp
  then show "invar (foldl insert_node t bs)"
    and "lookup (foldl insert_node t bs) = lookup t ++ map_of (map (\<lambda>b. (bn_block b, b)) bs)"
    by simp_all
qed

lemma remove_all:
  assumes "invar t"
  shows "invar (foldl remove_block t ks)" "lookup (foldl remove_block t ks) = (lookup t) |` (- set ks)"
proof -
  have "invar (foldl remove_block t ks) \<and> lookup (foldl remove_block t ks) = (lookup t) |` (- set ks)"
    using assms
  proof (induction ks arbitrary: t)
    case (Cons k ks)
    from Cons.IH [OF invar_remove [OF Cons.prems, of k]] show ?case
      by (auto simp: lookup_remove [OF Cons.prems] restrict_map_def fun_eq_iff)
  qed (simp add: restrict_map_def)
  then show "invar (foldl remove_block t ks)" "lookup (foldl remove_block t ks) = (lookup t) |` (- set ks)"
    by simp_all
qed

end

section \<open>The table is such a map\<close>

definition bucket_ok :: "nat \<Rightarrow> hash_entry \<Rightarrow> bool" where
  "bucket_ok i e \<longleftrightarrow> sorted_wrt (\<lambda>a b. bn_block a < bn_block b) (he_list e) \<and>
     (\<forall>b\<in>set (he_list e). hash_block (bn_block b) = i) \<and> (he_active e = 0 \<longleftrightarrow> he_list e = [])"

definition hash_ok :: "hash_table \<Rightarrow> bool" where
  "hash_ok ht \<longleftrightarrow> (\<forall>i<HASH_SIZE. bucket_ok i (ht i))"

lemma hash_block_less [simp]: "hash_block k < HASH_SIZE"
  by (simp add: hash_block_def)

lemma check_list_find:
  "sorted_wrt (\<lambda>a b. bn_block a < bn_block b) l \<Longrightarrow> check_list l k = List.find (\<lambda>b. bn_block b = k) l"
proof (induction l)
  case (Cons q l)
  have "List.find (\<lambda>b. bn_block b = k) l = None" if "\<not> bn_block q < k" "bn_block q \<noteq> k"
    using that Cons.prems by (fastforce simp: find_None_iff)
  with Cons show ?case by auto
qed simp

lemma insert_list_props:
  assumes "sorted_wrt (\<lambda>a b. bn_block a < bn_block b) l" "List.find (\<lambda>c. bn_block c = bn_block b) l = None"
  shows "sorted_wrt (\<lambda>a b. bn_block a < bn_block b) (insert_list l b)" "set (insert_list l b) = insert b (set l)"
proof -
  show s: "set (insert_list l b) = insert b (set l)" for l by (induction l) auto
  show "sorted_wrt (\<lambda>a b. bn_block a < bn_block b) (insert_list l b)"
    using assms
  proof (induction l)
    case (Cons q l)
    show ?case
    proof (cases "bn_block q < bn_block b")
      case True
      with Cons show ?thesis by (auto simp: s split: if_splits)
    next
      case False
      then have "bn_block b < bn_block q" using Cons.prems(2) by (auto split: if_splits)
      with Cons.prems(1) False show ?thesis by (auto intro: less_trans)
    qed
  qed simp
qed

lemma remove_list_props:
  assumes "sorted_wrt (\<lambda>a b. bn_block a < bn_block b) l"
  shows "sorted_wrt (\<lambda>a b. bn_block a < bn_block b) (remove_list l k)"
    "set (remove_list l k) = {b \<in> set l. bn_block b \<noteq> k}"
proof -
  have "sorted_wrt (\<lambda>a b. bn_block a < bn_block b) (remove_list l k) \<and>
    set (remove_list l k) = {b \<in> set l. bn_block b \<noteq> k}"
    using assms by (induction l) (auto)
  then show "sorted_wrt (\<lambda>a b. bn_block a < bn_block b) (remove_list l k)"
    "set (remove_list l k) = {b \<in> set l. bn_block b \<noteq> k}" by simp_all
qed

lemma find_in_set:
  assumes "sorted_wrt (\<lambda>a b. bn_block a < bn_block b) l"
  shows "List.find (\<lambda>b. bn_block b = k) l = Some b \<longleftrightarrow> b \<in> set l \<and> bn_block b = k"
  using assms by (induction l) auto

lemma check_hash_iff:
  assumes "hash_ok ht"
  shows "check_hash ht k = Some b \<longleftrightarrow> b \<in> set (he_list (ht (hash_block k))) \<and> bn_block b = k"
proof -
  have ok: "bucket_ok (hash_block k) (ht (hash_block k))" using assms by (simp add: hash_ok_def)
  then have "check_hash ht k = List.find (\<lambda>b. bn_block b = k) (he_list (ht (hash_block k)))"
    by (auto simp: check_hash_def bucket_ok_def check_list_find)
  then show ?thesis using ok by (simp add: bucket_ok_def find_in_set)
qed

lemma or_full_byte: "((x :: u8) OR 0xFF) \<noteq> 0"
proof -
  have "bit (x OR 0xFF) 0" by (simp add: bit_or_iff)
  then show ?thesis by auto
qed

lemma hash_ok_insert:
  assumes "hash_ok ht" "check_hash ht (bn_block b) = None"
  shows "hash_ok (insert_hash ht b)"
proof -
  let ?i = "hash_block (bn_block b)"
  have ok: "bucket_ok ?i (ht ?i)" using assms(1) by (simp add: hash_ok_def)
  then have s: "sorted_wrt (\<lambda>a b. bn_block a < bn_block b) (he_list (ht ?i))" by (simp add: bucket_ok_def)
  have n: "List.find (\<lambda>c. bn_block c = bn_block b) (he_list (ht ?i)) = None"
    using assms(2) check_hash_iff [OF assms(1), of "bn_block b"] by (auto simp: find_None_iff)
  have "bucket_ok ?i (insert_hash ht b ?i)"
    using ok insert_list_props [OF s n] or_full_byte
    by (auto simp: insert_hash_def Let_def bucket_ok_def)
  then show ?thesis using assms(1) by (auto simp: hash_ok_def insert_hash_def Let_def)
qed

lemma option_eqI: "(\<And>x. a = Some x \<longleftrightarrow> b = Some x) \<Longrightarrow> a = b"
  by (cases a; cases b) auto

lemma check_hash_insert:
  assumes "hash_ok ht" "check_hash ht (bn_block b) = None"
  shows "check_hash (insert_hash ht b) = (check_hash ht)(bn_block b \<mapsto> b)"
proof (rule ext, rule option_eqI)
  fix k x
  let ?i = "hash_block (bn_block b)"
  have s: "sorted_wrt (\<lambda>a b. bn_block a < bn_block b) (he_list (ht ?i))"
    using assms(1) by (simp add: hash_ok_def bucket_ok_def)
  have no: "c \<in> set (he_list (ht ?i)) \<Longrightarrow> bn_block c \<noteq> bn_block b" for c
    using assms(2) check_hash_iff [OF assms(1), of "bn_block b"] by auto
  then have n: "List.find (\<lambda>c. bn_block c = bn_block b) (he_list (ht ?i)) = None"
    by (auto simp: find_None_iff)
  show "check_hash (insert_hash ht b) k = Some x \<longleftrightarrow> ((check_hash ht)(bn_block b \<mapsto> b)) k = Some x"
    unfolding check_hash_iff [OF hash_ok_insert [OF assms]] fun_upd_apply
    using check_hash_iff [OF assms(1), of k x] insert_list_props(2) [OF s n] no
    by (auto simp: insert_hash_def Let_def)
qed

lemma hash_ok_remove:
  assumes "hash_ok ht"
  shows "hash_ok (remove_hash ht k)"
proof -
  let ?i = "hash_block k"
  have ok: "bucket_ok ?i (ht ?i)" using assms by (simp add: hash_ok_def)
  then have s: "sorted_wrt (\<lambda>a b. bn_block a < bn_block b) (he_list (ht ?i))" by (simp add: bucket_ok_def)
  have "bucket_ok ?i (remove_hash ht k ?i)"
    using ok remove_list_props [OF s, of k] by (auto simp: remove_hash_def Let_def bucket_ok_def)
  then show ?thesis using assms by (auto simp: hash_ok_def remove_hash_def Let_def)
qed

lemma check_hash_remove:
  assumes "hash_ok ht"
  shows "check_hash (remove_hash ht k) = (check_hash ht)(k := None)"
proof (rule ext, rule option_eqI)
  fix j x
  have s: "sorted_wrt (\<lambda>a b. bn_block a < bn_block b) (he_list (ht (hash_block k)))"
    using assms by (simp add: hash_ok_def bucket_ok_def)
  show "check_hash (remove_hash ht k) j = Some x \<longleftrightarrow> ((check_hash ht)(k := None)) j = Some x"
    unfolding check_hash_iff [OF hash_ok_remove [OF assms]] fun_upd_apply
    using check_hash_iff [OF assms, of j x] remove_list_props(2) [OF s, of k]
    by (auto simp: remove_hash_def Let_def)
qed

lemma hash_ok_init: "hash_ok (init_hash ht)" "check_hash (init_hash ht) k = None"
  by (simp_all add: hash_ok_def bucket_ok_def init_hash_def check_hash_def)

interpretation watched: block_table hash_ok check_hash insert_hash remove_hash "init_hash ht" for ht
  by unfold_locales
    (simp_all add: hash_ok_init hash_ok_insert check_hash_insert hash_ok_remove check_hash_remove)

lemma destroy_list_Nil [simp]: "destroy_list l = []"
  by (induction l) simp_all

text \<open>A watched block is found again after it has been entered, and no other lookup changes: on
  a well-formed table \<open>insert_hash\<close> of a block that is not there yet keeps the table well
  formed and is the update of the map that \<open>check_hash\<close> reads.\<close>

theorem insert_hash_lookup:
  assumes "hash_ok ht" "check_hash ht (bn_block b) = None"
  shows "hash_ok (insert_hash ht b) \<and> check_hash (insert_hash ht b) = (check_hash ht)(bn_block b \<mapsto> b)"
  using assms by (simp add: hash_ok_insert check_hash_insert)

definition no_table :: hash_table where
  "no_table = init_hash (\<lambda>i. \<lparr>he_active = 0, he_list = []\<rparr>)"

definition node7 :: block_node where
  "node7 = \<lparr>bn_block = 7, bn_inode = 2, bn_type = 2, bn_path = ''/'', bn_dir = []\<rparr>"

theorem insert_hash_lookup_witness:
  "hash_ok (insert_hash no_table node7) \<and>
    check_hash (insert_hash no_table node7) = (check_hash no_table)(bn_block node7 \<mapsto> node7)"
  by (rule insert_hash_lookup) (simp_all add: no_table_def hash_ok_init)

text \<open>Watching a directory and unwatching it: after its blocks have been entered one by one and
  taken out again, every lookup answers as before, whatever else the table holds.\<close>

theorem watch_unwatch_lookup:
  assumes "hash_ok ht" "distinct (map bn_block bs)" "\<forall>b\<in>set bs. check_hash ht (bn_block b) = None"
  shows "hash_ok (foldl remove_hash (foldl insert_hash ht bs) (map bn_block bs)) \<and>
    check_hash (foldl remove_hash (foldl insert_hash ht bs) (map bn_block bs)) = check_hash ht"
proof -
  note i = watched.insert_all [OF assms] 
  have "(check_hash ht ++ map_of (map (\<lambda>b. (bn_block b, b)) bs)) |` (- set (map bn_block bs)) = check_hash ht"
  proof (rule ext)
    fix k
    show "((check_hash ht ++ map_of (map (\<lambda>b. (bn_block b, b)) bs)) |` (- set (map bn_block bs))) k = check_hash ht k"
    proof (cases "k \<in> set (map bn_block bs)")
      case True
      then show ?thesis using assms(3) by (auto simp: restrict_map_def)
    next
      case False
      then have "map_of (map (\<lambda>b. (bn_block b, b)) bs) k = None" by (simp add: map_of_eq_None_iff image_image)
      then show ?thesis using False by (simp add: restrict_map_def map_add_def)
    qed
  qed
  with watched.remove_all [OF i(1), of "map bn_block bs"] i(2) show ?thesis by simp
qed

theorem watch_unwatch_lookup_witness:
  "hash_ok (foldl remove_hash (foldl insert_hash no_table [node7]) (map bn_block [node7])) \<and>
    check_hash (foldl remove_hash (foldl insert_hash no_table [node7]) (map bn_block [node7])) = check_hash no_table"
  by (rule watch_unwatch_lookup) (simp_all add: no_table_def hash_ok_init)

end
