(* ===== verification/Xadisk_Ext2.thy ===== *)
theory Xadisk_Ext2
  imports Xadisk_Parse
begin

text \<open>
  The ext2 reader of the disk monitor, \<open>xadisk_linux_ext2.c\<close>. The image file is its list
  of bytes; \<open>mmap\<close> of a region gives the pages that hold it, and a load outside them is
  undefined. A pointer into a mapping is an offset. \<open>xa_linux_ext2_listdirs\<close> is in the
  theory \<open>Xadisk_Path\<close>. A group number is an \<open>int\<close>; it stays below \<open>2\<^sup>3\<^sup>1\<close>
  as soon as a group has two inodes.
\<close>

section \<open>Super block and group descriptors\<close>

abbreviation (input) LINUX_EXT2_ROOT_INODE :: u32 where "LINUX_EXT2_ROOT_INODE \<equiv> 2"
abbreviation (input) LINUX_EXT2_SUPERBLOCK_OFFSET :: nat where "LINUX_EXT2_SUPERBLOCK_OFFSET \<equiv> 1024"
abbreviation (input) LINUX_EXT2_NBLOCKS :: nat where "LINUX_EXT2_NBLOCKS \<equiv> 15"
abbreviation (input) LINUX_EXT2_GROUPDESC_SIZE :: nat where "LINUX_EXT2_GROUPDESC_SIZE \<equiv> 32"

record xa_linux_ext2_sb =
  sb_blocks_total :: u32
  sb_block_size :: u32
  sb_blocks_per_group :: u32
  sb_inodes_per_group :: u32
  sb_inode_size :: u16

text \<open>\<open>mmap(0, len, PROT_READ, MAP_PRIVATE, fd, off)\<close>: whole pages from an offset that has
  to be a multiple of the page size, zeros between the end of the file and the end of its last page, and
  nothing behind it. The code does not test for \<open>MAP_FAILED\<close>, the address of no bytes at all.\<close>

definition mmap_region :: "u8 list \<Rightarrow> nat \<Rightarrow> nat \<Rightarrow> u8 list" where
  "mmap_region img off len =
     (if off mod 4096 \<noteq> 0 then []
      else take ((len + 4095) div 4096 * 4096) (drop off (img @ replicate ((4096 - length img mod 4096) mod 4096) 0)))"

lemma mmap_region_block:
  assumes "4096 * k + 4096 * n \<le> length img"
  shows "mmap_region img (4096 * k) (4096 * n) = take (4096 * n) (drop (4096 * k) img)"
proof -
  have "(4096 * n + 4095) div 4096 = n" by simp
  then show ?thesis using assms by (simp add: mmap_region_def mult.commute)
qed

text \<open>\<open>1024 * (1 << n)\<close> is an \<open>int\<close>, which overflows for \<open>n\<close> above 20.\<close>

definition xa_linux_ext2_read_sb :: "u8 list \<Rightarrow> xa_linux_ext2_sb option" where
  "xa_linux_ext2_read_sb img =
     (let q = mmap_region img 0 4096; p = LINUX_EXT2_SUPERBLOCK_OFFSET + 4 in do {
     blocks_total \<leftarrow> rd32 q p;
     log_size \<leftarrow> rd32 q (p + 24);
     block_size \<leftarrow> (if unat log_size < 21 then Some (1024 * push_bit (unat log_size) 1) else None);
     blocks_per_group \<leftarrow> rd32 q (p + 24 + 8);
     inodes_per_group \<leftarrow> rd32 q (p + 24 + 8 + 4);
     inode_size \<leftarrow> rd16 q (p + 24 + 8 + 4 + 48);
     Some \<lparr>sb_blocks_total = blocks_total, sb_block_size = block_size,
       sb_blocks_per_group = blocks_per_group, sb_inodes_per_group = inodes_per_group,
       sb_inode_size = inode_size\<rparr> })"

fun read_gds :: "u8 list \<Rightarrow> nat \<Rightarrow> nat \<Rightarrow> u32 list option" where
  "read_gds q p 0 = Some []"
| "read_gds q p (Suc n) = do {
     g \<leftarrow> rd32 q p;
     gs \<leftarrow> read_gds q (p + LINUX_EXT2_GROUPDESC_SIZE) n;
     Some (g # gs) }"

text \<open>The length \<open>ngroups * 32\<close> of the mapping is an \<open>int\<close> too.\<close>

definition xa_linux_ext2_read_groupdesc :: "u8 list \<Rightarrow> xa_linux_ext2_sb \<Rightarrow> u32 list option" where
  "xa_linux_ext2_read_groupdesc img sb =
     (if sb_blocks_per_group sb = 0 then None
      else (let ngroups = sb_blocks_total sb div sb_blocks_per_group sb + 1;
                p = mmap_region img 4096 (unat ngroups * LINUX_EXT2_GROUPDESC_SIZE)
            in if 2 ^ 26 \<le> unat ngroups then None else read_gds p 8 (unat ngroups)))"

definition xa_linux_ext2_init :: "u8 list \<Rightarrow> (xa_linux_ext2_sb \<times> u32 list) option" where
  "xa_linux_ext2_init img = do {
     sb \<leftarrow> xa_linux_ext2_read_sb img;
     gd \<leftarrow> xa_linux_ext2_read_groupdesc img sb;
     Some (sb, gd) }"

section \<open>Inodes\<close>

definition xa_linux_ext2_dir_getgroup :: "xa_linux_ext2_sb \<Rightarrow> u32 \<Rightarrow> nat option" where
  "xa_linux_ext2_dir_getgroup sb inode =
     (if sb_inodes_per_group sb = 0 then None
      else (let group = inode div sb_inodes_per_group sb
            in Some (unat group * unat (sb_blocks_per_group sb) * unat (sb_block_size sb))))"

text \<open>The offset that is added to the address of the group, in 32-bit arithmetic.\<close>

definition xa_linux_ext2_findinode :: "xa_linux_ext2_sb \<Rightarrow> u32 \<Rightarrow> u32 \<Rightarrow> u32" where
  "xa_linux_ext2_findinode sb first_inode inode =
     (first_inode mod sb_blocks_per_group sb) * sb_block_size sb
     + (inode mod sb_inodes_per_group sb - 1) * ucast (sb_inode_size sb)"

text \<open>The data blocks of the inode at offset \<open>p\<close> of a mapping; \<open>blocks\<close> has room
  for 15.\<close>

fun read_blocks :: "u8 list \<Rightarrow> nat \<Rightarrow> nat \<Rightarrow> nat \<Rightarrow> u32 list option" where
  "read_blocks m p i 0 = Some []"
| "read_blocks m p i (Suc n) =
     (if LINUX_EXT2_NBLOCKS \<le> i then None
      else do { b \<leftarrow> rd32 m p; bs \<leftarrow> read_blocks m (p + 4) (Suc i) n; Some (b # bs) })"

definition xa_linux_ext2_datablocks :: "u8 list \<Rightarrow> nat \<Rightarrow> u32 list option" where
  "xa_linux_ext2_datablocks m inode = do {
     sectors \<leftarrow> rd32 m (inode + 28);
     read_blocks m (inode + 40) 0 (unat (sectors div 8)) }"

section \<open>Paths\<close>

text \<open>\<open>strncmp(p, name, name_len) == 0\<close> for a name without NUL.\<close>

fun strncmp_bytes :: "u8 list \<Rightarrow> string \<Rightarrow> bool option" where
  "strncmp_bytes bs [] = Some True"
| "strncmp_bytes [] (c # s) = None"
| "strncmp_bytes (b # bs) (c # s) = (if b = char_byte c then strncmp_bytes bs s else Some False)"

text \<open>The position of the entry, \<open>Some None\<close> for NULL; an entry of length 0 makes the
  loop run forever.\<close>

partial_function (option) finddir_loop ::
  "u8 list \<Rightarrow> string \<Rightarrow> nat \<Rightarrow> nat \<Rightarrow> nat option option" where
  "finddir_loop dir_block name limit pos =
     (if pos < limit then do {
        len \<leftarrow> xa_linux_ext2_dir_getnamelen dir_block pos;
        eq \<leftarrow> (if length name = unat len
              then strncmp_bytes (xa_linux_ext2_dir_getname dir_block pos) name else Some False);
        if eq then Some (Some pos)
        else do {
          reclen \<leftarrow> xa_linux_ext2_dir_getreclen dir_block pos;
          finddir_loop dir_block name limit (pos + unat reclen) } }
      else Some None)"

declare finddir_loop.simps [code]

definition xa_linux_ext2_finddir :: "u8 list \<Rightarrow> string \<Rightarrow> nat \<Rightarrow> nat option option" where
  "xa_linux_ext2_finddir dir_block name dir_size = finddir_loop dir_block name dir_size 0"

text \<open>The block size as the \<open>short\<close> parameter \<open>dir_size\<close>; a negative
  one ends the loop at once, like 0.\<close>

definition short_size :: "u32 \<Rightarrow> nat" where
  "short_size n = nat (sint (ucast n :: u16))"

text \<open>The loop over the data blocks of a directory: the mapping of the block and the position of the
  entry in it.\<close>

fun find_in_blocks ::
  "u8 list \<Rightarrow> xa_linux_ext2_sb \<Rightarrow> string \<Rightarrow> u32 list \<Rightarrow> (u8 list \<times> nat) option option" where
  "find_in_blocks img sb name [] = Some None"
| "find_in_blocks img sb name (b # bs) =
     (let block = mmap_region img (unat b * unat (sb_block_size sb)) (unat (sb_block_size sb)) in do {
     r \<leftarrow> xa_linux_ext2_finddir block name (short_size (sb_block_size sb));
     (case r of Some pos \<Rightarrow> Some (Some (block, pos)) | None \<Rightarrow> find_in_blocks img sb name bs) })"

text \<open>The data blocks of inode \<open>curinode\<close>.\<close>

definition inode_blocks ::
  "u8 list \<Rightarrow> xa_linux_ext2_sb \<Rightarrow> u32 list \<Rightarrow> u32 \<Rightarrow> u32 list option" where
  "inode_blocks img sb inode_table curinode = do {
     group_off \<leftarrow> xa_linux_ext2_dir_getgroup sb curinode;
     let group = unat (curinode div sb_inodes_per_group sb);
     first_inode \<leftarrow> (if group < length inode_table then Some (inode_table ! group) else None);
     if sb_blocks_per_group sb = 0 then None
     else (let m = mmap_region img group_off (unat (sb_blocks_per_group sb * sb_block_size sb))
           in xa_linux_ext2_datablocks m (unat (xa_linux_ext2_findinode sb first_inode curinode))) }"

text \<open>One path element: at most 256 characters up to the next slash.\<close>

definition path_elem :: "string \<Rightarrow> string" where
  "path_elem s = take MAX_PATH_LEN (takeWhile (\<lambda>c. c \<noteq> CHR ''/'') s)"

function ext2_dir_loop ::
  "u8 list \<Rightarrow> xa_linux_ext2_sb \<Rightarrow> u32 list \<Rightarrow> u32 \<Rightarrow> string \<Rightarrow> (u32 list \<times> u32) option option" where
  "ext2_dir_loop img sb inode_table curinode dirpath = do {
     blocks \<leftarrow> inode_blocks img sb inode_table curinode;
     let path = dropWhile (\<lambda>c. c = CHR ''/'') dirpath;
     if path = [] then Some (Some (blocks, curinode))
     else do {
       r \<leftarrow> find_in_blocks img sb (path_elem path) blocks;
       (case r of
          None \<Rightarrow> Some None
        | Some (block, pos) \<Rightarrow> do {
            type \<leftarrow> xa_linux_ext2_dir_gettype block pos;
            inode \<leftarrow> (if type = 2 then xa_linux_ext2_dir_getinode block pos else Some curinode);
            ext2_dir_loop img sb inode_table inode (drop (length (path_elem path)) path) }) } }"
  by pat_completeness auto
termination
proof (relation "measure (\<lambda>(img, sb, inode_table, curinode, dirpath). length dirpath)")
  fix img sb inode_table curinode dirpath blocks path r rp block pos type inode
  assume path: "path = dropWhile (\<lambda>c. c = CHR ''/'') dirpath" "path \<noteq> []"
  then have "hd path \<noteq> CHR ''/''" using hd_dropWhile [of "\<lambda>c. c = CHR ''/''" dirpath] by simp
  then have "0 < length (path_elem path)" using path(2) by (cases path) (auto simp: path_elem_def)
  moreover have "length path \<le> length dirpath" unfolding path(1) by (rule length_dropWhile_le)
  moreover have "0 < length path" using path(2) by simp
  ultimately have "length path - length (path_elem path) < length dirpath" by linarith
  then show "((img, sb, inode_table, inode, drop (length (path_elem path)) path),
      img, sb, inode_table, curinode, dirpath)
      \<in> measure (\<lambda>(img, sb, inode_table, curinode, dirpath). length dirpath)"
    by simp
qed simp

declare ext2_dir_loop.simps [simp del]

text \<open>\<open>Some None\<close> is the result -1, an invalid path.\<close>

definition xa_linux_ext2_dir ::
  "u8 list \<Rightarrow> xa_linux_ext2_sb \<Rightarrow> u32 list \<Rightarrow> string \<Rightarrow> (u32 list \<times> u32) option option" where
  "xa_linux_ext2_dir img sb inode_table dirpath =
     ext2_dir_loop img sb inode_table LINUX_EXT2_ROOT_INODE dirpath"

section \<open>Inode locations\<close>

text \<open>Where ext2 keeps an inode: inode numbers start at 1, each group holds
  \<open>inodes_per_group\<close> of them, and the table of the group starts at block
  \<open>first_inode\<close>.\<close>

definition ext2_inode_group :: "xa_linux_ext2_sb \<Rightarrow> u32 \<Rightarrow> nat" where
  "ext2_inode_group sb inode = (unat inode - 1) div unat (sb_inodes_per_group sb)"

definition ext2_inode_offset :: "xa_linux_ext2_sb \<Rightarrow> u32 \<Rightarrow> u32 \<Rightarrow> nat" where
  "ext2_inode_offset sb first_inode inode =
     unat first_inode * unat (sb_block_size sb)
     + (unat inode - 1) mod unat (sb_inodes_per_group sb) * unat (sb_inode_size sb)"

lemma unat_ucast16: "unat (ucast (x :: u16) :: u32) = unat x"
proof -
  have "unat x < 2 ^ 16" using unsigned_less [of x] by simp
  then have "unat x < 2 ^ 32" by (rule less_trans) simp
  then show ?thesis by (simp add: unsigned_ucast_eq take_bit_nat_eq_self)
qed

lemma pred_mod: "n mod m \<noteq> 0 \<Longrightarrow> (n - 1) mod m = n mod m - (1 :: nat)" "n mod m \<noteq> 0 \<Longrightarrow> (n - 1) div m = n div m"
proof -
  assume "n mod m \<noteq> 0"
  then obtain k where n: "n = Suc k" by (cases n) auto
  have k: "Suc k mod m = (if Suc (k mod m) = m then 0 else Suc (k mod m))" by (rule mod_Suc)
  show "(n - 1) mod m = n mod m - 1" using \<open>n mod m \<noteq> 0\<close> k n by (simp split: if_splits)
  show "(n - 1) div m = n div m" using \<open>n mod m \<noteq> 0\<close> n by (simp add: div_Suc)
qed

text \<open>For an inode number that is not a multiple of the number of inodes per group, the group and
  the position computed by \<open>xa_linux_ext2_dir_getgroup\<close> and
  \<open>xa_linux_ext2_findinode\<close> are where ext2 keeps that inode, when the group descriptor is
  that of the group and the 32-bit arithmetic does not overflow.\<close>

theorem ext2_inode_location:
  assumes "unat inode mod unat (sb_inodes_per_group sb) \<noteq> 0" "sb_inodes_per_group sb \<noteq> 0"
    and "unat first_inode div unat (sb_blocks_per_group sb) = ext2_inode_group sb inode"
    and "(unat first_inode mod unat (sb_blocks_per_group sb)) * unat (sb_block_size sb)
      + unat (sb_inodes_per_group sb) * unat (sb_inode_size sb) < 2 ^ 32"
  shows "\<exists>group_off. xa_linux_ext2_dir_getgroup sb inode = Some group_off \<and>
    group_off + unat (xa_linux_ext2_findinode sb first_inode inode) = ext2_inode_offset sb first_inode inode"
proof -
  let ?ipg = "unat (sb_inodes_per_group sb)" and ?bpg = "unat (sb_blocks_per_group sb)"
  let ?bs = "unat (sb_block_size sb)" and ?is = "unat (sb_inode_size sb)"
  let ?idx = "unat inode mod ?ipg - 1"
  have pos: "0 < ?ipg" using assms(2) by (simp add: unat_gt_0)
  then have idx: "?idx < ?ipg" using mod_less_divisor [of ?ipg "unat inode"] by linarith
  have "?idx * ?is \<le> ?ipg * ?is" using idx by simp
  then have fit: "(unat first_inode mod ?bpg) * ?bs + ?idx * ?is < 2 ^ 32" using assms(4) by linarith
  have one: "unat (inode mod sb_inodes_per_group sb - 1) = ?idx"
    using assms(1) by (subst unat_sub) (simp_all add: unat_mod word_le_nat_alt)
  have a: "unat ((first_inode mod sb_blocks_per_group sb) * sb_block_size sb) = (unat first_inode mod ?bpg) * ?bs"
    using fit by (subst unat_mult_small) (simp_all add: unat_mod)
  have b: "unat ((inode mod sb_inodes_per_group sb - 1) * ucast (sb_inode_size sb)) = ?idx * ?is"
    using fit by (subst unat_mult_small) (simp_all add: one unat_ucast16)
  have off: "unat (xa_linux_ext2_findinode sb first_inode inode) = (unat first_inode mod ?bpg) * ?bs + ?idx * ?is"
    unfolding xa_linux_ext2_findinode_def using fit by (subst unat_plus_small) (simp_all add: a b)
  have g: "unat (inode div sb_inodes_per_group sb) = unat first_inode div ?bpg"
    using assms(3) pred_mod(2) [OF assms(1)] by (simp add: unat_div ext2_inode_group_def)
  have "unat first_inode div ?bpg * ?bpg * ?bs + (unat first_inode mod ?bpg) * ?bs = unat first_inode * ?bs"
    by (metis add_mult_distrib div_mult_mod_eq)
  then show ?thesis
    using assms(2) pred_mod(1) [OF assms(1)]
    by (simp add: xa_linux_ext2_dir_getgroup_def g off ext2_inode_offset_def)
qed

definition small_sb :: xa_linux_ext2_sb where
  "small_sb = \<lparr>sb_blocks_total = 100, sb_block_size = 4096, sb_blocks_per_group = 50,
     sb_inodes_per_group = 16, sb_inode_size = 128\<rparr>"

theorem ext2_inode_location_witness:
  "\<exists>group_off. xa_linux_ext2_dir_getgroup small_sb 18 = Some group_off \<and>
    group_off + unat (xa_linux_ext2_findinode small_sb 53 18) = ext2_inode_offset small_sb 53 18"
  by (rule ext2_inode_location) (simp_all add: small_sb_def ext2_inode_group_def)

text \<open>(C40) The last inode of a group is looked up in the next group: for a multiple of the number of
  inodes per group the computed group is one too far.\<close>

theorem ext2_last_inode_wrong_group:
  assumes "unat inode mod unat (sb_inodes_per_group sb) = 0" "inode \<noteq> 0" "sb_inodes_per_group sb \<noteq> 0"
  shows "xa_linux_ext2_dir_getgroup sb inode
    = Some ((ext2_inode_group sb inode + 1) * unat (sb_blocks_per_group sb) * unat (sb_block_size sb))"
proof -
  let ?m = "unat (sb_inodes_per_group sb)"
  have "0 < unat inode" using assms(2) by (simp add: unat_gt_0)
  then obtain k where k: "unat inode = Suc k" by (cases "unat inode") auto
  have "Suc k div ?m = Suc (k div ?m)" using assms(1) k by (simp add: div_Suc)
  then have "unat (inode div sb_inodes_per_group sb) = ext2_inode_group sb inode + 1"
    by (simp add: unat_div ext2_inode_group_def k)
  then show ?thesis using assms(3) by (simp add: xa_linux_ext2_dir_getgroup_def)
qed

theorem ext2_last_inode_wrong_group_witness:
  "xa_linux_ext2_dir_getgroup small_sb 32
    = Some ((ext2_inode_group small_sb 32 + 1) * unat (sb_blocks_per_group small_sb) * unat (sb_block_size small_sb))"
  by (rule ext2_last_inode_wrong_group) (simp_all add: small_sb_def)

section \<open>Looking up a name\<close>

lemma char_byte_inj: "char_byte c = char_byte d \<longleftrightarrow> c = d"
proof
  assume "char_byte c = char_byte d"
  then have "(of_char c :: nat) = of_char d" by (metis char_byte_val)
  then show "c = d" by simp
qed simp

lemma strncmp_bytes_name:
  "length s = length name \<Longrightarrow> strncmp_bytes (map char_byte s @ pad) name = Some (s = name)"
  by (induction s name rule: list_induct2) (auto simp: char_byte_inj)

text \<open>The offset of the first entry with the name.\<close>

fun entry_pos :: "(nat \<times> dir_entry) list \<Rightarrow> string \<Rightarrow> nat option" where
  "entry_pos [] name = None"
| "entry_pos ((r, e) # res) name =
     (if de_path_elem e = name then Some 0 else map_option (\<lambda>p. r + p) (entry_pos res name))"

lemma finddir_loop_enc:
  assumes "\<forall>re\<in>set res. fits re" "block = pre @ concat (map enc_entry res)"
  shows "finddir_loop block name (length block) (length pre) = Some (map_option (\<lambda>p. length pre + p) (entry_pos res name))"
  using assms
proof (induction res arbitrary: pre)
  case Nil
  then show ?case by (simp add: finddir_loop.simps)
next
  case (Cons re res)
  obtain r e where re: "re = (r, e)" by (cases re)
  have f: "fits (r, e)" using Cons.prems(1) re by simp
  have b: "block = pre @ enc_entry (r, e) @ concat (map enc_entry res)" using Cons.prems(2) re by simp
  note rd = entry_reads [OF f b]
  obtain pad where n: "drop (length pre + 8) block = map char_byte (de_path_elem e) @ pad" using rd(6) by blast
  have r: "unat (of_nat r :: u16) = r" using f by (simp add: fits_def unat_of_nat)
  have l: "unat (of_nat (length (de_path_elem e)) :: u8) = length (de_path_elem e)"
    using f by (simp add: fits_def unat_of_nat)
  have pos: "length pre < length block" using f by (simp add: b length_enc_entry) (simp add: fits_def)
  have "finddir_loop block name (length block) (length (pre @ enc_entry (r, e)))
      = Some (map_option (\<lambda>p. length (pre @ enc_entry (r, e)) + p) (entry_pos res name))"
    using Cons.prems by (intro Cons.IH) (simp_all add: re)
  then have rest: "finddir_loop block name (length block) (length pre + r)
      = Some (map_option (\<lambda>p. length pre + r + p) (entry_pos res name))"
    by (simp add: length_enc_entry [OF f])
  show ?case
    by (subst finddir_loop.simps) (simp del: One_nat_def add: pos rd(2,3) n r l strncmp_bytes_name rest re comp_def
      xa_linux_ext2_dir_getname_def xa_linux_ext2_dir_getnamelen_def xa_linux_ext2_dir_getreclen_def
      option.map_comp add.assoc)
qed

text \<open>Finding a name in a directory block: on a block that lays out directory entries as ext2 does,
  \<open>xa_linux_ext2_finddir\<close> always ends, and gives the position of the first entry with
  exactly this name, or NULL when no entry has it.\<close>

theorem xa_linux_ext2_finddir_correct:
  assumes "\<forall>re\<in>set res. fits re"
  shows "xa_linux_ext2_finddir (concat (map enc_entry res)) name (length (concat (map enc_entry res)))
    = Some (entry_pos res name)"
  using finddir_loop_enc [OF assms, of "concat (map enc_entry res)" "[]" name]
  by (simp add: xa_linux_ext2_finddir_def option.map_ident)

theorem xa_linux_ext2_finddir_correct_witness:
  "xa_linux_ext2_finddir (concat (map enc_entry laid_out)) ''a'' (length (concat (map enc_entry laid_out))) = Some (Some 12)"
  by (subst xa_linux_ext2_finddir_correct) (simp_all add: laid_out_def fits_def)

end
