(* ===== verification/Xadisk_Core.thy ===== *)
theory Xadisk_Core
  imports Xadisk_Hash Xadisk_Ext2 Xa_Symbols
begin

text \<open>
  The disk monitor, \<open>xadisk_core.c\<close>, and the messages that it gets from the tap drivers
  \<open>block-logaio.c\<close> and \<open>block-logsync.c\<close>: a driver copies every write of
  the guest into a FIFO, the monitor reads the messages, and for a watched directory block reports
  the entries that came and went.

  The FIFO is the sequence of results of \<open>read\<close>: the bytes of one call, or
  \<open>None\<close> when it returns -1. Messages written to the application are a list of lines.
  The drivers themselves are in the theory \<open>Xadisk_Tap\<close>.
\<close>

section \<open>Messages\<close>

abbreviation (input) BUFSIZE :: nat where "BUFSIZE \<equiv> 5009"

text \<open>The message for a write. The buffer of the request must hold 4096 bytes, whatever
  \<open>nb_sectors\<close> says; the last 900 bytes of the message are never written and hold
  \<open>junk\<close>.\<close>

definition tdlogaio_message :: "u64 \<Rightarrow> u32 \<Rightarrow> u8 list \<Rightarrow> u8 list \<Rightarrow> u8 list option" where
  "tdlogaio_message sector nb_sectors buf junk =
     (if length buf < 4096 then None
      else Some ([1] @ le_bytes 8 sector @ le_bytes 4 nb_sectors @ take 4096 buf
        @ take (BUFSIZE - 4109) junk))"

definition tdlogsync_message :: "u64 \<Rightarrow> u32 \<Rightarrow> u8 list \<Rightarrow> u8 list \<Rightarrow> u8 list option" where
  "tdlogsync_message sector nb_sectors buf junk =
     (if length buf < 4096 then None
      else Some ([1] @ le_bytes 8 sector @ le_bytes 4 nb_sectors @ take 4096 buf
        @ take (BUFSIZE - 4109) junk))"

record block_op =
  bo_op :: u8
  bo_sector :: u64
  bo_nb_sectors :: u32
  bo_data :: "u8 list"

definition parse_op :: "u8 list \<Rightarrow> block_op option" where
  "parse_op buf = do {
     opn \<leftarrow> rd8 buf 0;
     sector \<leftarrow> rd64 buf 1;
     nb_sectors \<leftarrow> rd32 buf 9;
     if length buf < 13 + 4096 then None
     else Some \<lparr>bo_op = opn, bo_sector = sector, bo_nb_sectors = nb_sectors,
       bo_data = take 4096 (drop 13 buf)\<rparr> }"

section \<open>Watches\<close>

text \<open>What the monitor asks of the operating system: the contents of an image file that can be
  opened, which FIFOs can be opened, and whether threads can be created and cancelled.\<close>

record xadisk_env =
  image_file :: "string \<Rightarrow> u8 list option"
  fifo_opens :: "string \<Rightarrow> bool"
  tapfifo_opens :: "string \<Rightarrow> bool"
  thread_starts :: bool
  thread_cancels :: bool

text \<open>\<open>xadisk_t\<close>: for a descriptor, whether it is open, and for \<open>image_fd\<close> what can
  be read there; for the thread, whether it runs.\<close>

record xadisk_t =
  xd_domid :: int
  xd_image_path :: string
  xd_fifo_path :: string
  xd_thread :: bool
  xd_fifo_fd :: bool
  xd_tapfifo_fd :: bool
  xd_image :: "u8 list"
  xd_sb :: xa_linux_ext2_sb
  xd_i_tables :: "u32 list"

record xadisk_obj =
  xo_path :: string
  xo_inode :: u32
  xo_blocks :: "u32 list"

text \<open>Without an image the mapping of the super block fails and is read all the same; a FIFO that
  cannot be opened is only reported.\<close>

definition xadisk_init :: "xadisk_env \<Rightarrow> int \<Rightarrow> string \<Rightarrow> hash_table \<Rightarrow> (xadisk_t \<times> hash_table) option" where
  "xadisk_init env domid image_path ht = do {
     img \<leftarrow> image_file env image_path;
     (sb, i_tables) \<leftarrow> xa_linux_ext2_init img;
     let fifo_path = ''/tmp/appfifo'' @ int_str domid;
     Some (\<lparr>xd_domid = domid, xd_image_path = image_path, xd_fifo_path = fifo_path, xd_thread = False,
       xd_fifo_fd = fifo_opens env fifo_path, xd_tapfifo_fd = False, xd_image = img,
       xd_sb = sb, xd_i_tables = i_tables\<rparr>, init_hash ht) }"

text \<open>\<open>x\<close> is freed; what is left is the table.\<close>

definition xadisk_destroy :: "xadisk_t \<Rightarrow> hash_table \<Rightarrow> hash_table" where
  "xadisk_destroy x ht = destroy_hash ht"

text \<open>\<open>lseek\<close> and \<open>read\<close> of one block; a short read leaves bytes of the buffer
  unwritten.\<close>

definition read_block :: "u8 list \<Rightarrow> u32 \<Rightarrow> u8 list option" where
  "read_block img block =
     (let r = take 4096 (drop (unat block * 4096) img) in if length r < 4096 then None else Some r)"

definition watch_node :: "u8 list \<Rightarrow> string \<Rightarrow> u32 \<Rightarrow> u32 \<Rightarrow> block_node option" where
  "watch_node img path inode block = do {
     buf \<leftarrow> read_block img block;
     t \<leftarrow> parse_block_dir buf 4096;
     Some \<lparr>bn_block = block, bn_inode = inode, bn_type = 2, bn_path = path, bn_dir = sort_dir t\<rparr> }"

fun watch_blocks ::
  "u8 list \<Rightarrow> string \<Rightarrow> u32 \<Rightarrow> u32 list \<Rightarrow> hash_table \<Rightarrow> hash_table option" where
  "watch_blocks img path inode [] ht = Some ht"
| "watch_blocks img path inode (block # blocks) ht = do {
     node \<leftarrow> watch_node img path inode block;
     watch_blocks img path inode blocks (insert_hash ht node) }"

text \<open>The watch, \<open>Some (None, ht)\<close> when the directory was not found.\<close>

definition xadisk_set_watch :: "xadisk_t \<Rightarrow> string \<Rightarrow> hash_table \<Rightarrow> (xadisk_obj option \<times> hash_table) option" where
  "xadisk_set_watch x path ht = do {
     r \<leftarrow> xa_linux_ext2_dir (xd_image x) (xd_sb x) (xd_i_tables x) path;
     (case r of
        None \<Rightarrow> Some (None, ht)
      | Some (blocks, inode) \<Rightarrow> do {
          ht' \<leftarrow> watch_blocks (xd_image x) path inode blocks ht;
          Some (Some \<lparr>xo_path = path, xo_inode = inode, xo_blocks = blocks\<rparr>, ht') }) }"

definition xadisk_unset_watch :: "xadisk_t \<Rightarrow> xadisk_obj \<Rightarrow> hash_table \<Rightarrow> hash_table" where
  "xadisk_unset_watch x obj ht = foldl remove_hash ht (xo_blocks obj)"

text \<open>Starting and stopping the thread that runs the core loop, with their results.\<close>

definition xadisk_activate :: "xadisk_env \<Rightarrow> xadisk_t \<Rightarrow> string \<Rightarrow> int \<times> xadisk_t" where
  "xadisk_activate env x tapfifo_path =
     (if \<not> tapfifo_opens env tapfifo_path then (1, x\<lparr>xd_tapfifo_fd := False\<rparr>)
      else if \<not> thread_starts env then (-1, x\<lparr>xd_tapfifo_fd := True\<rparr>)
      else (0, x\<lparr>xd_tapfifo_fd := True, xd_thread := True\<rparr>))"

definition xadisk_deactivate :: "xadisk_env \<Rightarrow> xadisk_t \<Rightarrow> int \<times> xadisk_t" where
  "xadisk_deactivate env x =
     (if \<not> thread_cancels env then (-1, x) else (0, x\<lparr>xd_thread := False, xd_tapfifo_fd := False\<rparr>))"

section \<open>The core loop\<close>

fun op_name :: "fs_op \<Rightarrow> string" where
  "op_name OP_MKDIR = ''MKDIR: ''"
| "op_name OP_RMDIR = ''RMDIR: ''"
| "op_name OP_MKFILE = ''MKFILE: ''"
| "op_name OP_RMFILE = ''RMFILE: ''"

text \<open>The line for one operation; switching on an operation code that was never written is
  undefined.\<close>

definition op_line :: "string \<Rightarrow> dir_op \<Rightarrow> string option" where
  "op_line path d = do {
     opn \<leftarrow> do_op d;
     Some (op_name opn @ path @ ''/'' @ do_path_elem d @ [CHR 0x0A]) }"

fun op_lines :: "string \<Rightarrow> dir_op list \<Rightarrow> string list option" where
  "op_lines path [] = Some []"
| "op_lines path (d # ds) = do { l \<leftarrow> op_line path d; ls \<leftarrow> op_lines path ds; Some (l # ls) }"

text \<open>\<open>b->dir = t\<close> through the pointer that \<open>check_list\<close> returned.\<close>

fun set_dir :: "block_node list \<Rightarrow> u32 \<Rightarrow> dir_entry list \<Rightarrow> block_node list" where
  "set_dir [] block t = []"
| "set_dir (q # l) block t =
     (if bn_block q < block then q # set_dir l block t
      else if bn_block q = block then q\<lparr>bn_dir := t\<rparr> # l else q # l)"

definition store_dir :: "hash_table \<Rightarrow> u32 \<Rightarrow> dir_entry list \<Rightarrow> hash_table" where
  "store_dir ht block t = (let i = hash_block block in
     ht(i := (ht i)\<lparr>he_list := set_dir (he_list (ht i)) block t\<rparr>))"

text \<open>One round of \<open>xadisk_core\<close>: the lines it writes and the table it leaves.\<close>

definition core_step :: "hash_table \<Rightarrow> u8 list \<Rightarrow> (string list \<times> hash_table) option" where
  "core_step ht buf = do {
     opn \<leftarrow> parse_op buf;
     let block = (ucast (bo_sector opn div 8) :: u32);
     (case check_hash ht block of
        None \<Rightarrow> Some ([], ht)
      | Some b \<Rightarrow> do {
          t \<leftarrow> parse_block_dir (bo_data opn) 4096;
          diff \<leftarrow> compare_dirs (bn_dir b) (sort_dir t);
          if diff \<noteq> [] then do {
            ls \<leftarrow> op_lines (bn_path b) diff;
            Some (ls, store_dir ht block (sort_dir t)) }
          else Some ([], ht) }) }"

text \<open>The loop ends when \<open>read\<close> returns 0; after an error, or a read of fewer bytes, it
  works on what the buffer held before. When the application's FIFO could not be opened
  \<open>fdopen\<close> gives NULL, and the first line is printed to that.\<close>

fun xadisk_core ::
  "xadisk_t \<Rightarrow> hash_table \<Rightarrow> u8 list \<Rightarrow> u8 list option list \<Rightarrow> (string list \<times> hash_table) option" where
  "xadisk_core x ht buf [] = Some ([], ht)"
| "xadisk_core x ht buf (r # reads) = (let buf' = (case r of Some d \<Rightarrow> d @ drop (length d) buf | None \<Rightarrow> buf) in do {
     (ls, ht1) \<leftarrow> core_step ht buf';
     if ls \<noteq> [] \<and> \<not> xd_fifo_fd x then None
     else do {
       (ls', ht2) \<leftarrow> xadisk_core x ht1 buf' reads;
       Some (ls @ ls', ht2) } })"

section \<open>The message format\<close>

lemma parse_op_message:
  assumes "length data = 4096"
  shows "parse_op ([1] @ le_bytes 8 sector @ le_bytes 4 nb @ data @ junk)
    = Some \<lparr>bo_op = 1, bo_sector = sector, bo_nb_sectors = nb, bo_data = data\<rparr>"
proof -
  let ?m = "[1] @ le_bytes 8 sector @ le_bytes 4 nb @ data @ junk"
  have "rd8 ([] @ [1] @ (le_bytes 8 sector @ le_bytes 4 nb @ data @ junk)) 0 = Some (le_word [1])"
    by (rule rd_append_exact) simp_all
  then have a: "rd8 ?m 0 = Some 1" by simp
  have "rd64 ([1] @ le_bytes 8 sector @ (le_bytes 4 nb @ data @ junk)) 1 = Some (le_word (le_bytes 8 sector))"
    by (rule rd_append_exact) simp_all
  then have b: "rd64 ?m 1 = Some sector" by simp
  have "rd32 (([1] @ le_bytes 8 sector) @ le_bytes 4 nb @ (data @ junk)) 9 = Some (le_word (le_bytes 4 nb))"
    by (rule rd_append_exact) simp_all
  then have c: "rd32 ?m 9 = Some nb" by simp
  have "drop 13 (([1] @ le_bytes 8 sector @ le_bytes 4 nb) @ data @ junk) = data @ junk" by simp
  then have d: "take 4096 (drop 13 ?m) = data" using assms by simp
  show ?thesis unfolding parse_op_def a b c bind.bind_lunit d using assms by simp
qed

text \<open>What the tap drivers marshal, the monitor reads back: for a request with a full block of
  data, \<open>parse_op\<close> of the message gives the write operation, the sector, the sector count
  and the block, whatever the unwritten tail of the message holds; the two drivers send the same.\<close>

theorem parse_op_roundtrip:
  assumes "4096 \<le> length buf"
  shows "\<exists>msg. tdlogaio_message sector nb_sectors buf junk = Some msg \<and>
    tdlogsync_message sector nb_sectors buf junk = Some msg \<and>
    parse_op msg = Some \<lparr>bo_op = 1, bo_sector = sector, bo_nb_sectors = nb_sectors, bo_data = take 4096 buf\<rparr>"
  using assms parse_op_message [of "take 4096 buf" sector nb_sectors]
  by (simp add: tdlogaio_message_def tdlogsync_message_def)

theorem parse_op_roundtrip_witness:
  "\<exists>msg. tdlogaio_message 56 8 (replicate 4096 7) [] = Some msg \<and>
    tdlogsync_message 56 8 (replicate 4096 7) [] = Some msg \<and>
    parse_op msg = Some \<lparr>bo_op = 1, bo_sector = 56, bo_nb_sectors = 8, bo_data = take 4096 (replicate 4096 7)\<rparr>"
  by (rule parse_op_roundtrip) simp

section \<open>Following a directory\<close>

lemma set_dir_props:
  assumes "sorted_wrt (\<lambda>a b. bn_block a < bn_block b) l"
  shows "map bn_block (set_dir l k t) = map bn_block l"
    "set (set_dir l k t) = (\<lambda>b. if bn_block b = k then b\<lparr>bn_dir := t\<rparr> else b) ` set l"
proof -
  show "map bn_block (set_dir l k t) = map bn_block l" by (induction l) auto
  show "set (set_dir l k t) = (\<lambda>b. if bn_block b = k then b\<lparr>bn_dir := t\<rparr> else b) ` set l"
    using assms
  proof (induction l)
    case (Cons q l)
    have "(\<lambda>b. if bn_block b = k then b\<lparr>bn_dir := t\<rparr> else b) ` set l = set l" if "\<not> bn_block q < k"
      using Cons.prems that by (intro image_cong [where g = "\<lambda>b. b", simplified]) auto
    with Cons show ?case by auto
  qed simp
qed

lemma sorted_wrt_bn_block:
  "sorted_wrt (\<lambda>a b. bn_block a < bn_block b) l \<longleftrightarrow> sorted_wrt (<) (map bn_block l)"
  by (simp add: sorted_wrt_map)

lemma hash_ok_store_dir:
  assumes "hash_ok ht"
  shows "hash_ok (store_dir ht k t)"
proof -
  let ?i = "hash_block k"
  have ok: "bucket_ok ?i (ht ?i)" using assms by (simp add: hash_ok_def)
  then have s: "sorted_wrt (\<lambda>a b. bn_block a < bn_block b) (he_list (ht ?i))" by (simp add: bucket_ok_def)
  have n: "set_dir (he_list (ht ?i)) k t = [] \<longleftrightarrow> he_list (ht ?i) = []"
    using set_dir_props(1) [OF s, of k t] by (metis map_is_Nil_conv)
  have "bucket_ok ?i (store_dir ht k t ?i)"
    using ok n set_dir_props(2) [OF s, of k t]
    by (auto simp: store_dir_def Let_def bucket_ok_def sorted_wrt_bn_block set_dir_props(1) [OF s])
  then show ?thesis using assms by (auto simp: hash_ok_def store_dir_def Let_def)
qed

lemma image_with_key:
  "(\<And>c. f (u c) = f c) \<Longrightarrow> x \<in> u ` L \<and> f x = k \<longleftrightarrow> (\<exists>c. c \<in> L \<and> f c = k \<and> x = u c)"
  by auto

lemma check_hash_store_dir:
  assumes "hash_ok ht" "check_hash ht k = Some b"
  shows "check_hash (store_dir ht k t) = (check_hash ht)(k \<mapsto> b\<lparr>bn_dir := t\<rparr>)"
proof (rule ext, rule option_eqI)
  fix j x
  let ?u = "\<lambda>c. if bn_block c = k then c\<lparr>bn_dir := t\<rparr> else c" and ?L = "\<lambda>i. set (he_list (ht i))"
  have s: "sorted_wrt (\<lambda>a b. bn_block a < bn_block b) (he_list (ht (hash_block k)))"
    using assms(1) by (simp add: hash_ok_def bucket_ok_def)
  have m: "set (he_list (store_dir ht k t i)) = (if i = hash_block k then ?u ` ?L i else ?L i)" for i
    by (simp add: store_dir_def Let_def set_dir_props(2) [OF s])
  have k: "c \<in> ?L (hash_block k) \<and> bn_block c = k \<longleftrightarrow> c = b" for c
    unfolding check_hash_iff [OF assms(1), symmetric] assms(2) by (simp add: eq_commute)
  have blk: "bn_block (?u c) = bn_block c" for c by simp
  have "x \<in> set (he_list (store_dir ht k t (hash_block j))) \<and> bn_block x = j \<longleftrightarrow>
    (if j = k then x = b\<lparr>bn_dir := t\<rparr> else x \<in> ?L (hash_block j) \<and> bn_block x = j)"
  proof (cases "j = k")
    case True
    have "x \<in> ?u ` ?L (hash_block k) \<and> bn_block x = k \<longleftrightarrow> (\<exists>c. c \<in> ?L (hash_block k) \<and> bn_block c = k \<and> x = ?u c)"
      by (rule image_with_key) (rule blk)
    also have "\<dots> \<longleftrightarrow> (\<exists>c. c = b \<and> x = ?u c)" unfolding conj_assoc [symmetric] k ..
    also have "\<dots> \<longleftrightarrow> x = ?u b" by simp
    also have "?u b = b\<lparr>bn_dir := t\<rparr>" using k [of b] by simp
    finally show ?thesis using True m by simp
  next
    case False
    have "x \<in> ?u ` ?L (hash_block j) \<and> bn_block x = j \<longleftrightarrow> (\<exists>c. c \<in> ?L (hash_block j) \<and> bn_block c = j \<and> x = ?u c)"
      by (rule image_with_key) (rule blk)
    also have "\<dots> \<longleftrightarrow> (\<exists>c. c \<in> ?L (hash_block j) \<and> bn_block c = j \<and> x = c)"
      using False by (intro ex_cong1) auto
    finally show ?thesis using False m by auto
  qed
  then show "check_hash (store_dir ht k t) j = Some x \<longleftrightarrow> ((check_hash ht)(k \<mapsto> b\<lparr>bn_dir := t\<rparr>)) j = Some x"
    unfolding check_hash_iff [OF hash_ok_store_dir [OF assms(1)]] fun_upd_apply
    unfolding check_hash_iff [OF assms(1), of j x, symmetric] by (simp add: eq_commute)
qed

text \<open>Every entry is a file or a directory.\<close>

definition plain_types :: "dir_entry list \<Rightarrow> bool" where
  "plain_types t \<longleftrightarrow> (\<forall>e\<in>set t. de_type e = 1 \<or> de_type e = 2)"

lemma diff_has_op:
  assumes "plain_types old" "plain_types new" "mset ops = mset (removed old new) + mset (created old new)"
  shows "\<forall>d\<in>set ops. do_op d \<noteq> None"
proof -
  have "set ops = set (removed old new) \<union> set (created old new)"
    using assms(3) by (metis set_mset_mset set_mset_union)
  then show ?thesis using assms(1,2)
    by (auto simp: removed_def created_def plain_types_def rm_op_def mk_op_def)
qed

end
