(* ===== verification/Xadisk_Monitor.thy ===== *)
theory Xadisk_Monitor
  imports Xadisk_Core
begin

text \<open>
  The monitor as a machine over watched directories. The abstract state maps a block number to the
  path that is watched and the listing last reported; a write of a block reports the difference to
  that listing. The lemmas show that \<open>xadisk_set_watch\<close>, \<open>xadisk_unset_watch\<close>
  and any run of \<open>xadisk_core\<close> on the hash table implement this machine.
\<close>

section \<open>The abstract monitor\<close>

type_synonym watches = "u32 \<rightharpoonup> string \<times> dir_entry list"

text \<open>The lines for one difference, in any order.\<close>

definition report :: "string \<Rightarrow> dir_entry list \<Rightarrow> dir_entry list \<Rightarrow> string multiset" where
  "report path old new = image_mset (\<lambda>d. the (op_line path d)) (mset (removed old new) + mset (created old new))"

definition mon_step :: "watches \<Rightarrow> u32 \<times> dir_entry list \<Rightarrow> string multiset \<times> watches" where
  "mon_step A w = (case A (fst w) of
       None \<Rightarrow> ({#}, A)
     | Some (path, old) \<Rightarrow> (report path old (snd w),
         A(fst w \<mapsto> (path, if names old = names (snd w) then old else snd w))))"

fun mon_run :: "watches \<Rightarrow> (u32 \<times> dir_entry list) list \<Rightarrow> string multiset list \<times> watches" where
  "mon_run A [] = ([], A)"
| "mon_run A (w # ws) = (let (r, A1) = mon_step A w; (rs, A2) = mon_run A1 ws in (r # rs, A2))"

text \<open>Listings the code has room for: files and directories with distinct names of at most 255
  characters, few enough that any two differ in at most \<open>OPMAX\<close> entries.\<close>

definition good_listing :: "dir_entry list \<Rightarrow> bool" where
  "good_listing t \<longleftrightarrow> distinct (map de_path_elem t) \<and> short_names t \<and> plain_types t \<and> length t \<le> 128"

text \<open>The table stands for the abstract state.\<close>

fun watch_ok :: "block_node option \<Rightarrow> (string \<times> dir_entry list) option \<Rightarrow> bool" where
  "watch_ok n None \<longleftrightarrow> n = None"
| "watch_ok n (Some (path, old)) \<longleftrightarrow>
     (\<exists>b. n = Some b \<and> bn_path b = path \<and> bn_dir b = sort_dir old \<and> good_listing old)"

definition stands_for :: "hash_table \<Rightarrow> watches \<Rightarrow> bool" where
  "stands_for ht A \<longleftrightarrow> hash_ok ht \<and> (\<forall>k. watch_ok (check_hash ht k) (A k))"

lemma stands_forD: "stands_for ht A \<Longrightarrow> hash_ok ht" "stands_for ht A \<Longrightarrow> watch_ok (check_hash ht k) (A k)"
  by (simp_all add: stands_for_def)

lemma stands_for_upd:
  assumes "stands_for ht A" "hash_ok ht'" "check_hash ht' = (check_hash ht)(k \<mapsto> b)"
    and "bn_path b = path" "bn_dir b = sort_dir l" "good_listing l"
  shows "stands_for ht' (A(k \<mapsto> (path, l)))"
  using assms by (simp add: stands_for_def)

section \<open>One write\<close>

lemma diff_Nil_iff: "removed old new = [] \<and> created old new = [] \<longleftrightarrow> names old = names new"
  by (auto simp: removed_def created_def names_def filter_empty_conv)

lemma op_lines_mset:
  "\<forall>d\<in>set ds. do_op d \<noteq> None \<Longrightarrow> \<exists>ls. op_lines path ds = Some ls \<and> mset ls = image_mset (\<lambda>d. the (op_line path d)) (mset ds)"
  by (induction ds) (auto simp: op_line_def)

lemma compare_reports:
  assumes "good_listing old" "good_listing new"
  obtains ops ls where "compare_dirs (sort_dir old) (sort_dir new) = Some ops" "op_lines path ops = Some ls"
    "mset ls = report path old new" "ops = [] \<longleftrightarrow> names old = names new"
proof -
  obtain ops where ops: "compare_dirs (sort_dir old) (sort_dir new) = Some ops"
    "mset ops = mset (removed old new) + mset (created old new)"
    using compare_sorted_dirs [of old new] assms by (auto simp: good_listing_def)
  moreover obtain ls where "op_lines path ops = Some ls" "mset ls = report path old new"
    using op_lines_mset [OF diff_has_op [OF _ _ ops(2)], of path] assms ops(2)
    by (auto simp: good_listing_def report_def)
  moreover have "ops = [] \<longleftrightarrow> names old = names new"
    using ops(2) diff_Nil_iff [of old new] by (metis mset_zero_iff union_eq_empty)
  ultimately show ?thesis using that by blast
qed

lemma core_step_sim:
  assumes R: "stands_for ht A" and msg: "parse_op msg = Some opn"
    and new: "A (ucast (bo_sector opn div 8)) \<noteq> None \<Longrightarrow> parse_block_dir (bo_data opn) 4096 = Some new \<and> good_listing new"
  shows "\<exists>ls ht'. core_step ht msg = Some (ls, ht') \<and>
    mset ls = fst (mon_step A (ucast (bo_sector opn div 8), new)) \<and>
    stands_for ht' (snd (mon_step A (ucast (bo_sector opn div 8), new)))"
proof (cases "A (ucast (bo_sector opn div 8))")
  case None
  then have "check_hash ht (ucast (bo_sector opn div 8)) = None"
    using stands_forD(2) [OF R, of "ucast (bo_sector opn div 8)"] by simp
  then show ?thesis using None R msg by (simp add: core_step_def mon_step_def)
next
  case (Some po)
  let ?k = "ucast (bo_sector opn div 8) :: u32"
  obtain path old where A: "A ?k = Some (path, old)" using Some by (cases po) auto
  obtain b where b: "check_hash ht ?k = Some b" "bn_path b = path" "bn_dir b = sort_dir old" "good_listing old"
    using stands_forD(2) [OF R, of ?k] by (auto simp: A)
  have n: "parse_block_dir (bo_data opn) 4096 = Some new" "good_listing new" using new A by simp_all
  have ok: "hash_ok ht" using R by (simp add: stands_for_def)
  obtain ops ls where d: "compare_dirs (sort_dir old) (sort_dir new) = Some ops" "op_lines path ops = Some ls"
    "mset ls = report path old new" "ops = [] \<longleftrightarrow> names old = names new"
    using compare_reports [OF b(4) n(2), of path] by blast
  show ?thesis
  proof (cases "ops = []")
    case True
    then have "core_step ht msg = Some ([], ht)" "ls = []" using b n msg d(1,2) by (simp_all add: core_step_def)
    moreover have "A(?k \<mapsto> (path, old)) = A" using A by (simp add: fun_upd_idem)
    ultimately show ?thesis using True R A d(3,4) by (simp add: mon_step_def)
  next
    case False
    let ?ht = "store_dir ht ?k (sort_dir new)"
    have "core_step ht msg = Some (ls, ?ht)" using False b n msg d(1,2) by (simp add: core_step_def)
    moreover have "stands_for ?ht (A(?k \<mapsto> (path, new)))"
      by (rule stands_for_upd [OF R hash_ok_store_dir [OF ok] check_hash_store_dir [OF ok b(1)]]) (simp_all add: b n)
    ultimately show ?thesis using False A d(3,4) by (simp add: mon_step_def)
  qed
qed

section \<open>Runs\<close>

text \<open>A write request as the driver sees it, and the block with the listing that it carries.\<close>

record disk_write =
  dw_sector :: u64
  dw_nb_sectors :: u32
  dw_data :: "u8 list"
  dw_junk :: "u8 list"

definition dw_message :: "disk_write \<Rightarrow> u8 list option" where
  "dw_message w = tdlogaio_message (dw_sector w) (dw_nb_sectors w) (dw_data w) (dw_junk w)"

definition dw_block :: "disk_write \<Rightarrow> u32" where
  "dw_block w = ucast (dw_sector w div 8)"

definition dw_listing :: "disk_write \<Rightarrow> dir_entry list" where
  "dw_listing w = (case parse_block_dir (dw_data w) 4096 of None \<Rightarrow> [] | Some t \<Rightarrow> t)"

definition write_ok :: "watches \<Rightarrow> disk_write \<Rightarrow> bool" where
  "write_ok A w \<longleftrightarrow> length (dw_data w) = 4096 \<and>
     (A (dw_block w) \<noteq> None \<longrightarrow> parse_block_dir (dw_data w) 4096 = Some (dw_listing w) \<and> good_listing (dw_listing w))"

lemma dom_mon_step: "dom (snd (mon_step A w)) = dom A"
  by (auto simp: mon_step_def split: option.splits)

lemma write_ok_dom: "dom A' = dom A \<Longrightarrow> write_ok A' w = write_ok A w"
  unfolding write_ok_def by (metis domIff)

lemma dw_message_parse:
  assumes "length (dw_data w) = 4096"
  shows "\<exists>msg. dw_message w = Some msg \<and> parse_op (msg @ rest) =
    Some \<lparr>bo_op = 1, bo_sector = dw_sector w, bo_nb_sectors = dw_nb_sectors w, bo_data = dw_data w\<rparr>"
  using assms parse_op_message [of "dw_data w" "dw_sector w" "dw_nb_sectors w" "take (BUFSIZE - 4109) (dw_junk w) @ rest"]
  by (simp add: dw_message_def tdlogaio_message_def)

lemma xadisk_core_run:
  assumes "stands_for ht A" "\<forall>w\<in>set ws. write_ok A w" and f: "xd_fifo_fd x"
  shows "\<exists>lss ht'. xadisk_core x ht buf (map dw_message ws) = Some (concat lss, ht') \<and>
    map mset lss = fst (mon_run A (map (\<lambda>w. (dw_block w, dw_listing w)) ws)) \<and>
    stands_for ht' (snd (mon_run A (map (\<lambda>w. (dw_block w, dw_listing w)) ws)))"
  using assms(1,2)
proof (induction ws arbitrary: ht A buf)
  case Nil
  then show ?case by (intro exI [of _ "[]"]) auto
next
  case (Cons w ws)
  have w: "length (dw_data w) = 4096"
    "A (dw_block w) \<noteq> None \<Longrightarrow> parse_block_dir (dw_data w) 4096 = Some (dw_listing w) \<and> good_listing (dw_listing w)"
    using Cons.prems(2) by (auto simp: write_ok_def)
  obtain msg where m: "dw_message w = Some msg"
    "parse_op (msg @ drop (length msg) buf) = Some \<lparr>bo_op = 1, bo_sector = dw_sector w, bo_nb_sectors = dw_nb_sectors w, bo_data = dw_data w\<rparr>"
    using dw_message_parse [OF w(1)] by (metis option.inject)
  obtain ls ht1 where s: "core_step ht (msg @ drop (length msg) buf) = Some (ls, ht1)"
    "mset ls = fst (mon_step A (dw_block w, dw_listing w))" "stands_for ht1 (snd (mon_step A (dw_block w, dw_listing w)))"
    using core_step_sim [OF Cons.prems(1) m(2), of "dw_listing w"] w(2) by (auto simp: dw_block_def)
  let ?A = "snd (mon_step A (dw_block w, dw_listing w))"
  have "\<forall>v\<in>set ws. write_ok ?A v"
    using Cons.prems(2) write_ok_dom [OF dom_mon_step] by simp
  from Cons.IH [OF s(3) this] obtain lss ht2 where
    r: "xadisk_core x ht1 (msg @ drop (length msg) buf) (map dw_message ws) = Some (concat lss, ht2)"
      "map mset lss = fst (mon_run ?A (map (\<lambda>w. (dw_block w, dw_listing w)) ws))"
      "stands_for ht2 (snd (mon_run ?A (map (\<lambda>w. (dw_block w, dw_listing w)) ws)))"
    by blast
  show ?case
    by (rule exI [of _ "ls # lss"], rule exI [of _ ht2]) (use m s r f in \<open>simp add: case_prod_beta\<close>)
qed

section \<open>Watching and unwatching\<close>

definition block_listing :: "u8 list \<Rightarrow> u32 \<Rightarrow> dir_entry list option" where
  "block_listing img k = read_block img k \<bind> (\<lambda>buf. parse_block_dir buf 4096)"

definition watch_all :: "u8 list \<Rightarrow> string \<Rightarrow> u32 list \<Rightarrow> watches \<Rightarrow> watches" where
  "watch_all img path ks A = (\<lambda>k. if k \<in> set ks then Some (path, the (block_listing img k)) else A k)"

lemma watch_node_listing:
  "block_listing img k = Some t \<Longrightarrow>
    watch_node img path inode k = Some \<lparr>bn_block = k, bn_inode = inode, bn_type = 2, bn_path = path, bn_dir = sort_dir t\<rparr>"
  by (auto simp: block_listing_def watch_node_def split: Option.bind_split_asm)

lemma watch_blocks_stands:
  assumes "stands_for ht A" "distinct ks" "\<forall>k\<in>set ks. A k = None \<and> (\<exists>t. block_listing img k = Some t \<and> good_listing t)"
  shows "\<exists>ht'. watch_blocks img path inode ks ht = Some ht' \<and> stands_for ht' (watch_all img path ks A)"
  using assms
proof (induction ks arbitrary: ht A)
  case Nil
  then show ?case by (simp add: watch_all_def)
next
  case (Cons k ks)
  obtain t where t: "block_listing img k = Some t" "good_listing t" using Cons.prems(3) by auto
  let ?b = "\<lparr>bn_block = k, bn_inode = inode, bn_type = 2, bn_path = path, bn_dir = sort_dir t\<rparr>"
  have free: "check_hash ht (bn_block ?b) = None" using stands_forD(2) [OF Cons.prems(1), of k] Cons.prems(3) by simp
  note ok = stands_forD(1) [OF Cons.prems(1)]
  have st: "stands_for (insert_hash ht ?b) (A(k \<mapsto> (path, t)))"
    by (rule stands_for_upd [OF Cons.prems(1) watched.invar_insert [OF ok free] watched.lookup_insert [OF ok free], simplified])
      (simp_all add: t)
  have fr: "\<forall>j\<in>set ks. (A(k \<mapsto> (path, t))) j = None \<and> (\<exists>t. block_listing img j = Some t \<and> good_listing t)"
    using Cons.prems(2,3) by auto
  have "distinct ks" using Cons.prems(2) by simp
  from Cons.IH [OF st this fr] obtain ht' where "watch_blocks img path inode ks (insert_hash ht ?b) = Some ht'"
    "stands_for ht' (watch_all img path ks (A(k \<mapsto> (path, t))))"
    by blast
  moreover have "watch_all img path ks (A(k \<mapsto> (path, t))) = watch_all img path (k # ks) A"
    using t by (auto simp: watch_all_def fun_eq_iff)
  ultimately show ?case using t by (simp add: watch_node_listing)
qed

lemma unset_watch_stands:
  assumes "stands_for ht A"
  shows "stands_for (xadisk_unset_watch x obj ht) (A |` (- set (xo_blocks obj)))"
  using watched.remove_all [OF stands_forD(1) [OF assms], of "xo_blocks obj"] stands_forD(2) [OF assms]
  by (simp add: stands_for_def xadisk_unset_watch_def restrict_map_def)

lemma stands_for_init: "stands_for (init_hash ht) Map.empty"
  using watched.invar_empty watched.lookup_empty by (simp add: stands_for_def)

text \<open>A watch, a run and the end of the watch, for \<open>xadisk_session_refines\<close> and for the
  demonstration program.\<close>

lemma session_refines:
  assumes "stands_for ht A" "xa_linux_ext2_dir (xd_image x) (xd_sb x) (xd_i_tables x) path = Some (Some (blocks, inode))"
    and "distinct blocks"
    and "\<forall>k\<in>set blocks. A k = None \<and> (\<exists>t. block_listing (xd_image x) k = Some t \<and> good_listing t)"
    and "\<forall>w\<in>set ws. write_ok (watch_all (xd_image x) path blocks A) w" "xd_fifo_fd x"
  shows "\<exists>obj ht1 lss ht2. xadisk_set_watch x path ht = Some (Some obj, ht1) \<and> xo_blocks obj = blocks \<and>
    xadisk_core x ht1 buf (map dw_message ws) = Some (concat lss, ht2) \<and>
    map mset lss = fst (mon_run (watch_all (xd_image x) path blocks A) (map (\<lambda>w. (dw_block w, dw_listing w)) ws)) \<and>
    stands_for (xadisk_unset_watch x obj ht2)
      (snd (mon_run (watch_all (xd_image x) path blocks A) (map (\<lambda>w. (dw_block w, dw_listing w)) ws)) |` (- set blocks))"
proof -
  let ?obj = "\<lparr>xo_path = path, xo_inode = inode, xo_blocks = blocks\<rparr>"
  obtain ht1 where w: "watch_blocks (xd_image x) path inode blocks ht = Some ht1" "stands_for ht1 (watch_all (xd_image x) path blocks A)"
    using watch_blocks_stands [OF assms(1,3,4)] by blast
  have s: "xadisk_set_watch x path ht = Some (Some ?obj, ht1)"
    using assms(2) w(1) by (simp add: xadisk_set_watch_def)
  obtain lss ht2 where r: "xadisk_core x ht1 buf (map dw_message ws) = Some (concat lss, ht2)"
    "map mset lss = fst (mon_run (watch_all (xd_image x) path blocks A) (map (\<lambda>w. (dw_block w, dw_listing w)) ws))"
    "stands_for ht2 (snd (mon_run (watch_all (xd_image x) path blocks A) (map (\<lambda>w. (dw_block w, dw_listing w)) ws)))"
    using xadisk_core_run [OF w(2) assms(5,6)] by blast
  have u: "stands_for (xadisk_unset_watch x ?obj ht2)
      (snd (mon_run (watch_all (xd_image x) path blocks A) (map (\<lambda>w. (dw_block w, dw_listing w)) ws)) |` (- set blocks))"
    using unset_watch_stands [OF r(3), of x ?obj] by simp
  show ?thesis by (rule exI [of _ ?obj], rule exI [of _ ht1], rule exI [of _ lss], rule exI [of _ ht2]) (use s r u in simp)
qed

section \<open>The demonstration program\<close>

text \<open>\<open>monitor.c\<close>: \<open>dup2\<close> makes standard output the application's FIFO, so the
  lines are printed. Joining a thread that was not started and unsetting a watch that was not set are
  undefined.\<close>

definition monitor_main ::
  "xadisk_env \<Rightarrow> u8 list \<Rightarrow> u8 list option list \<Rightarrow> string \<Rightarrow> hash_table \<Rightarrow> (string \<times> hash_table) option" where
  "monitor_main env buf reads arg1 ht = do {
     (x, ht1) \<leftarrow> xadisk_init env 1 ''/opt/xen_images/fedora-pv/fedora.img'' ht;
     (obj, ht2) \<leftarrow> xadisk_set_watch x arg1 ht1;
     let (r, x1) = xadisk_activate env x ''/dev/xen/tapfifo0'';
     if xd_thread x1 then do {
       (ls, ht3) \<leftarrow> xadisk_core x1 ht2 buf reads;
       obj1 \<leftarrow> obj;
       Some (concat ls, xadisk_destroy x1 (xadisk_unset_watch x1 obj1 ht3)) }
     else None }"

text \<open>Of \<open>x\<close> the core loop uses only the FIFO.\<close>

lemma xadisk_core_fifo: "xd_fifo_fd x = xd_fifo_fd y \<Longrightarrow> xadisk_core x = xadisk_core y"
proof (intro ext)
  fix ht buf reads
  assume "xd_fifo_fd x = xd_fifo_fd y"
  then show "xadisk_core x ht buf reads = xadisk_core y ht buf reads"
    by (induction reads arbitrary: ht buf) (simp_all add: Let_def case_prod_beta cong: if_cong)
qed

lemma int_str_one: "int_str 1 = ''1''"
  by code_simp

text \<open>The program prints, write by write, the lines of the differences, and leaves the table
  empty.\<close>

lemma monitor_main_reports:
  assumes "xadisk_init env 1 ''/opt/xen_images/fedora-pv/fedora.img'' ht = Some (x, ht1)"
    and "fifo_opens env ''/tmp/appfifo1''" "tapfifo_opens env ''/dev/xen/tapfifo0''" "thread_starts env"
    and "xa_linux_ext2_dir (xd_image x) (xd_sb x) (xd_i_tables x) path = Some (Some (blocks, inode))" "distinct blocks"
    and "\<forall>k\<in>set blocks. \<exists>t. block_listing (xd_image x) k = Some t \<and> good_listing t"
    and "\<forall>w\<in>set ws. write_ok (watch_all (xd_image x) path blocks Map.empty) w"
  shows "\<exists>lss ht'. monitor_main env buf (map dw_message ws) path ht = Some (concat (concat lss), ht') \<and>
    map mset lss = fst (mon_run (watch_all (xd_image x) path blocks Map.empty) (map (\<lambda>w. (dw_block w, dw_listing w)) ws)) \<and>
    (\<forall>i < HASH_SIZE. he_list (ht' i) = [])"
proof -
  have i: "stands_for ht1 Map.empty" "xd_fifo_fd x" using assms(1,2) stands_for_init
    by (auto simp: xadisk_init_def Let_def int_str_one split: Option.bind_split_asm)
  from session_refines [OF i(1) assms(5,6), of ws buf] assms(7,8) i(2) obtain obj ht2 lss ht3 where
    "xadisk_set_watch x path ht1 = Some (Some obj, ht2)" "xadisk_core x ht2 buf (map dw_message ws) = Some (concat lss, ht3)"
    "map mset lss = fst (mon_run (watch_all (xd_image x) path blocks Map.empty) (map (\<lambda>w. (dw_block w, dw_listing w)) ws))"
    by auto
  moreover have "xadisk_core (x\<lparr>xd_tapfifo_fd := True, xd_thread := True\<rparr>) = xadisk_core x" by (rule xadisk_core_fifo) simp
  ultimately show ?thesis using assms(1,3,4)
    by (auto simp: monitor_main_def xadisk_activate_def xadisk_destroy_def destroy_hash_def destroy_list_Nil)
qed

section \<open>Properties\<close>


text \<open>An image of four blocks, the super block, the group descriptor, the inode table and the root
  directory, whose only block, block 3, has the entries of \<open>laid_out\<close>; the guest then deletes
  the file \<open>a\<close>.\<close>

definition super_block :: "u8 list" where
  "super_block = replicate 1028 0 @ le_bytes 4 (4 :: u32) @ replicate 20 0 @ le_bytes 4 (2 :: u32) @ replicate 4 0
     @ le_bytes 4 (8 :: u32) @ le_bytes 4 (16 :: u32) @ replicate 44 0 @ le_bytes 2 (128 :: u16) @ replicate 2982 0"

definition group_block :: "u8 list" where
  "group_block = replicate 8 0 @ le_bytes 4 (2 :: u32) @ replicate 4084 0"

definition inode_block :: "u8 list" where
  "inode_block = replicate 156 0 @ le_bytes 4 (8 :: u32) @ replicate 8 0 @ le_bytes 4 (3 :: u32) @ replicate 3924 0"

definition root_img :: "u8 list" where
  "root_img = super_block @ group_block @ inode_block @ concat (map enc_entry laid_out)"

definition root_sb :: xa_linux_ext2_sb where
  "root_sb = \<lparr>sb_blocks_total = 4, sb_block_size = 4096, sb_blocks_per_group = 8, sb_inodes_per_group = 16, sb_inode_size = 128\<rparr>"

definition delete_a :: disk_write where
  "delete_a = \<lparr>dw_sector = 24, dw_nb_sectors = 8,
     dw_data = concat (map enc_entry [(4096, \<lparr>de_inode = 2, de_type = 2, de_path_elem = ''etc''\<rparr>)]), dw_junk = []\<rparr>"

lemma laid_out_length: "length (concat (map enc_entry laid_out)) = 4096"
  by (simp add: laid_out_def enc_entry_def)

lemma root_img_lengths [simp]:
  "length super_block = 4096" "length group_block = 4096" "length inode_block = 4096" "length root_img = 16384"
  using laid_out_length by (simp_all add: root_img_def super_block_def group_block_def inode_block_def)

lemma super_block_reads:
  "rd32 super_block 1028 = Some 4" "rd32 super_block 1052 = Some 2" "rd32 super_block 1060 = Some 8"
  "rd32 super_block 1064 = Some 16" "rd16 super_block 1112 = Some 128"
  by (simp_all add: rd_def super_block_def)

lemma root_init: "xa_linux_ext2_init root_img = Some (root_sb, [2])"
proof -
  have "mmap_region root_img 0 4096 = super_block" "mmap_region root_img 4096 32 = group_block"
    using mmap_region_block [of 0 1 root_img] by (simp_all add: mmap_region_def root_img_def)
  moreover have "rd32 group_block 8 = Some 2" by (simp add: rd_def group_block_def)
  ultimately show ?thesis
    by (simp add: xa_linux_ext2_init_def xa_linux_ext2_read_sb_def xa_linux_ext2_read_groupdesc_def super_block_reads root_sb_def
        push_bit_eq_mult)
qed

definition root_disk :: xadisk_t where
  "root_disk = \<lparr>xd_domid = 1, xd_image_path = ''root.img'', xd_fifo_path = ''/tmp/appfifo1'', xd_thread = False,
     xd_fifo_fd = True, xd_tapfifo_fd = False, xd_image = root_img, xd_sb = root_sb, xd_i_tables = [2]\<rparr>"

lemma root_inode: "inode_blocks root_img root_sb [2] 2 = Some [3]"
proof -
  have m: "mmap_region root_img 0 32768 = root_img" by (simp add: mmap_region_def)
  have "rd32 root_img 8348 = Some 8" "rd32 root_img 8360 = Some 3"
    by (simp_all add: rd_def root_img_def inode_block_def)
  then show ?thesis
    by (simp add: inode_blocks_def root_sb_def xa_linux_ext2_dir_getgroup_def xa_linux_ext2_findinode_def
        xa_linux_ext2_datablocks_def m)
qed

lemma root_blocks: "xa_linux_ext2_dir root_img root_sb [2] ''/'' = Some (Some ([3], 2))"
  using root_inode by (simp add: xa_linux_ext2_dir_def ext2_dir_loop.simps)

lemma root_listing: "block_listing root_img 3 = Some (map snd laid_out)"
proof -
  have "read_block root_img 3 = Some (concat (map enc_entry laid_out))"
    using laid_out_length by (simp add: read_block_def root_img_def)
  moreover have "parse_block_dir (concat (map enc_entry laid_out)) 4096 = Some (map snd laid_out)"
    using parse_block_enc [of laid_out] laid_out_length by (simp add: laid_out_def fits_def)
  ultimately show ?thesis by (simp add: block_listing_def)
qed

lemma delete_a_listing:
  "parse_block_dir (dw_data delete_a) 4096 = Some [\<lparr>de_inode = 2, de_type = 2, de_path_elem = ''etc''\<rparr>]"
  "length (dw_data delete_a) = 4096" "dw_block delete_a = 3"
  using parse_block_enc [of "[(4096, \<lparr>de_inode = 2, de_type = 2, de_path_elem = ''etc''\<rparr>)]"]
  by (simp_all add: delete_a_def fits_def enc_entry_def dw_block_def)

lemma root_watch:
  "good_listing (map snd laid_out)" "write_ok (watch_all root_img ''/'' [3] Map.empty) delete_a"
  "fst (mon_run (watch_all root_img ''/'' [3] Map.empty) [(dw_block delete_a, dw_listing delete_a)]) = [{#''RMFILE: //a'' @ [CHR 0x0A]#}]"
proof -
  show "good_listing (map snd laid_out)"
    by (simp add: good_listing_def laid_out_def short_names_def plain_types_def)
  have "good_listing (dw_listing delete_a)"
    by (simp add: good_listing_def short_names_def plain_types_def dw_listing_def delete_a_listing)
  then show "write_ok (watch_all root_img ''/'' [3] Map.empty) delete_a"
    by (simp add: write_ok_def delete_a_listing dw_listing_def)
  show "fst (mon_run (watch_all root_img ''/'' [3] Map.empty) [(dw_block delete_a, dw_listing delete_a)]) = [{#''RMFILE: //a'' @ [CHR 0x0A]#}]"
    by (simp add: mon_step_def watch_all_def delete_a_listing dw_listing_def root_listing report_def laid_out_def
        removed_def created_def names_def op_line_def rm_op_def)
qed


end
