(* ===== verification/Xadisk_Path.thy ===== *)
theory Xadisk_Path
  imports Xadisk_Monitor
begin

text \<open>
  Resolving a path in the ext2 image, and the listing of a directory block that
  \<open>xa_linux_ext2_listdirs\<close> prints. The abstract file system is a map from inode numbers to
  the data blocks of the directory with the entries laid out there; \<open>xa_linux_ext2_dir\<close> on
  an image that holds such a file system follows the components of the path through it.
\<close>

section \<open>Listing a block\<close>

text \<open>\<open>putchar\<close> of the bytes of a name, and the loop over the entries.\<close>

definition putchars :: "u8 list \<Rightarrow> nat \<Rightarrow> string option" where
  "putchars bs n = (if length bs < n then None else Some (map (\<lambda>b. char_of (unat b)) (take n bs)))"

definition listdirs_entry :: "u8 list \<Rightarrow> nat \<Rightarrow> string option" where
  "listdirs_entry dir_block pos = do {
     len \<leftarrow> xa_linux_ext2_dir_getnamelen dir_block pos;
     name \<leftarrow> putchars (xa_linux_ext2_dir_getname dir_block pos) (unat len);
     inode \<leftarrow> xa_linux_ext2_dir_getinode dir_block pos;
     type \<leftarrow> xa_linux_ext2_dir_gettype dir_block pos;
     reclen \<leftarrow> xa_linux_ext2_dir_getreclen dir_block pos;
     Some (''Name: '' @ name @ [CHR 0x0A] @ ''Name size: '' @ nat_str (unat len) @ [CHR 0x0A] @
       ''Entry inode: '' @ int_str (sint inode) @ [CHR 0x0A] @ ''Entry type: '' @ nat_str (unat type) @ [CHR 0x0A] @
       ''Entry size: '' @ nat_str (unat reclen) @ [CHR 0x0A, CHR 0x0A]) }"

partial_function (option) listdirs_loop :: "u8 list \<Rightarrow> nat \<Rightarrow> nat \<Rightarrow> string option" where
  "listdirs_loop dir_block limit pos =
     (if pos < limit then do {
        l \<leftarrow> listdirs_entry dir_block pos;
        reclen \<leftarrow> xa_linux_ext2_dir_getreclen dir_block pos;
        ls \<leftarrow> listdirs_loop dir_block limit (pos + unat reclen);
        Some (l @ ls) }
      else Some [])"

declare listdirs_loop.simps [code]

definition xa_linux_ext2_listdirs :: "u8 list \<Rightarrow> nat \<Rightarrow> string option" where
  "xa_linux_ext2_listdirs dir_block dir_size = listdirs_loop dir_block dir_size 0"

definition entry_text :: "nat \<times> dir_entry \<Rightarrow> string" where
  "entry_text re = (case re of (r, e) \<Rightarrow>
     ''Name: '' @ de_path_elem e @ [CHR 0x0A] @ ''Name size: '' @ nat_str (length (de_path_elem e)) @ [CHR 0x0A] @
     ''Entry inode: '' @ int_str (sint (de_inode e)) @ [CHR 0x0A] @ ''Entry type: '' @ nat_str (unat (de_type e)) @ [CHR 0x0A] @
     ''Entry size: '' @ nat_str r @ [CHR 0x0A, CHR 0x0A])"

lemma putchars_name: "putchars (map char_byte s @ pad) (length s) = Some s"
  by (simp add: putchars_def comp_def char_byte_val)

lemma listdirs_entry_enc:
  assumes "fits (r, e)" "block = pre @ enc_entry (r, e) @ post"
  shows "listdirs_entry block (length pre) = Some (entry_text (r, e))"
    "xa_linux_ext2_dir_getreclen block (length pre) = Some (of_nat r)" "unat (of_nat r :: u16) = r"
proof -
  note rd = entry_reads [OF assms]
  obtain pad where n: "drop (length pre + 8) block = map char_byte (de_path_elem e) @ pad" using rd(6) by blast
  have r: "unat (of_nat r :: u16) = r" and l: "unat (of_nat (length (de_path_elem e)) :: u8) = length (de_path_elem e)"
    using assms(1) by (simp_all add: fits_def unat_of_nat)
  show "listdirs_entry block (length pre) = Some (entry_text (r, e))"
    by (simp only: listdirs_entry_def rd n r l putchars_name entry_text_def xa_linux_ext2_dir_getnamelen_def
        xa_linux_ext2_dir_getname_def xa_linux_ext2_dir_getinode_def xa_linux_ext2_dir_gettype_def
        xa_linux_ext2_dir_getreclen_def Option.bind.bind_lunit prod.case)
  show "xa_linux_ext2_dir_getreclen block (length pre) = Some (of_nat r)"
    by (simp add: rd xa_linux_ext2_dir_getreclen_def)
  show "unat (of_nat r :: u16) = r" by (rule r)
qed

text \<open>On a block laid out as ext2 does the listing ends and shows the entries one after the other.\<close>

lemma listdirs_loop_enc:
  assumes "\<forall>re\<in>set res. fits re" "block = pre @ concat (map enc_entry res)"
  shows "listdirs_loop block (length block) (length pre) = Some (concat (map entry_text res))"
  using assms
proof (induction res arbitrary: pre)
  case Nil
  then show ?case by (simp add: listdirs_loop.simps)
next
  case (Cons re res)
  obtain r e where re: "re = (r, e)" by (cases re)
  have f: "fits (r, e)" using Cons.prems(1) re by simp
  have b: "block = pre @ enc_entry (r, e) @ concat (map enc_entry res)" using Cons.prems(2) re by simp
  have pos: "length pre < length block" using f by (simp add: b length_enc_entry) (simp add: fits_def)
  have "listdirs_loop block (length block) (length (pre @ enc_entry (r, e))) = Some (concat (map entry_text res))"
    using Cons.prems by (intro Cons.IH) (simp_all add: re)
  then show ?case
    by (subst listdirs_loop.simps) (simp add: pos re length_enc_entry [OF f] listdirs_entry_enc [OF f b])
qed

lemma xa_linux_ext2_listdirs_enc:
  "\<forall>re\<in>set res. fits re \<Longrightarrow> xa_linux_ext2_listdirs (concat (map enc_entry res)) (length (concat (map enc_entry res)))
    = Some (concat (map entry_text res))"
  using listdirs_loop_enc [of res "concat (map enc_entry res)" "[]"] by (simp add: xa_linux_ext2_listdirs_def)

section \<open>The abstract file system\<close>

type_synonym dir_tree = "u32 \<Rightarrow> (u32 \<times> (nat \<times> dir_entry) list) list"

definition dir_listing :: "dir_tree \<Rightarrow> u32 \<Rightarrow> dir_entry list" where
  "dir_listing fs i = map snd (concat (map snd (fs i)))"

text \<open>Following names from an inode; a name that is not a directory's leaves the inode as it is.\<close>

fun resolve :: "dir_tree \<Rightarrow> u32 \<Rightarrow> string list \<Rightarrow> u32 option" where
  "resolve fs i [] = Some i"
| "resolve fs i (n # ns) = (case find (\<lambda>e. de_path_elem e = n) (dir_listing fs i) of
       None \<Rightarrow> None
     | Some e \<Rightarrow> resolve fs (if de_type e = 2 then de_inode e else i) ns)"

text \<open>The components of a path: the runs of characters between slashes.\<close>

function components :: "string \<Rightarrow> string list" where
  "components s = (let p = dropWhile (\<lambda>c. c = CHR ''/'') s in
     if p = [] then [] else takeWhile (\<lambda>c. c \<noteq> CHR ''/'') p # components (dropWhile (\<lambda>c. c \<noteq> CHR ''/'') p))"
  by pat_completeness auto
termination
proof (relation "measure length")
  fix s p :: string
  assume p: "p = dropWhile (\<lambda>c. c = CHR ''/'') s" "p \<noteq> []"
  then have "hd p \<noteq> CHR ''/''" using hd_dropWhile [of "\<lambda>c. c = CHR ''/''" s] by simp
  then have "length (dropWhile (\<lambda>c. c \<noteq> CHR ''/'') p) < length p"
    using p(2) length_dropWhile_le [of "\<lambda>c. c \<noteq> CHR ''/''" "tl p"] by (cases p) auto
  moreover have "length p \<le> length s" unfolding p(1) by (rule length_dropWhile_le)
  ultimately show "(dropWhile (\<lambda>c. c \<noteq> CHR ''/'') p, s) \<in> measure length" by simp
qed simp

declare components.simps [simp del]

text \<open>The image holds the directories \<open>D\<close> of the tree: their inodes name the blocks, the blocks
  lay out the entries, and the directories entered there are in \<open>D\<close> again.\<close>

definition block_holds :: "u8 list \<Rightarrow> u32 \<times> (nat \<times> dir_entry) list \<Rightarrow> bool" where
  "block_holds img b \<longleftrightarrow> take 4096 (drop (unat (fst b) * 4096) img) = concat (map enc_entry (snd b)) \<and>
     length (concat (map enc_entry (snd b))) = 4096 \<and> (\<forall>re\<in>set (snd b). fits re)"

definition holds_dirs :: "u8 list \<Rightarrow> xa_linux_ext2_sb \<Rightarrow> u32 list \<Rightarrow> u32 set \<Rightarrow> dir_tree \<Rightarrow> bool" where
  "holds_dirs img sb gd D fs \<longleftrightarrow> sb_block_size sb = 4096 \<and>
     (\<forall>i\<in>D. inode_blocks img sb gd i = Some (map fst (fs i)) \<and> (\<forall>b\<in>set (fs i). block_holds img b) \<and>
        (\<forall>e\<in>set (dir_listing fs i). de_type e = 2 \<longrightarrow> de_inode e \<in> D))"

section \<open>One component\<close>

lemma entry_pos_find:
  "case find (\<lambda>e. de_path_elem e = name) (map snd res) of
     None \<Rightarrow> entry_pos res name = None
   | Some e \<Rightarrow> \<exists>pre r post. res = pre @ (r, e) # post \<and> entry_pos res name = Some (sum_list (map fst pre))"
proof (induction res)
  case (Cons re res)
  obtain r e where re: "re = (r, e)" by (cases re)
  show ?case
  proof (cases "de_path_elem e = name")
    case True
    then show ?thesis by (auto simp: re intro!: exI [of _ "[]"])
  next
    case False
    show ?thesis
    proof (cases "find (\<lambda>e. de_path_elem e = name) (map snd res)")
      case None
      then show ?thesis using False Cons by (simp add: re)
    next
      case (Some e')
      then obtain pre r' post where "res = pre @ (r', e') # post" "entry_pos res name = Some (sum_list (map fst pre))"
        using Cons by auto
      then show ?thesis using False Some by (auto simp: re intro!: exI [of _ "(r, e) # pre"])
    qed
  qed
qed simp

lemma find_append: "find P (xs @ ys) = (case find P xs of None \<Rightarrow> find P ys | Some x \<Rightarrow> Some x)"
  by (induction xs) auto

lemma length_enc_entries: "\<forall>re\<in>set res. fits re \<Longrightarrow> length (concat (map enc_entry res)) = sum_list (map fst res)"
  by (induction res) (auto simp: length_enc_entry)

lemma block_holds_mmap:
  assumes "block_holds img b"
  shows "mmap_region img (unat (fst b) * 4096) 4096 = concat (map enc_entry (snd b))"
proof -
  have "length (take 4096 (drop (unat (fst b) * 4096) img)) = 4096" using assms by (simp add: block_holds_def)
  then show ?thesis using assms mmap_region_block [of "unat (fst b)" 1 img] by (simp add: block_holds_def mult.commute)
qed

lemma finddir_find:
  assumes "block_holds img b"
  defines "block \<equiv> mmap_region img (unat (fst b) * 4096) 4096"
  shows "case find (\<lambda>e. de_path_elem e = name) (map snd (snd b)) of
     None \<Rightarrow> xa_linux_ext2_finddir block name 4096 = Some None
   | Some e \<Rightarrow> \<exists>pos. xa_linux_ext2_finddir block name 4096 = Some (Some pos) \<and>
       xa_linux_ext2_dir_gettype block pos = Some (de_type e) \<and> xa_linux_ext2_dir_getinode block pos = Some (de_inode e)"
proof -
  have h: "block = concat (map enc_entry (snd b))" "length block = 4096" "\<forall>re\<in>set (snd b). fits re"
    using assms block_holds_mmap [OF assms(1)] by (auto simp: block_holds_def)
  have f: "xa_linux_ext2_finddir block name 4096 = Some (entry_pos (snd b) name)"
    using finddir_loop_enc [OF h(3), of block "[]" name] h(1,2) by (simp add: xa_linux_ext2_finddir_def option.map_ident)
  show ?thesis
  proof (cases "find (\<lambda>e. de_path_elem e = name) (map snd (snd b))")
    case None
    then show ?thesis using entry_pos_find [where name = name and res = "snd b"] f by simp
  next
    case (Some e)
    then obtain pre r post where r: "snd b = pre @ (r, e) # post" "entry_pos (snd b) name = Some (sum_list (map fst pre))"
      using entry_pos_find [where name = name and res = "snd b"] by auto
    have fit: "\<forall>re\<in>set pre. fits re" "fits (r, e)" using h(3) by (simp_all add: r(1))
    have "block = concat (map enc_entry pre) @ enc_entry (r, e) @ concat (map enc_entry post)" by (simp add: h(1) r(1))
    note rd = entry_reads [OF fit(2) this]
    show ?thesis using rd(1,4) f r(2) Some length_enc_entries [OF fit(1)]
      by (simp add: xa_linux_ext2_dir_gettype_def xa_linux_ext2_dir_getinode_def)
  qed
qed

lemma short_size_4096: "short_size 4096 = 4096"
  by (simp add: short_size_def)

lemma find_in_blocks_find:
  assumes "sb_block_size sb = 4096" "\<forall>b\<in>set bs. block_holds img b"
  shows "case find (\<lambda>e. de_path_elem e = name) (map snd (concat (map snd bs))) of
     None \<Rightarrow> find_in_blocks img sb name (map fst bs) = Some None
   | Some e \<Rightarrow> \<exists>block pos. find_in_blocks img sb name (map fst bs) = Some (Some (block, pos)) \<and>
       xa_linux_ext2_dir_gettype block pos = Some (de_type e) \<and> xa_linux_ext2_dir_getinode block pos = Some (de_inode e)"
  using assms(2)
proof (induction bs)
  case (Cons b bs)
  have "block_holds img b" using Cons.prems by simp
  from finddir_find [OF this, where name = name] Cons assms(1) show ?case
    by (auto simp: short_size_4096 find_append Let_def split: option.splits)
qed simp

section \<open>The walk\<close>

lemma path_elem_short:
  assumes "length (takeWhile (\<lambda>c. c \<noteq> CHR ''/'') p) \<le> MAX_PATH_LEN"
  shows "path_elem p = takeWhile (\<lambda>c. c \<noteq> CHR ''/'') p" "drop (length (path_elem p)) p = dropWhile (\<lambda>c. c \<noteq> CHR ''/'') p"
proof -
  show e: "path_elem p = takeWhile (\<lambda>c. c \<noteq> CHR ''/'') p" using assms by (simp add: path_elem_def)
  show "drop (length (path_elem p)) p = dropWhile (\<lambda>c. c \<noteq> CHR ''/'') p"
    unfolding e by (rule dropWhile_eq_drop [symmetric])
qed

text \<open>One round of the loop, when the path has a component left.\<close>

lemma ext2_dir_loop_step:
  assumes "inode_blocks img sb gd i = Some ks" "dropWhile (\<lambda>c. c = CHR ''/'') s = p" "p \<noteq> []"
    and "length (takeWhile (\<lambda>c. c \<noteq> CHR ''/'') p) \<le> MAX_PATH_LEN"
  shows "ext2_dir_loop img sb gd i s = do {
     r \<leftarrow> find_in_blocks img sb (takeWhile (\<lambda>c. c \<noteq> CHR ''/'') p) ks;
     (case r of
        None \<Rightarrow> Some None
      | Some (block, pos) \<Rightarrow> do {
          type \<leftarrow> xa_linux_ext2_dir_gettype block pos;
          inode \<leftarrow> (if type = 2 then xa_linux_ext2_dir_getinode block pos else Some i);
          ext2_dir_loop img sb gd inode (dropWhile (\<lambda>c. c \<noteq> CHR ''/'') p) }) }"
  by (subst ext2_dir_loop.simps, unfold assms(1,2) Option.bind.bind_lunit Let_def)
    (simp only: assms(3) if_False path_elem_short(2) [OF assms(4)], simp only: path_elem_short(1) [OF assms(4)])

lemma ext2_dir_loop_resolves:
  assumes "holds_dirs img sb gd D fs" "i \<in> D" "\<forall>n\<in>set (components path). length n \<le> MAX_PATH_LEN"
  shows "ext2_dir_loop img sb gd i path = Some (map_option (\<lambda>j. (map fst (fs j), j)) (resolve fs i (components path)))"
  using assms(2,3)
proof (induction path arbitrary: i rule: components.induct)
  case (1 s)
  define p where "p = dropWhile (\<lambda>c. c = CHR ''/'') s"
  define n q where "n = takeWhile (\<lambda>c. c \<noteq> CHR ''/'') p" and "q = dropWhile (\<lambda>c. c \<noteq> CHR ''/'') p"
  have blk: "inode_blocks img sb gd i = Some (map fst (fs i))" "\<forall>b\<in>set (fs i). block_holds img b" "sb_block_size sb = 4096"
    using assms(1) "1.prems"(1) by (auto simp: holds_dirs_def)
  show ?case
  proof (cases "p = []")
    case True
    then show ?thesis using blk(1) by (simp add: ext2_dir_loop.simps components.simps p_def)
  next
    case False
    then have c: "components s = n # components q" by (subst components.simps) (simp add: Let_def p_def n_def q_def)
    note step = ext2_dir_loop_step [OF blk(1) p_def [symmetric] False, folded n_def q_def]
    have len: "length n \<le> MAX_PATH_LEN" using "1.prems"(2) c by simp
    note fb = find_in_blocks_find [OF blk(3,2), where name = n, folded dir_listing_def]
    show ?thesis
    proof (cases "find (\<lambda>e. de_path_elem e = n) (dir_listing fs i)")
      case None
      then show ?thesis using fb by (simp add: step [OF len] c)
    next
      case (Some e)
      have "e \<in> set (dir_listing fs i)" using Some by (auto simp: find_Some_iff)
      then have "(if de_type e = 2 then de_inode e else i) \<in> D" using assms(1) "1.prems"(1) by (auto simp: holds_dirs_def)
      note IH = "1.IH" [OF p_def False this, folded q_def]
      obtain block pos where "find_in_blocks img sb n (map fst (fs i)) = Some (Some (block, pos))"
        "xa_linux_ext2_dir_gettype block pos = Some (de_type e)" "xa_linux_ext2_dir_getinode block pos = Some (de_inode e)"
        using fb Some by auto
      then show ?thesis using IH "1.prems"(2) Some
        by (cases "de_type e = 2") (simp_all add: step [OF len] c)
    qed
  qed
qed

lemma resolve_in:
  "holds_dirs img sb gd D fs \<Longrightarrow> i \<in> D \<Longrightarrow> resolve fs i ns = Some j \<Longrightarrow> j \<in> D"
proof (induction ns arbitrary: i)
  case (Cons n ns)
  obtain e where e: "find (\<lambda>e. de_path_elem e = n) (dir_listing fs i) = Some e" "resolve fs (if de_type e = 2 then de_inode e else i) ns = Some j"
    using Cons.prems(3) by (auto split: option.split_asm)
  then have "e \<in> set (dir_listing fs i)" by (auto simp: find_Some_iff)
  then have "(if de_type e = 2 then de_inode e else i) \<in> D" using Cons.prems(1,2) by (auto simp: holds_dirs_def)
  then show ?case using Cons.IH Cons.prems(1) e(2) by blast
qed simp

section \<open>Watching a directory of the file system\<close>

text \<open>The abstract monitor that watches the blocks of directory \<open>i\<close> under the name
  \<open>path\<close>.\<close>

definition tree_watches :: "dir_tree \<Rightarrow> string \<Rightarrow> u32 \<Rightarrow> watches" where
  "tree_watches fs path i = map_of (map (\<lambda>(k, res). (k, path, map snd res)) (fs i))"

lemma block_holds_listing:
  assumes "block_holds img b" "length (snd b) \<le> DIRMAX"
  shows "block_listing img (fst b) = Some (map snd (snd b))"
  using assms parse_block_enc [of "snd b"]
  by (simp add: block_listing_def read_block_def block_holds_def Let_def)

lemma watch_all_tree:
  assumes "distinct (map fst (fs i))" "\<forall>b\<in>set (fs i). block_listing img (fst b) = Some (map snd (snd b))"
  shows "watch_all img path (map fst (fs i)) Map.empty = tree_watches fs path i"
proof
  fix k
  show "watch_all img path (map fst (fs i)) Map.empty k = tree_watches fs path i k"
  proof (cases "k \<in> fst ` set (fs i)")
    case True
    then obtain res where r: "(k, res) \<in> set (fs i)" by force
    have "map_of (map (\<lambda>(k, res). (k, path, map snd res)) (fs i)) k = Some (path, map snd res)"
      using assms(1) r by (intro map_of_is_SomeI) (auto simp: comp_def case_prod_beta image_iff intro: bexI [of _ "(k, res)"])
    moreover have "block_listing img k = Some (map snd res)" using assms(2) r by fastforce
    ultimately show ?thesis using True by (simp add: watch_all_def tree_watches_def)
  next
    case False
    then have "map_of (map (\<lambda>(k, res). (k, path, map snd res)) (fs i)) k = None"
      by (force simp: map_of_eq_None_iff image_iff case_prod_beta)
    then show ?thesis using False by (simp add: watch_all_def tree_watches_def)
  qed
qed

text \<open>The demonstration program on an image that holds a file system.\<close>

lemma monitor_main_tree:
  assumes "image_file env ''/opt/xen_images/fedora-pv/fedora.img'' = Some img" "xa_linux_ext2_init img = Some (sb, gd)"
    and "fifo_opens env ''/tmp/appfifo1''" "tapfifo_opens env ''/dev/xen/tapfifo0''" "thread_starts env"
    and "holds_dirs img sb gd D fs" "2 \<in> D" "\<forall>n\<in>set (components path). length n \<le> MAX_PATH_LEN"
    and "resolve fs 2 (components path) = Some i" "distinct (map fst (fs i))" "\<forall>b\<in>set (fs i). good_listing (map snd (snd b))"
    and "\<forall>w\<in>set ws. write_ok (tree_watches fs path i) w"
  shows "\<exists>lss ht'. monitor_main env buf (map dw_message ws) path ht = Some (concat (concat lss), ht') \<and>
    map mset lss = fst (mon_run (tree_watches fs path i) (map (\<lambda>w. (dw_block w, dw_listing w)) ws)) \<and>
    (\<forall>j < HASH_SIZE. he_list (ht' j) = [])"
proof -
  obtain x where x: "xadisk_init env 1 ''/opt/xen_images/fedora-pv/fedora.img'' ht = Some (x, init_hash ht)"
    "xd_image x = img" "xd_sb x = sb" "xd_i_tables x = gd"
    using assms(1,2) by (simp add: xadisk_init_def Let_def)
  have d: "xa_linux_ext2_dir img sb gd path = Some (Some (map fst (fs i), i))"
    unfolding xa_linux_ext2_dir_def using ext2_dir_loop_resolves [OF assms(6-8)] assms(9) by simp
  have "i \<in> D" using resolve_in [OF assms(6,7,9)] .
  then have b: "\<forall>b\<in>set (fs i). block_listing img (fst b) = Some (map snd (snd b))"
    using assms(6,11) by (auto simp: holds_dirs_def good_listing_def intro!: block_holds_listing)
  note t = watch_all_tree [where fs = fs and i = i, OF assms(10) b, of path]
  from monitor_main_reports [OF x(1) assms(3-5), of path "map fst (fs i)" i ws buf] x(2-) d assms(10-12) b t
  show ?thesis by auto
qed

section \<open>Properties\<close>


definition root_tree :: dir_tree where
  "root_tree i = [(3, laid_out)]"

lemma root_holds: "holds_dirs root_img root_sb [2] {2} root_tree"
proof -
  have "take 4096 (drop 12288 root_img) = concat (map enc_entry laid_out)"
    using laid_out_length by (simp add: root_img_def)
  moreover have "inode_blocks root_img root_sb [2] 2 = Some [3]" by (rule root_inode)
  ultimately show ?thesis
    using laid_out_length by (simp add: holds_dirs_def root_sb_def block_holds_def root_tree_def dir_listing_def laid_out_def fits_def)
qed


end
