(* ===== verification/Xadisk_Tap.thy ===== *)
theory Xadisk_Tap
  imports Xadisk_Monitor
begin

text \<open>
  The logging tap drivers, \<open>block-logaio.c\<close> and \<open>block-logsync.c\<close>: each stands in front
  of a driver of blktap, forwards every call to it, and copies the writes into a FIFO. The driver
  underneath is a parameter, a table of functions on a state of its own as \<open>tapdisk.h\<close> describes
  it. The lemmas show that a logging driver is transparent for the guest and that the FIFO holds one
  message per write, in order.
\<close>

section \<open>Drivers\<close>

text \<open>A request; the callback and its argument are only passed on.\<close>

record td_request =
  rq_sector :: u64
  rq_nb_sectors :: u32
  rq_buf :: "u8 list"
  rq_cb :: nat
  rq_id :: int
  rq_private :: nat

record 'd tap_disk =
  td_open :: "string \<Rightarrow> 'd \<Rightarrow> int \<times> 'd"
  td_queue_read :: "td_request \<Rightarrow> 'd \<Rightarrow> int \<times> 'd"
  td_queue_write :: "td_request \<Rightarrow> 'd \<Rightarrow> int \<times> 'd"
  td_submit :: "'d \<Rightarrow> int \<times> 'd"
  td_get_fd :: "'d \<Rightarrow> int \<times> 'd"
  td_close :: "'d \<Rightarrow> int \<times> 'd"
  td_do_callbacks :: "int \<Rightarrow> 'd \<Rightarrow> int \<times> 'd"

text \<open>The state of a logging driver: that of the driver underneath, the minor number of the device, and
  the FIFO with the messages that it holds. \<open>fifo_takes\<close> says for its contents whether a write,
  which does not block, succeeds.\<close>

record 'd log_disk =
  ld_drv :: 'd
  ld_minor :: int
  ld_fifo_path :: string
  ld_fifo_open :: bool
  ld_fifo :: "u8 list list"

record fifo_env =
  fifo_ok :: "string \<Rightarrow> bool"
  fifo_takes :: "u8 list list \<Rightarrow> bool"

definition fifo_write :: "fifo_env \<Rightarrow> u8 list \<Rightarrow> 'd log_disk \<Rightarrow> 'd log_disk" where
  "fifo_write fe msg s =
     (if ld_fifo_open s \<and> fifo_takes fe (ld_fifo s) then s\<lparr>ld_fifo := ld_fifo s @ [msg]\<rparr> else s)"

text \<open>Calling the driver underneath.\<close>

definition forward :: "('d \<Rightarrow> int \<times> 'd) \<Rightarrow> 'd log_disk \<Rightarrow> int \<times> 'd log_disk" where
  "forward f s = (let (r, d) = f (ld_drv s) in (r, s\<lparr>ld_drv := d\<rparr>))"

section \<open>\<open>block-logaio.c\<close>\<close>

definition tdlogaio_open :: "fifo_env \<Rightarrow> 'd tap_disk \<Rightarrow> string \<Rightarrow> 'd log_disk \<Rightarrow> int \<times> 'd log_disk" where
  "tdlogaio_open fe aio name s =
     (let fifo_path = ''/dev/xen/tapfifo'' @ int_str (ld_minor s)
      in forward (td_open aio name) (s\<lparr>ld_fifo_path := fifo_path, ld_fifo_open := fifo_ok fe fifo_path\<rparr>))"

definition tdlogaio_close :: "'d tap_disk \<Rightarrow> 'd log_disk \<Rightarrow> int \<times> 'd log_disk" where
  "tdlogaio_close aio s = forward (td_close aio) (s\<lparr>ld_fifo_open := False\<rparr>)"

definition tdlogaio_queue_write ::
  "fifo_env \<Rightarrow> 'd tap_disk \<Rightarrow> u8 list \<Rightarrow> td_request \<Rightarrow> 'd log_disk \<Rightarrow> (int \<times> 'd log_disk) option" where
  "tdlogaio_queue_write fe aio junk rq s = do {
     data \<leftarrow> tdlogaio_message (rq_sector rq) (rq_nb_sectors rq) (rq_buf rq) junk;
     Some (forward (td_queue_write aio rq) (fifo_write fe data s)) }"

definition tdlogaio_queue_read :: "'d tap_disk \<Rightarrow> td_request \<Rightarrow> 'd log_disk \<Rightarrow> int \<times> 'd log_disk" where
  "tdlogaio_queue_read aio rq s = forward (td_queue_read aio rq) s"

section \<open>\<open>block-logsync.c\<close>\<close>

definition tdlogsync_open :: "fifo_env \<Rightarrow> 'd tap_disk \<Rightarrow> string \<Rightarrow> 'd log_disk \<Rightarrow> int \<times> 'd log_disk" where
  "tdlogsync_open fe sync name s =
     (let fifo_path = ''/dev/xen/tapfifo'' @ int_str (ld_minor s)
      in forward (td_open sync name) (s\<lparr>ld_fifo_path := fifo_path, ld_fifo_open := fifo_ok fe fifo_path\<rparr>))"

definition tdlogsync_close :: "'d tap_disk \<Rightarrow> 'd log_disk \<Rightarrow> int \<times> 'd log_disk" where
  "tdlogsync_close sync s = forward (td_close sync) (s\<lparr>ld_fifo_open := False\<rparr>)"

definition tdlogsync_queue_write ::
  "fifo_env \<Rightarrow> 'd tap_disk \<Rightarrow> u8 list \<Rightarrow> td_request \<Rightarrow> 'd log_disk \<Rightarrow> (int \<times> 'd log_disk) option" where
  "tdlogsync_queue_write fe sync junk rq s = do {
     data \<leftarrow> tdlogsync_message (rq_sector rq) (rq_nb_sectors rq) (rq_buf rq) junk;
     Some (forward (td_queue_write sync rq) (fifo_write fe data s)) }"

definition tdlogsync_queue_read :: "'d tap_disk \<Rightarrow> td_request \<Rightarrow> 'd log_disk \<Rightarrow> int \<times> 'd log_disk" where
  "tdlogsync_queue_read sync rq s = forward (td_queue_read sync rq) s"

section \<open>Sequences of calls\<close>

text \<open>The calls that the tap disk makes, on the bare driver and through the tables
  \<open>tapdisk_log_aio\<close> and \<open>tapdisk_log_sync\<close>. A write comes with what the unwritten tail of
  the message holds.\<close>

datatype td_op = Td_open string | Td_read td_request | Td_write td_request "u8 list" | Td_submit | Td_get_fd
  | Td_close | Td_callbacks int

fun bare_op :: "'d tap_disk \<Rightarrow> td_op \<Rightarrow> 'd \<Rightarrow> int \<times> 'd" where
  "bare_op drv (Td_open name) = td_open drv name"
| "bare_op drv (Td_read rq) = td_queue_read drv rq"
| "bare_op drv (Td_write rq junk) = td_queue_write drv rq"
| "bare_op drv Td_submit = td_submit drv"
| "bare_op drv Td_get_fd = td_get_fd drv"
| "bare_op drv Td_close = td_close drv"
| "bare_op drv (Td_callbacks sid) = td_do_callbacks drv sid"

fun tapdisk_log_aio :: "fifo_env \<Rightarrow> 'd tap_disk \<Rightarrow> td_op \<Rightarrow> 'd log_disk \<Rightarrow> (int \<times> 'd log_disk) option" where
  "tapdisk_log_aio fe drv (Td_open name) s = Some (tdlogaio_open fe drv name s)"
| "tapdisk_log_aio fe drv (Td_read rq) s = Some (tdlogaio_queue_read drv rq s)"
| "tapdisk_log_aio fe drv (Td_write rq junk) s = tdlogaio_queue_write fe drv junk rq s"
| "tapdisk_log_aio fe drv Td_submit s = Some (forward (td_submit drv) s)"
| "tapdisk_log_aio fe drv Td_get_fd s = Some (forward (td_get_fd drv) s)"
| "tapdisk_log_aio fe drv Td_close s = Some (tdlogaio_close drv s)"
| "tapdisk_log_aio fe drv (Td_callbacks sid) s = Some (forward (td_do_callbacks drv sid) s)"

fun tapdisk_log_sync :: "fifo_env \<Rightarrow> 'd tap_disk \<Rightarrow> td_op \<Rightarrow> 'd log_disk \<Rightarrow> (int \<times> 'd log_disk) option" where
  "tapdisk_log_sync fe drv (Td_open name) s = Some (tdlogsync_open fe drv name s)"
| "tapdisk_log_sync fe drv (Td_read rq) s = Some (tdlogsync_queue_read drv rq s)"
| "tapdisk_log_sync fe drv (Td_write rq junk) s = tdlogsync_queue_write fe drv junk rq s"
| "tapdisk_log_sync fe drv Td_submit s = Some (forward (td_submit drv) s)"
| "tapdisk_log_sync fe drv Td_get_fd s = Some (forward (td_get_fd drv) s)"
| "tapdisk_log_sync fe drv Td_close s = Some (tdlogsync_close drv s)"
| "tapdisk_log_sync fe drv (Td_callbacks sid) s = Some (forward (td_do_callbacks drv sid) s)"

fun bare_run :: "'d tap_disk \<Rightarrow> td_op list \<Rightarrow> 'd \<Rightarrow> int list \<times> 'd" where
  "bare_run drv [] d = ([], d)"
| "bare_run drv (a # ops) d = (let (r, d1) = bare_op drv a d; (rs, d2) = bare_run drv ops d1 in (r # rs, d2))"

fun log_run :: "(td_op \<Rightarrow> 's \<Rightarrow> (int \<times> 's) option) \<Rightarrow> td_op list \<Rightarrow> 's \<Rightarrow> (int list \<times> 's) option" where
  "log_run step [] s = Some ([], s)"
| "log_run step (a # ops) s = do {
     (r, s1) \<leftarrow> step a s;
     (rs, s2) \<leftarrow> log_run step ops s1;
     Some (r # rs, s2) }"

section \<open>The table of disk types\<close>

text \<open>The types of disk that \<open>tapdisk.h\<close> offers, each with its number, the handle by which a
  configuration names it and the driver. The drivers of blktap are parameters; every driver works on
  the state that a logging driver adds the FIFO to.\<close>

type_synonym 'd disk_driver = "td_op \<Rightarrow> 'd log_disk \<Rightarrow> (int \<times> 'd log_disk) option"

record 'd disk_info =
  di_idnum :: nat
  di_name :: string
  di_handle :: string
  di_single_handler :: bool
  di_drv :: "'d disk_driver"

record 'd blktap_drivers =
  tapdisk_aio :: "'d tap_disk"
  tapdisk_sync :: "'d tap_disk"
  tapdisk_vmdk :: "'d tap_disk"
  tapdisk_ram :: "'d tap_disk"
  tapdisk_qcow :: "'d tap_disk"

abbreviation (input) DISK_TYPE_AIO :: nat where "DISK_TYPE_AIO \<equiv> 0"
abbreviation (input) DISK_TYPE_SYNC :: nat where "DISK_TYPE_SYNC \<equiv> 1"
abbreviation (input) DISK_TYPE_LOG_SYNC :: nat where "DISK_TYPE_LOG_SYNC \<equiv> 5"
abbreviation (input) DISK_TYPE_LOG_AIO :: nat where "DISK_TYPE_LOG_AIO \<equiv> 6"
abbreviation (input) MAX_DISK_TYPES :: nat where "MAX_DISK_TYPES \<equiv> 20"

definition plain_driver :: "'d tap_disk \<Rightarrow> 'd disk_driver" where
  "plain_driver drv a s = Some (forward (bare_op drv a) s)"

definition aio_disk :: "'d blktap_drivers \<Rightarrow> 'd disk_info" where
  "aio_disk B = \<lparr>di_idnum = DISK_TYPE_AIO, di_name = ''raw image (aio)'', di_handle = ''aio'', di_single_handler = False,
     di_drv = plain_driver (tapdisk_aio B)\<rparr>"

definition sync_disk :: "'d blktap_drivers \<Rightarrow> 'd disk_info" where
  "sync_disk B = \<lparr>di_idnum = DISK_TYPE_SYNC, di_name = ''raw image (sync)'', di_handle = ''sync'', di_single_handler = False,
     di_drv = plain_driver (tapdisk_sync B)\<rparr>"

definition vmdk_disk :: "'d blktap_drivers \<Rightarrow> 'd disk_info" where
  "vmdk_disk B = \<lparr>di_idnum = 2, di_name = ''vmware image (vmdk)'', di_handle = ''vmdk'', di_single_handler = True,
     di_drv = plain_driver (tapdisk_vmdk B)\<rparr>"

definition ram_disk :: "'d blktap_drivers \<Rightarrow> 'd disk_info" where
  "ram_disk B = \<lparr>di_idnum = 3, di_name = ''ramdisk image (ram)'', di_handle = ''ram'', di_single_handler = True,
     di_drv = plain_driver (tapdisk_ram B)\<rparr>"

definition qcow_disk :: "'d blktap_drivers \<Rightarrow> 'd disk_info" where
  "qcow_disk B = \<lparr>di_idnum = 4, di_name = ''qcow disk (qcow)'', di_handle = ''qcow'', di_single_handler = False,
     di_drv = plain_driver (tapdisk_qcow B)\<rparr>"

definition log_sync_disk :: "fifo_env \<Rightarrow> 'd blktap_drivers \<Rightarrow> 'd disk_info" where
  "log_sync_disk fe B = \<lparr>di_idnum = DISK_TYPE_LOG_SYNC, di_name = ''raw image (log-sync)'', di_handle = ''log-sync'',
     di_single_handler = False, di_drv = tapdisk_log_sync fe (tapdisk_sync B)\<rparr>"

definition log_aio_disk :: "fifo_env \<Rightarrow> 'd blktap_drivers \<Rightarrow> 'd disk_info" where
  "log_aio_disk fe B = \<lparr>di_idnum = DISK_TYPE_LOG_AIO, di_name = ''raw image (log-aio)'', di_handle = ''log-aio'',
     di_single_handler = False, di_drv = tapdisk_log_aio fe (tapdisk_aio B)\<rparr>"

definition dtypes :: "fifo_env \<Rightarrow> 'd blktap_drivers \<Rightarrow> 'd disk_info list" where
  "dtypes fe B = [aio_disk B, sync_disk B, vmdk_disk B, ram_disk B, qcow_disk B, log_sync_disk fe B, log_aio_disk fe B]"

lemmas dtypes_defs = dtypes_def aio_disk_def sync_disk_def vmdk_disk_def ram_disk_def qcow_disk_def log_sync_disk_def
  log_aio_disk_def

text \<open>The table is indexed by the number of the type, handles are unique, and names and handles fit their
  arrays.\<close>

lemma dtypes_indexed: "i < length (dtypes fe B) \<Longrightarrow> di_idnum (dtypes fe B ! i) = i"
  by (auto simp: dtypes_defs less_Suc_eq numeral_eq_Suc)

lemma dtypes_wf: "distinct (map di_handle (dtypes fe B))" "length (dtypes fe B) \<le> MAX_DISK_TYPES"
  "\<forall>d\<in>set (dtypes fe B). length (di_name d) < 50 \<and> length (di_handle d) < 10"
  by (simp_all add: dtypes_defs)

section \<open>Writes\<close>

text \<open>The writes among the calls, and calls whose buffers hold a block.\<close>

definition request_write :: "td_request \<Rightarrow> u8 list \<Rightarrow> disk_write" where
  "request_write rq junk = \<lparr>dw_sector = rq_sector rq, dw_nb_sectors = rq_nb_sectors rq, dw_data = rq_buf rq, dw_junk = junk\<rparr>"

fun op_writes :: "td_op \<Rightarrow> disk_write list" where
  "op_writes (Td_write rq junk) = [request_write rq junk]"
| "op_writes a = []"

definition full_block :: "td_op \<Rightarrow> bool" where
  "full_block a \<longleftrightarrow> (\<forall>w\<in>set (op_writes a). 4096 \<le> length (dw_data w))"

section \<open>Transparency\<close>

lemma log_sync_aio: "tapdisk_log_sync = tapdisk_log_aio"
proof (intro ext)
  fix fe :: fifo_env and drv :: "'d tap_disk" and a s
  show "tapdisk_log_sync fe drv a s = tapdisk_log_aio fe drv a s"
    by (cases a) (simp_all add: tdlogsync_open_def tdlogaio_open_def tdlogsync_queue_read_def tdlogaio_queue_read_def
        tdlogsync_queue_write_def tdlogaio_queue_write_def tdlogsync_close_def tdlogaio_close_def
        tdlogsync_message_def tdlogaio_message_def)
qed

lemma forward_drv: "fst (forward f s) = fst (f (ld_drv s))" "ld_drv (snd (forward f s)) = snd (f (ld_drv s))"
  "ld_fifo (snd (forward f s)) = ld_fifo s" "ld_fifo_open (snd (forward f s)) = ld_fifo_open s"
  by (simp_all add: forward_def split_beta)

lemma fifo_write_drv: "ld_drv (fifo_write fe m s) = ld_drv s" "ld_fifo_open (fifo_write fe m s) = ld_fifo_open s"
  by (simp_all add: fifo_write_def)

lemma log_aio_op:
  assumes "full_block a"
  shows "\<exists>s'. tapdisk_log_aio fe drv a s = Some (fst (bare_op drv a (ld_drv s)), s') \<and>
    ld_drv s' = snd (bare_op drv a (ld_drv s)) \<and>
    (ld_fifo_open s \<and> (\<forall>q. fifo_takes fe q) \<and> (\<forall>p. fifo_ok fe p) \<and> a \<noteq> Td_close \<longrightarrow>
      ld_fifo_open s' \<and> map Some (ld_fifo s') = map Some (ld_fifo s) @ map dw_message (op_writes a))"
proof (cases a)
  case (Td_write rq junk)
  then have "4096 \<le> length (rq_buf rq)" using assms by (simp add: full_block_def request_write_def)
  then obtain m where m: "tdlogaio_message (rq_sector rq) (rq_nb_sectors rq) (rq_buf rq) junk = Some m"
    by (simp add: tdlogaio_message_def)
  show ?thesis
    by (rule exI [of _ "snd (forward (td_queue_write drv rq) (fifo_write fe m s))"])
      (use m Td_write in \<open>auto simp: tdlogaio_queue_write_def prod_eq_iff forward_drv fifo_write_drv dw_message_def
        request_write_def fifo_write_def\<close>)
qed (auto simp: tdlogaio_open_def tdlogaio_queue_read_def tdlogaio_close_def prod_eq_iff forward_drv Let_def)

lemma log_aio_run:
  assumes "\<forall>a\<in>set ops. full_block a"
  shows "\<exists>s'. log_run (tapdisk_log_aio fe drv) ops s = Some (fst (bare_run drv ops (ld_drv s)), s') \<and>
    ld_drv s' = snd (bare_run drv ops (ld_drv s)) \<and>
    (ld_fifo_open s \<and> (\<forall>q. fifo_takes fe q) \<and> (\<forall>p. fifo_ok fe p) \<and> Td_close \<notin> set ops \<longrightarrow>
      map Some (ld_fifo s') = map Some (ld_fifo s) @ map dw_message (concat (map op_writes ops)))"
  using assms
proof (induction ops arbitrary: s)
  case (Cons a ops)
  obtain s1 where s1: "tapdisk_log_aio fe drv a s = Some (fst (bare_op drv a (ld_drv s)), s1)"
    "ld_drv s1 = snd (bare_op drv a (ld_drv s))"
    "ld_fifo_open s \<and> (\<forall>q. fifo_takes fe q) \<and> (\<forall>p. fifo_ok fe p) \<and> a \<noteq> Td_close \<longrightarrow>
      ld_fifo_open s1 \<and> map Some (ld_fifo s1) = map Some (ld_fifo s) @ map dw_message (op_writes a)"
    using log_aio_op [of a fe drv s] Cons.prems by auto
  obtain s2 where "log_run (tapdisk_log_aio fe drv) ops s1 = Some (fst (bare_run drv ops (ld_drv s1)), s2)"
    "ld_drv s2 = snd (bare_run drv ops (ld_drv s1))"
    "ld_fifo_open s1 \<and> (\<forall>q. fifo_takes fe q) \<and> (\<forall>p. fifo_ok fe p) \<and> Td_close \<notin> set ops \<longrightarrow>
      map Some (ld_fifo s2) = map Some (ld_fifo s1) @ map dw_message (concat (map op_writes ops))"
    using Cons.IH [of s1] Cons.prems by auto
  then show ?case using s1 by (auto simp: split_beta)
qed simp

lemma plain_run:
  "\<exists>s'. log_run (plain_driver drv) ops s = Some (fst (bare_run drv ops (ld_drv s)), s') \<and> ld_drv s' = snd (bare_run drv ops (ld_drv s))"
proof (induction ops arbitrary: s)
  case (Cons a ops)
  show ?case using Cons.IH [of "snd (forward (bare_op drv a) s)"]
    by (auto simp: plain_driver_def split_beta forward_drv)
qed simp

section \<open>Properties\<close>


text \<open>A driver that counts the calls, and a write between two submissions.\<close>

definition count_drv :: "nat tap_disk" where
  "count_drv = \<lparr>td_open = (\<lambda>n d. (0, d)), td_queue_read = (\<lambda>rq d. (0, Suc d)), td_queue_write = (\<lambda>rq d. (int d, Suc d)),
     td_submit = (\<lambda>d. (0, d)), td_get_fd = (\<lambda>d. (4096, d)), td_close = (\<lambda>d. (0, 0)), td_do_callbacks = (\<lambda>i d. (0, d))\<rparr>"

definition count_log :: "nat log_disk" where
  "count_log = \<lparr>ld_drv = 5, ld_minor = 0, ld_fifo_path = ''/dev/xen/tapfifo0'', ld_fifo_open = True, ld_fifo = []\<rparr>"

definition count_blktap :: "nat blktap_drivers" where
  "count_blktap = \<lparr>tapdisk_aio = count_drv, tapdisk_sync = count_drv, tapdisk_vmdk = count_drv, tapdisk_ram = count_drv,
     tapdisk_qcow = count_drv\<rparr>"

definition open_fifo :: fifo_env where
  "open_fifo = \<lparr>fifo_ok = (\<lambda>p. True), fifo_takes = (\<lambda>q. True)\<rparr>"

definition a_write :: td_request where
  "a_write = \<lparr>rq_sector = 8, rq_nb_sectors = 8, rq_buf = replicate 4096 0, rq_cb = 0, rq_id = 1, rq_private = 0\<rparr>"


end
